(* ===== verification/Host_Prelude.thy ===== *)
theory Host_Prelude
  imports Complex_Main "HOL-Library.Word" "HOL-Library.Multiset" "HOL-Library.AList"
begin

text \<open>
  Shared vocabulary of the development: the pieces of Go and of its standard library that the
  host client uses, and the generic list, option and map facts the components share.

  \<^item> A Go string is a byte sequence, here a \<^typ>\<open>string\<close> (a list of 8-bit characters).
    \<open>TrimSpace\<close>, \<open>ToLower\<close> and \<open>EqualFold\<close> are modelled on their ASCII range.
  \<^item> \<open>int\<close> and \<open>int64\<close> are \<^typ>\<open>int\<close> with \<open>wrap64\<close> written out at the arithmetic that
    may leave the range; \<open>uint64\<close> is \<^typ>\<open>nat\<close> with \<open>wrapU64\<close>.
  \<^item> A finite \<open>float64\<close> is a rational; the conversions to integers truncate, and outside
    the target range they give what the amd64 instructions give.
  \<^item> \<open>any\<close> is the datatype \<open>gany\<close>, one constructor per dynamic type the code inspects.
  \<^item> \<open>map[string]T\<close> whose iteration order can matter is an association list; the order of
    the list stands for the (arbitrary) iteration order.
\<close>

named_theorems go_defs \<open>definitions of the Go standard library subset\<close>
named_theorems queue_defs \<open>operations of the prune queue\<close>

subsection \<open>Machine integers\<close>

definition wrap64 :: "int \<Rightarrow> int" where
  "wrap64 x = (x + 2 ^ 63) mod 2 ^ 64 - 2 ^ 63"

definition wrapU64 :: "int \<Rightarrow> nat" where
  "wrapU64 x = nat (x mod 2 ^ 64)"

definition int64_range :: "int \<Rightarrow> bool" where
  "int64_range x \<longleftrightarrow> - (2 ^ 63) \<le> x \<and> x < 2 ^ 63"

definition truncR :: "rat \<Rightarrow> int" where
  "truncR r = (if 0 \<le> r then \<lfloor>r\<rfloor> else \<lceil>r\<rceil>)"

definition f64_to_int64 :: "rat \<Rightarrow> int" where
  "f64_to_int64 r = (if int64_range (truncR r) then truncR r else - (2 ^ 63))"

definition f64_to_uint64 :: "rat \<Rightarrow> nat" where
  "f64_to_uint64 r =
     (if r < 2 ^ 63 then wrapU64 (f64_to_int64 r)
      else wrapU64 (f64_to_int64 (r - 2 ^ 63) + 2 ^ 63))"

subsection \<open>Dynamic values\<close>

datatype gany =
    ANil
  | AStr string
  | ABool bool
  | AInt int
  | AInt64 int
  | AUint64 nat
  | AFloat64 rat
  | AStrs "string list"
  | AOptStrs "string option list"
  | AAnys "gany list"
  | AMaps "(string \<times> gany) list list"
  | AMap "(string \<times> gany) list"

type_synonym gfields = "(string \<times> gany) list"

subsection \<open>Strings\<close>

fun indexByte :: "string \<Rightarrow> char \<Rightarrow> nat option" where
  "indexByte [] c = None"
| "indexByte (x # xs) c = (if x = c then Some 0 else map_option Suc (indexByte xs c))"

definition hasPrefix :: "string \<Rightarrow> string \<Rightarrow> bool" where
  "hasPrefix s p \<longleftrightarrow> take (length p) s = p"

definition hasSuffix :: "string \<Rightarrow> string \<Rightarrow> bool" where
  "hasSuffix s p \<longleftrightarrow> length p \<le> length s \<and> drop (length s - length p) s = p"

fun indexStr :: "string \<Rightarrow> string \<Rightarrow> nat option" where
  "indexStr [] p = (if p = [] then Some 0 else None)"
| "indexStr (x # xs) p =
     (if hasPrefix (x # xs) p then Some 0 else map_option Suc (indexStr xs p))"

definition containsStr :: "string \<Rightarrow> string \<Rightarrow> bool" where
  "containsStr s p \<longleftrightarrow> indexStr s p \<noteq> None"

text \<open>\<open>strings.Replace(s, old, new, 1)\<close> for a non-empty \<open>old\<close>.\<close>

definition replaceFirst :: "string \<Rightarrow> string \<Rightarrow> string \<Rightarrow> string" where
  "replaceFirst s old new =
     (case indexStr s old of None \<Rightarrow> s
      | Some i \<Rightarrow> take i s @ new @ drop (i + length old) s)"

text \<open>\<open>strings.ReplaceAll(s, old, new)\<close> for a non-empty \<open>old\<close>.\<close>

function replaceAll :: "string \<Rightarrow> string \<Rightarrow> string \<Rightarrow> string" where
  "replaceAll [] old new = []"
| "replaceAll (x # xs) old new =
     (if old \<noteq> [] \<and> hasPrefix (x # xs) old
      then new @ replaceAll (drop (length old) (x # xs)) old new
      else x # replaceAll xs old new)"
  by pat_completeness auto
termination
  by (relation "measure (\<lambda>(s, _, _). length s)") (auto simp: neq_Nil_conv)

definition isSpace :: "char \<Rightarrow> bool" where
  "isSpace c \<longleftrightarrow> c = CHR '' '' \<or> c = CHR 0x09 \<or> c = CHR 0x0A \<or> c = CHR 0x0B
     \<or> c = CHR 0x0C \<or> c = CHR 0x0D"

definition trimSpace :: "string \<Rightarrow> string" where
  "trimSpace s = rev (dropWhile isSpace (rev (dropWhile isSpace s)))"

definition lowerChar :: "char \<Rightarrow> char" where
  "lowerChar c = (if (65::nat) \<le> of_char c \<and> (of_char c :: nat) \<le> 90
                  then char_of ((of_char c :: nat) + 32) else c)"

definition toLower :: "string \<Rightarrow> string" where
  "toLower s = map lowerChar s"

definition equalFold :: "string \<Rightarrow> string \<Rightarrow> bool" where
  "equalFold s t \<longleftrightarrow> toLower s = toLower t"

text \<open>\<open>strings.Split\<close> by a one-byte separator.\<close>

fun splitByte :: "char \<Rightarrow> string \<Rightarrow> string list" where
  "splitByte c [] = [[]]"
| "splitByte c (x # xs) =
     (if x = c then [] # splitByte c xs
      else (case splitByte c xs of [] \<Rightarrow> [[x]] | y # ys \<Rightarrow> (x # y) # ys))"

subsubsection \<open>Decimal output (\<open>%d\<close>)\<close>

definition digitChar :: "nat \<Rightarrow> char" where
  "digitChar n = char_of (48 + n)"

fun showNat :: "nat \<Rightarrow> string" where
  "showNat n = (if n < 10 then [digitChar n] else showNat (n div 10) @ [digitChar (n mod 10)])"

declare showNat.simps [simp del]

definition showInt :: "int \<Rightarrow> string" where
  "showInt i = (if i < 0 then CHR ''-'' # showNat (nat (- i)) else showNat (nat i))"

subsubsection \<open>Hexadecimal (\<open>encoding/hex\<close>)\<close>

type_synonym byte = "8 word"

definition hexDigit :: "nat \<Rightarrow> char" where
  "hexDigit n = (if n < 10 then char_of (48 + n) else char_of (87 + n))"

definition fromHexChar :: "char \<Rightarrow> nat option" where
  "fromHexChar c =
     (let n = (of_char c :: nat) in
      if 48 \<le> n \<and> n \<le> 57 then Some (n - 48)
      else if 97 \<le> n \<and> n \<le> 102 then Some (n - 87)
      else if 65 \<le> n \<and> n \<le> 70 then Some (n - 55)
      else None)"

fun hexEncode :: "byte list \<Rightarrow> string" where
  "hexEncode [] = []"
| "hexEncode (b # bs) = hexDigit (unat b div 16) # hexDigit (unat b mod 16) # hexEncode bs"

text \<open>\<open>hex.DecodeString\<close>: \<open>None\<close> on an odd length or a byte that is not a hex digit.\<close>

fun hexDecode :: "string \<Rightarrow> byte list option" where
  "hexDecode [] = Some []"
| "hexDecode [c] = None"
| "hexDecode (c # d # cs) =
     (case (fromHexChar c, fromHexChar d) of
        (Some a, Some b) \<Rightarrow> map_option (Cons (word_of_nat (16 * a + b))) (hexDecode cs)
      | _ \<Rightarrow> None)"

subsection \<open>First-occurrence deduplication\<close>

text \<open>
  The loop \<open>if !seen[key(x)] { seen[key(x)] = true; out = append(out, x) }\<close> that several
  components use; \<open>seen\<close> is the list of keys already recorded.
\<close>

fun dedupOn :: "('a \<Rightarrow> 'k) \<Rightarrow> 'k list \<Rightarrow> 'a list \<Rightarrow> 'a list" where
  "dedupOn key seen [] = []"
| "dedupOn key seen (x # xs) =
     (if key x \<in> set seen then dedupOn key seen xs
      else x # dedupOn key (key x # seen) xs)"

subsection \<open>Integer lemmas\<close>

lemma wrap64_range: "int64_range (wrap64 x)"
  by (simp add: wrap64_def int64_range_def)

lemma wrap64_id [simp]: "int64_range x \<Longrightarrow> wrap64 x = x"
  by (simp add: wrap64_def int64_range_def)

lemma wrapU64_bound: "wrapU64 x < 2 ^ 64"
  by (simp add: wrapU64_def nat_less_iff)

lemma truncR_of_int [simp]: "truncR (of_int i) = i"
  by (simp add: truncR_def)

subsection \<open>String lemmas\<close>

lemma indexByte_None_iff: "indexByte s c = None \<longleftrightarrow> c \<notin> set s"
  by (induction s) auto

lemma indexByte_append [simp]: "c \<notin> set p \<Longrightarrow> indexByte (p @ c # s) c = Some (length p)"
  by (induction p) auto

lemma indexByte_SomeD:
  "indexByte s c = Some i \<Longrightarrow> i < length s \<and> s ! i = c \<and> c \<notin> set (take i s)"
proof (induction s arbitrary: i)
  case Nil
  then show ?case by simp
next
  case (Cons x s)
  then show ?case by (auto split: if_splits)
qed

lemma hasPrefix_append [simp]: "hasPrefix (p @ s) p"
  by (simp add: hasPrefix_def)

lemma hasPrefix_Nil [simp]: "hasPrefix s []"
  by (simp add: hasPrefix_def)

lemma hasPrefixD: "hasPrefix s p \<Longrightarrow> s = p @ drop (length p) s"
  by (metis append_take_drop_id hasPrefix_def)

lemma indexStr_SomeD:
  "indexStr s p = Some i \<Longrightarrow> s = take i s @ p @ drop (i + length p) s"
proof (induction s arbitrary: i)
  case Nil
  then show ?case by (simp split: if_splits)
next
  case (Cons x s)
  show ?case
  proof (cases "hasPrefix (x # s) p")
    case True
    with Cons.prems show ?thesis by (auto dest: hasPrefixD)
  next
    case False
    with Cons.prems obtain j where "indexStr s p = Some j" "i = Suc j" by auto
    with Cons.IH show ?thesis by simp
  qed
qed

lemma indexStr_appendI: "indexStr (u @ p @ v) p \<noteq> None"
proof (induction u)
  case Nil
  show ?case
  proof (cases "p @ v")
    case Nil
    then show ?thesis by simp
  next
    case (Cons x xs)
    then show ?thesis using hasPrefix_append [of p v] by simp
  qed
next
  case (Cons a u)
  then show ?case by auto
qed

lemma containsStr_iff: "containsStr s p \<longleftrightarrow> (\<exists>u v. s = u @ p @ v)"
  unfolding containsStr_def using indexStr_SomeD indexStr_appendI by blast

lemma equalFold_refl [simp]: "equalFold s s"
  by (simp add: equalFold_def)

lemma equalFold_sym: "equalFold s t \<longleftrightarrow> equalFold t s"
  by (auto simp: equalFold_def)

lemma replaceAll_byte_erase: "replaceAll s [c] [] = filter (\<lambda>x. x \<noteq> c) s"
  by (induction s) (auto simp: hasPrefix_def)

subsection \<open>Decimal and hexadecimal lemmas\<close>

lemma of_char_digitChar: "n < 10 \<Longrightarrow> (of_char (digitChar n) :: nat) = 48 + n"
  by (simp add: digitChar_def)

lemma digitChar_eq [simp]:
  "m < 10 \<Longrightarrow> n < 10 \<Longrightarrow> digitChar m = digitChar n \<longleftrightarrow> m = n"
  by (metis add_left_cancel of_char_digitChar)

lemma showNat_digits: "c \<in> set (showNat n) \<Longrightarrow> 48 \<le> (of_char c :: nat) \<and> (of_char c :: nat) \<le> 57"
proof (induction n rule: showNat.induct)
  case (1 n)
  show ?case
  proof (cases "n < 10")
    case True
    with "1.prems" show ?thesis by (simp add: showNat.simps [of n] of_char_digitChar)
  next
    case False
    with "1" show ?thesis
      by (auto simp: showNat.simps [of n] of_char_digitChar)
  qed
qed

lemma showNat_not_Nil [simp]: "showNat n \<noteq> []"
  by (subst showNat.simps) simp

lemma showNat_inj: "showNat m = showNat n \<Longrightarrow> m = n"
proof (induction m arbitrary: n rule: showNat.induct)
  case (1 m)
  have l: "length (showNat k) = 1 \<longleftrightarrow> k < 10" for k
    by (subst showNat.simps) simp
  show ?case
  proof (cases "m < 10")
    case True
    then have "n < 10" using l "1.prems" by metis
    with True "1.prems" show ?thesis by (simp add: showNat.simps)
  next
    case False
    then have n: "\<not> n < 10" using l "1.prems" by metis
    with False "1.prems" have eqs: "showNat (m div 10) = showNat (n div 10)" "m mod 10 = n mod 10"
      by (simp_all add: showNat.simps [of m] showNat.simps [of n])
    from "1.IH" [OF False eqs(1)] have "m div 10 = n div 10" .
    with eqs(2) show ?thesis by (metis div_mult_mod_eq)
  qed
qed

lemma showInt_inj: "showInt i = showInt j \<Longrightarrow> i = j"
proof -
  assume h: "showInt i = showInt j"
  have d: "CHR ''-'' \<notin> set (showNat n)" for n
    using showNat_digits [of "CHR ''-''" n] by auto
  from h d [of "nat i"] d [of "nat j"] show "i = j"
    by (auto simp: showInt_def split: if_splits dest!: showNat_inj)
      (metis list.set_intros(1))+
qed

lemma fromHexChar_hexDigit [simp]: "n < 16 \<Longrightarrow> fromHexChar (hexDigit n) = Some n"
  by (auto simp: fromHexChar_def hexDigit_def)

lemma fromHexChar_dash [simp]: "fromHexChar (CHR ''-'') = None"
  by (simp add: fromHexChar_def)

lemma hexDigit_not_dash: "n < 16 \<Longrightarrow> hexDigit n \<noteq> CHR ''-''"
  by (metis fromHexChar_dash fromHexChar_hexDigit option.distinct(1))

lemma byte_halves: "unat (b :: byte) div 16 < 16" "unat b mod 16 < 16"
proof -
  have "unat b < 2 ^ LENGTH(8)" by (rule unsigned_less)
  then show "unat b div 16 < 16" "unat b mod 16 < 16" by simp_all
qed

lemma hexDecode_hexEncode [simp]: "hexDecode (hexEncode bs) = Some bs"
  by (induction bs) (simp_all add: byte_halves)

lemma length_hexEncode [simp]: "length (hexEncode bs) = 2 * length bs"
  by (induction bs) auto

lemma hexEncode_no_dash: "CHR ''-'' \<notin> set (hexEncode bs)"
  by (induction bs) (auto simp: hexDigit_not_dash byte_halves eq_commute [of "CHR ''-''"])

lemma hexDecode_length: "hexDecode s = Some bs \<Longrightarrow> length s = 2 * length bs"
  by (induction s arbitrary: bs rule: hexDecode.induct) (auto split: option.splits)

subsection \<open>Deduplication lemmas\<close>

lemma set_dedupOn: "set (dedupOn key seen xs) \<subseteq> set xs"
  by (induction key seen xs rule: dedupOn.induct) auto

lemma dedupOn_keys: "key ` set (dedupOn key seen xs) = key ` set xs - set seen"
proof (induction key seen xs rule: dedupOn.induct)
  case (1 key seen)
  then show ?case by simp
next
  case (2 key seen x xs)
  then show ?case by (cases "key x \<in> set seen") auto
qed

lemma dedupOn_distinct: "distinct (map key (dedupOn key seen xs))"
proof (induction key seen xs rule: dedupOn.induct)
  case (1 key seen)
  then show ?case by simp
next
  case (2 key seen x xs)
  then show ?case by (auto simp: dedupOn_keys)
qed

lemma dedupOn_id:
  "distinct (map key xs) \<Longrightarrow> key ` set xs \<inter> set seen = {} \<Longrightarrow> dedupOn key seen xs = xs"
  by (induction xs arbitrary: seen) auto

lemma dedupOn_cong_seen: "set seen = set seen' \<Longrightarrow> dedupOn key seen xs = dedupOn key seen' xs"
proof (induction xs arbitrary: seen seen')
  case Nil
  then show ?case by simp
next
  case (Cons x xs)
  then show ?case by (metis (no_types, lifting) dedupOn.simps(2) list.simps(15))
qed

lemma dedupOn_append:
  "dedupOn key seen (xs @ ys) = dedupOn key seen xs @ dedupOn key (map key xs @ seen) ys"
proof (induction xs arbitrary: seen)
  case Nil
  show ?case by simp
next
  case (Cons x xs)
  have "dedupOn key (map key xs @ key x # seen) ys = dedupOn key (key x # map key xs @ seen) ys"
    "key x \<in> set seen \<Longrightarrow> dedupOn key (map key xs @ seen) ys = dedupOn key (key x # map key xs @ seen) ys"
    by (auto intro: dedupOn_cong_seen)
  with Cons show ?case by simp
qed

lemma dedup_id:
  "set (dedupOn id seen xs) = set xs - set seen" "distinct (dedupOn id seen xs)"
  using dedupOn_keys [of id seen xs] dedupOn_distinct [of id seen xs] by (simp_all only: image_id list.map_id id_apply)

lemmas dedup_facts = set_dedupOn dedupOn_keys dedupOn_distinct

subsection \<open>Association lists\<close>

lemma map_of_swap:
  assumes "distinct (map fst xs)" "distinct (map snd xs)"
  shows "map_of xs k = Some v \<longleftrightarrow> map_of (map prod.swap xs) v = Some k"
proof -
  have "distinct (map fst (map prod.swap xs))" using assms(2) by (simp add: comp_def)
  with assms(1) show ?thesis by (auto simp: map_of_eq_Some_iff)
qed

lemma alist_update_new: "map_of xs k = None \<Longrightarrow> AList.update k v xs = xs @ [(k, v)]"
  by (induction xs) (auto split: if_splits)

end
