(* ===== verification/Host_Metrics.thy ===== *)
theory Host_Metrics
  imports Host_Prelude
begin

text \<open>
  \<open>pkg/server/metrics.go\<close>: the counters of the host, each updated by an atomic add, the
  compare-and-swap maximum of the most recent block as a step relation over interleaved
  threads, and the content negotiation of the endpoint. Times are nanoseconds.
\<close>

record HostMetrics =
  AttestationsCreated :: int
  AttestationErrors :: int
  SignatureVerifications :: int
  SignatureFailures :: int
  BlockSigEventsReceived :: int
  DocumentsReceived :: int
  BlocksProcessed :: int
  TransactionsProcessed :: int
  LogsProcessed :: int
  AccessListsProcessed :: int
  BlockSignaturesProcessed :: int
  ViewsRegistered :: int
  ViewsActive :: int
  lastProcessingTimeBits :: "64 word"
  StartTime :: int
  LastDocumentTime :: int
  MostRecentBlock :: nat
  BuildTags :: string
  SchemaType :: string

definition NewHostMetrics :: "int \<Rightarrow> HostMetrics" where
  "NewHostMetrics now =
     \<lparr>AttestationsCreated = 0, AttestationErrors = 0, SignatureVerifications = 0, SignatureFailures = 0,
      BlockSigEventsReceived = 0, DocumentsReceived = 0, BlocksProcessed = 0, TransactionsProcessed = 0,
      LogsProcessed = 0, AccessListsProcessed = 0, BlockSignaturesProcessed = 0, ViewsRegistered = 0,
      ViewsActive = 0, lastProcessingTimeBits = 0, StartTime = now, LastDocumentTime = 0,
      MostRecentBlock = 0, BuildTags = ''standard'', SchemaType = ''non-branchable''\<rparr>"

text \<open>\<open>atomic.AddInt64(&x, 1)\<close>\<close>

definition inc64 :: "int \<Rightarrow> int" where
  "inc64 x = wrap64 (x + 1)"

definition IncrementAttestationsCreated :: "HostMetrics \<Rightarrow> HostMetrics" where
  "IncrementAttestationsCreated m = m\<lparr>AttestationsCreated := inc64 (AttestationsCreated m)\<rparr>"

definition IncrementAttestationErrors :: "HostMetrics \<Rightarrow> HostMetrics" where
  "IncrementAttestationErrors m = m\<lparr>AttestationErrors := inc64 (AttestationErrors m)\<rparr>"

definition IncrementSignatureVerifications :: "HostMetrics \<Rightarrow> HostMetrics" where
  "IncrementSignatureVerifications m = m\<lparr>SignatureVerifications := inc64 (SignatureVerifications m)\<rparr>"

definition IncrementSignatureFailures :: "HostMetrics \<Rightarrow> HostMetrics" where
  "IncrementSignatureFailures m = m\<lparr>SignatureFailures := inc64 (SignatureFailures m)\<rparr>"

definition IncrementBlockSigEventsReceived :: "HostMetrics \<Rightarrow> HostMetrics" where
  "IncrementBlockSigEventsReceived m = m\<lparr>BlockSigEventsReceived := inc64 (BlockSigEventsReceived m)\<rparr>"

definition IncrementDocumentsReceived :: "int \<Rightarrow> HostMetrics \<Rightarrow> HostMetrics" where
  "IncrementDocumentsReceived now m =
     m\<lparr>DocumentsReceived := inc64 (DocumentsReceived m), LastDocumentTime := now\<rparr>"

definition IncrementDocumentByType :: "string \<Rightarrow> HostMetrics \<Rightarrow> HostMetrics" where
  "IncrementDocumentByType docType m =
     (if docType = ''Ethereum__Mainnet__Block''
      then m\<lparr>BlocksProcessed := inc64 (BlocksProcessed m)\<rparr>
      else if docType = ''Ethereum__Mainnet__Transaction''
      then m\<lparr>TransactionsProcessed := inc64 (TransactionsProcessed m)\<rparr>
      else if docType = ''Ethereum__Mainnet__Log''
      then m\<lparr>LogsProcessed := inc64 (LogsProcessed m)\<rparr>
      else if docType = ''Ethereum__Mainnet__AccessListEntry''
      then m\<lparr>AccessListsProcessed := inc64 (AccessListsProcessed m)\<rparr>
      else if docType = ''Ethereum__Mainnet__BlockSignature''
      then m\<lparr>BlockSignaturesProcessed := inc64 (BlockSignaturesProcessed m)\<rparr>
      else m)"

definition IncrementViewsRegistered :: "HostMetrics \<Rightarrow> HostMetrics" where
  "IncrementViewsRegistered m = m\<lparr>ViewsRegistered := inc64 (ViewsRegistered m)\<rparr>"

definition SetViewsActive :: "int \<Rightarrow> HostMetrics \<Rightarrow> HostMetrics" where
  "SetViewsActive cnt m = m\<lparr>ViewsActive := cnt\<rparr>"

text \<open>The float is stored as its bit pattern.\<close>

definition UpdateLastProcessingTime :: "64 word \<Rightarrow> HostMetrics \<Rightarrow> HostMetrics" where
  "UpdateLastProcessingTime bits m = m\<lparr>lastProcessingTimeBits := bits\<rparr>"

text \<open>
  \<open>UpdateMostRecentBlock\<close> run by one goroutine with no interference; \<open>casStep\<close> below is
  the loop at the granularity of its atomic operations.
\<close>

definition UpdateMostRecentBlock :: "nat \<Rightarrow> HostMetrics \<Rightarrow> HostMetrics" where
  "UpdateMostRecentBlock blockNumber m =
     (if blockNumber \<le> MostRecentBlock m then m else m\<lparr>MostRecentBlock := blockNumber\<rparr>)"

datatype casThread = AtLoad nat | AtCAS nat nat | Returned nat

text \<open>One atomic operation of one goroutine: the load with its comparison, or the swap.\<close>

fun casOp :: "nat \<Rightarrow> casThread \<Rightarrow> nat \<times> casThread" where
  "casOp v (AtLoad b) = (if b \<le> v then (v, Returned b) else (v, AtCAS b v))"
| "casOp v (AtCAS b cur) = (if v = cur then (b, Returned b) else (v, AtLoad b))"
| "casOp v (Returned b) = (v, Returned b)"

inductive casReach :: "nat \<Rightarrow> nat list \<Rightarrow> nat \<times> casThread list \<Rightarrow> bool" for v0 bs where
  init: "casReach v0 bs (v0, map AtLoad bs)"
| step: "casReach v0 bs (v, ts) \<Longrightarrow> i < length ts \<Longrightarrow> casOp v (ts ! i) = (v', t') \<Longrightarrow>
    casReach v0 bs (v', ts[i := t'])"

fun arg :: "casThread \<Rightarrow> nat" where
  "arg (AtLoad b) = b" | "arg (AtCAS b cur) = b" | "arg (Returned b) = b"

fun returned :: "casThread \<Rightarrow> bool" where
  "returned (Returned b) = True" | "returned _ = False"

subsection \<open>Endpoint\<close>

text \<open>The choice between the HTML page and the JSON document.\<close>

datatype metricsReply = ServeHTML | ServeJSON

definition ServeHTTP_choice :: "string \<Rightarrow> metricsReply" where
  "ServeHTTP_choice accept =
     (let acceptLower = toLower accept in
      if containsStr acceptLower ''text/html'' \<and> \<not> containsStr acceptLower ''application/json''
      then ServeHTML else ServeJSON)"

definition GetSnapshot :: "HostMetrics \<Rightarrow> HostMetrics" where
  "GetSnapshot m = m\<lparr>lastProcessingTimeBits := lastProcessingTimeBits m\<rparr>"

subsection \<open>Invariant of the interleaved maximum\<close>

lemma casOp_facts:
  assumes "casOp v t = (v', t')" and "case t of AtCAS b cur \<Rightarrow> cur < b | _ \<Rightarrow> True"
  shows "arg t' = arg t" "v \<le> v'" "v' = v \<or> v' = arg t" "returned t' \<Longrightarrow> arg t' \<le> v' \<or> returned t"
    "case t' of AtCAS b cur \<Rightarrow> cur < b | _ \<Rightarrow> True"
  using assms by (cases t; auto split: if_splits)+

definition casInv :: "nat \<Rightarrow> nat list \<Rightarrow> nat \<times> casThread list \<Rightarrow> bool" where
  "casInv v0 bs s \<longleftrightarrow>
     (case s of (v, ts) \<Rightarrow> map arg ts = bs \<and> v0 \<le> v \<and> v \<in> insert v0 (set bs)
        \<and> (\<forall>t \<in> set ts. (returned t \<longrightarrow> arg t \<le> v) \<and> (case t of AtCAS b cur \<Rightarrow> cur < b | _ \<Rightarrow> True)))"

lemma casReach_inv: "casReach v0 bs s \<Longrightarrow> casInv v0 bs s"
proof (induction rule: casReach.induct)
  case init
  then show ?case by (auto simp: casInv_def comp_def)
next
  case (step v ts i v' t')
  from step.IH step.hyps(2) have pre: "case ts ! i of AtCAS b cur \<Rightarrow> cur < b | _ \<Rightarrow> True"
    "returned (ts ! i) \<Longrightarrow> arg (ts ! i) \<le> v" "v0 \<le> v" "v \<in> insert v0 (set bs)" "map arg ts = bs"
    by (auto simp: casInv_def)
  note f = casOp_facts [OF step.hyps(3) pre(1)]
  have "map arg (ts[i := t']) = bs"
    using f(1) pre(5) step.hyps(2) by (metis list_update_id map_update nth_map)
  moreover have "v' \<in> insert v0 (set bs)"
    using f(3) pre(4,5) step.hyps(2) by (metis insertCI list.set_map nth_mem image_eqI)
  moreover have "(returned t \<longrightarrow> arg t \<le> v') \<and> (case t of AtCAS b cur \<Rightarrow> cur < b | _ \<Rightarrow> True)"
    if "t \<in> set (ts[i := t'])" for t
  proof (cases "t = t'")
    case True
    with f pre(2) show ?thesis by fastforce
  next
    case False
    with that have "t \<in> set ts" by (metis insertE set_update_subset_insert subsetD)
    with step.IH f(2) show ?thesis by (fastforce simp: casInv_def)
  qed
  ultimately show ?case using f(2) pre(3) by (auto simp: casInv_def)
qed

subsection \<open>Properties\<close>

text \<open>
  C8. However the goroutines that call \<open>UpdateMostRecentBlock\<close> interleave, once all of
  them have returned the stored block is the maximum of the initial value and all the block
  numbers passed in.
\<close>

theorem most_recent_block_max:
  assumes "casReach v0 bs (v, ts)" "list_all returned ts"
  shows "v = Max (insert v0 (set bs))"
proof -
  from casReach_inv [OF assms(1)] have i: "map arg ts = bs" "v0 \<le> v" "v \<in> insert v0 (set bs)"
    "\<forall>t \<in> set ts. returned t \<longrightarrow> arg t \<le> v" by (auto simp: casInv_def)
  with assms(2) have "\<forall>b \<in> set bs. b \<le> v" by (auto simp: list_all_iff)
  with i show ?thesis by (auto intro: Max_eqI [symmetric])
qed

theorem most_recent_block_max_witness:
  "casReach 3 [7, 5] (7, [Returned 7, Returned 5]) \<and> (7::nat) = Max (insert 3 (set [7, 5]))"
proof -
  have "casReach 3 [7, 5] (3, [AtLoad 7, AtLoad 5])" using casReach.init [of 3 "[7, 5]"] by simp
  from casReach.step [OF this, of 1] have "casReach 3 [7, 5] (3, [AtLoad 7, AtCAS 5 3])" by simp
  from casReach.step [OF this, of 0] have "casReach 3 [7, 5] (3, [AtCAS 7 3, AtCAS 5 3])" by simp
  from casReach.step [OF this, of 0] have "casReach 3 [7, 5] (7, [Returned 7, AtCAS 5 3])" by simp
  from casReach.step [OF this, of 1] have "casReach 3 [7, 5] (7, [Returned 7, AtLoad 5])" by simp
  from casReach.step [OF this, of 1] have r: "casReach 3 [7, 5] (7, [Returned 7, Returned 5])" by simp
  with most_recent_block_max [OF r] show ?thesis by simp
qed

end
