(* ===== verification/Block_Signature.thy ===== *)
theory Block_Signature
  imports Host_Metrics
begin

text \<open>
  \<open>pkg/attestation/blockSignatureVerifier.go\<close> and \<open>signatureVerifier.go\<close>: the bounded
  cache of block signatures, the verification of a block signature and of its CID list, the
  per-block CID collector and the per-document verifier. The cryptography, the CID parser and
  DefraDB's Merkle root are third-party code: they are the fields of the record \<open>crypto\<close>.
  A nil pointer is \<open>None\<close>; an \<open>error\<close> result is an option, \<open>None\<close> for success.
\<close>

record BlockSignature =
  BlockNumber :: int
  BlockHash :: string
  MerkleRoot :: string
  CIDCount :: int
  CIDs :: "string list"
  SignatureType :: string
  SignatureIdentity :: string
  SignatureValue :: string
  CreatedAt :: string

record BlockSignatureCache =
  signatures :: "(int \<times> BlockSignature) list"
  maxSize :: int

definition NewBlockSignatureCache :: "int \<Rightarrow> BlockSignatureCache" where
  "NewBlockSignatureCache n = \<lparr>signatures = [], maxSize = (if n \<le> 0 then 10000 else n)\<rparr>"

text \<open>The loop that looks for the lowest block number, with \<open>-1\<close> as "none yet".\<close>

fun minBlockLoop :: "int list \<Rightarrow> int \<Rightarrow> int" where
  "minBlockLoop [] minBlock = minBlock"
| "minBlockLoop (b # bs) minBlock =
     minBlockLoop bs (if minBlock = -1 \<or> b < minBlock then b else minBlock)"

definition cacheAdd :: "BlockSignature option \<Rightarrow> BlockSignatureCache \<Rightarrow> BlockSignatureCache" where
  "cacheAdd s c =
     (case s of None \<Rightarrow> c
      | Some sig \<Rightarrow>
          let sigs = AList.update (BlockNumber sig) sig (signatures c) in
          if int (length sigs) > maxSize c then
            let minBlock = minBlockLoop (map fst sigs) (-1) in
            c\<lparr>signatures := (if minBlock \<ge> 0 then AList.delete minBlock sigs else sigs)\<rparr>
          else c\<lparr>signatures := sigs\<rparr>)"

definition cacheGet :: "int \<Rightarrow> BlockSignatureCache \<Rightarrow> BlockSignature option" where
  "cacheGet blockNumber c = map_of (signatures c) blockNumber"

datatype keyType = KeyTypeSecp256k1 | KeyTypeEd25519

record ('pk, 'cid) crypto =
  PublicKeyFromString :: "keyType \<Rightarrow> string \<Rightarrow> 'pk option"
  pkVerify :: "'pk \<Rightarrow> byte list \<Rightarrow> byte list \<Rightarrow> bool option"
  cidDecode :: "string \<Rightarrow> 'cid option"
  ComputeMerkleRoot :: "'cid list \<Rightarrow> byte list"

datatype sig_error =
    ErrBlockSignatureNil
  | DecodeMerkleRoot
  | DecodeSignatureValue
  | ErrUnsupportedSignatureType string
  | ParsePublicKey
  | VerificationError
  | ErrBlockSigVerifyFailed int
  | ErrComputeMerkleRoot
  | ErrEmptyIdentityOrCID
  | ErrInvalidSignatureType
  | ErrDefraDBUnavailable
  | SignatureVerificationFailed

definition signatureKeyType :: "string \<Rightarrow> keyType option" where
  "signatureKeyType t =
     (if t = ''ES256K'' \<or> t = ''ecdsa-256k'' then Some KeyTypeSecp256k1
      else if t = ''Ed25519'' \<or> t = ''ed25519'' then Some KeyTypeEd25519 else None)"

definition VerifyBlockSignature :: "('pk, 'cid) crypto \<Rightarrow> BlockSignature option \<Rightarrow> sig_error option" where
  "VerifyBlockSignature K s =
     (case s of None \<Rightarrow> Some ErrBlockSignatureNil
      | Some sig \<Rightarrow>
      (case hexDecode (MerkleRoot sig) of None \<Rightarrow> Some DecodeMerkleRoot
       | Some merkleRoot \<Rightarrow>
      (case hexDecode (SignatureValue sig) of None \<Rightarrow> Some DecodeSignatureValue
       | Some sigValue \<Rightarrow>
      (case signatureKeyType (SignatureType sig) of
         None \<Rightarrow> Some (ErrUnsupportedSignatureType (SignatureType sig))
       | Some kt \<Rightarrow>
      (case PublicKeyFromString K kt (SignatureIdentity sig) of None \<Rightarrow> Some ParsePublicKey
       | Some pubKey \<Rightarrow>
      (case pkVerify K pubKey merkleRoot sigValue of None \<Rightarrow> Some VerificationError
       | Some valid \<Rightarrow> if \<not> valid then Some (ErrBlockSigVerifyFailed (BlockNumber sig)) else None))))))"

definition ComputeMerkleRootFromStrings :: "('pk, 'cid) crypto \<Rightarrow> string list \<Rightarrow> byte list option" where
  "ComputeMerkleRootFromStrings K cidStrings =
     (if cidStrings = [] then None
      else
        let parsedCids = List.map_filter (cidDecode K) cidStrings in
        if parsedCids = [] then None else Some (ComputeMerkleRoot K parsedCids))"

fun bytesEqual :: "byte list \<Rightarrow> byte list \<Rightarrow> bool" where
  "bytesEqual [] [] = True"
| "bytesEqual (a # as) (b # bs) = (if a \<noteq> b then False else bytesEqual as bs)"
| "bytesEqual _ _ = False"

definition VerifyCIDsAgainstBlockSignature ::
  "('pk, 'cid) crypto \<Rightarrow> string list \<Rightarrow> BlockSignature option \<Rightarrow> sig_error + bool" where
  "VerifyCIDsAgainstBlockSignature K cids s =
     (case s of None \<Rightarrow> Inl ErrBlockSignatureNil
      | Some sig \<Rightarrow>
      (case ComputeMerkleRootFromStrings K cids of None \<Rightarrow> Inl ErrComputeMerkleRoot
       | Some computedRoot \<Rightarrow>
      (case hexDecode (MerkleRoot sig) of None \<Rightarrow> Inl DecodeMerkleRoot
       | Some expectedRoot \<Rightarrow>
           if length computedRoot \<noteq> length expectedRoot then Inr False
           else Inr (bytesEqual computedRoot expectedRoot))))"

definition VerifyCIDListAgainstMerkleRoot ::
  "('pk, 'cid) crypto \<Rightarrow> BlockSignature option \<Rightarrow> sig_error + bool" where
  "VerifyCIDListAgainstMerkleRoot K s =
     (case s of None \<Rightarrow> Inr False
      | Some sig \<Rightarrow> if CIDs sig = [] then Inr False
                    else VerifyCIDsAgainstBlockSignature K (CIDs sig) (Some sig))"

subsection \<open>CID collector\<close>

record BlockCIDCollector =
  blockCIDs :: "int \<rightharpoonup> string list"
  blockDocs :: "int \<rightharpoonup> string list"
  docTypes :: "string \<rightharpoonup> string"

definition NewBlockCIDCollector :: BlockCIDCollector where
  "NewBlockCIDCollector = \<lparr>blockCIDs = Map.empty, blockDocs = Map.empty, docTypes = Map.empty\<rparr>"

definition atOrNil :: "('k \<rightharpoonup> 'a list) \<Rightarrow> 'k \<Rightarrow> 'a list" where
  "atOrNil m k = (case m k of None \<Rightarrow> [] | Some l \<Rightarrow> l)"

definition AddDocumentCID :: "int \<Rightarrow> string \<Rightarrow> string \<Rightarrow> string \<Rightarrow> BlockCIDCollector \<Rightarrow> BlockCIDCollector" where
  "AddDocumentCID blockNumber docID docType cid c =
     c\<lparr>blockCIDs := (blockCIDs c)(blockNumber \<mapsto> atOrNil (blockCIDs c) blockNumber @ [cid]),
       blockDocs := (blockDocs c)(blockNumber \<mapsto> atOrNil (blockDocs c) blockNumber @ [docID]),
       docTypes := (docTypes c)(docID \<mapsto> docType)\<rparr>"

definition GetBlockCIDs :: "int \<Rightarrow> BlockCIDCollector \<Rightarrow> string list" where
  "GetBlockCIDs blockNumber c = atOrNil (blockCIDs c) blockNumber"

definition ClearBlock :: "int \<Rightarrow> BlockCIDCollector \<Rightarrow> BlockCIDCollector" where
  "ClearBlock blockNumber c =
     c\<lparr>docTypes := (docTypes c) |` (- set (atOrNil (blockDocs c) blockNumber)),
       blockCIDs := (blockCIDs c)(blockNumber := None),
       blockDocs := (blockDocs c)(blockNumber := None)\<rparr>"

subsection \<open>Per-document verifier\<close>

record Signature =
  sigType :: string
  sigIdentity :: string
  sigValueField :: string

text \<open>
  \<open>DefraSignatureVerifier.Verify\<close>: \<open>hasDB\<close> tells whether the node is there,
  \<open>dbVerify\<close> is \<open>DB.VerifySignature\<close>, and the metrics, when set, are updated.
\<close>

definition DefraVerify ::
  "('pk, 'cid) crypto \<Rightarrow> bool \<Rightarrow> (string \<Rightarrow> 'pk \<Rightarrow> bool) \<Rightarrow> string \<Rightarrow> Signature
     \<Rightarrow> HostMetrics option \<Rightarrow> sig_error option \<times> HostMetrics option" where
  "DefraVerify K hasDB dbVerify cid s mtr =
     (if sigIdentity s = [] \<or> cid = [] then (Some ErrEmptyIdentityOrCID, mtr)
      else if \<not> equalFold (sigType s) ''ES256K'' then (Some ErrInvalidSignatureType, mtr)
      else if \<not> hasDB then (Some ErrDefraDBUnavailable, mtr)
      else (case PublicKeyFromString K KeyTypeSecp256k1 (sigIdentity s) of
          None \<Rightarrow> (Some ParsePublicKey, mtr)
        | Some pubKey \<Rightarrow>
            if \<not> dbVerify cid pubKey
            then (Some SignatureVerificationFailed, map_option IncrementSignatureFailures mtr)
            else (None, map_option IncrementSignatureVerifications mtr)))"

subsection \<open>Cache lemmas\<close>

lemma minBlockLoop_nonneg:
  "\<forall>b \<in> set bs. 0 \<le> b \<Longrightarrow> 0 \<le> m \<Longrightarrow> minBlockLoop bs m = Min (insert m (set bs))"
proof (induction bs arbitrary: m)
  case Nil
  then show ?case by simp
next
  case (Cons b bs)
  have "minBlockLoop bs (min b m) = Min (insert (min b m) (set bs))"
    using Cons by (intro Cons.IH) auto
  moreover have "Min (insert (min b m) (set bs)) = Min (insert m (set (b # bs)))"
    by (cases "set bs = {}") (auto simp: min.assoc min.left_commute)
  moreover have "(if m = -1 \<or> b < m then b else m) = min b m" using Cons.prems by auto
  ultimately show ?case by simp
qed

lemma minBlockLoop_Min:
  "\<forall>b \<in> set bs. 0 \<le> b \<Longrightarrow> bs \<noteq> [] \<Longrightarrow> minBlockLoop bs (-1) = Min (set bs)"
  by (cases bs) (auto simp: minBlockLoop_nonneg)

text \<open>
  Abstract content of the cache after a sequence of additions: the latest signature of each of
  the \<open>n\<close> highest block numbers seen.
\<close>

definition latest :: "BlockSignature list \<Rightarrow> int \<Rightarrow> BlockSignature option" where
  "latest sigs b = map_of (rev (map (\<lambda>s. (BlockNumber s, s)) sigs)) b"

definition numbers :: "BlockSignature list \<Rightarrow> int set" where
  "numbers sigs = BlockNumber ` set sigs"

definition keptBlocks :: "nat \<Rightarrow> int set \<Rightarrow> int set" where
  "keptBlocks n B = {b \<in> B. card {x \<in> B. b < x} < n}"

definition top_blocks :: "nat \<Rightarrow> int set \<Rightarrow> int set \<Rightarrow> bool" where
  "top_blocks n B K \<longleftrightarrow> finite B \<and> K \<subseteq> B \<and> card K \<le> n \<and> (B - K \<noteq> {} \<longrightarrow> card K = n)
     \<and> (\<forall>x \<in> B - K. \<forall>k \<in> K. x < k)"

definition cache_spec :: "nat \<Rightarrow> BlockSignature list \<Rightarrow> BlockSignatureCache \<Rightarrow> bool" where
  "cache_spec n sigs c \<longleftrightarrow>
     maxSize c = int n \<and> distinct (map fst (signatures c))
     \<and> top_blocks n (numbers sigs) (fst ` set (signatures c))
     \<and> (\<forall>b \<in> fst ` set (signatures c). map_of (signatures c) b = latest sigs b)"

lemma top_blocks_kept:
  assumes "top_blocks n B K" shows "K = keptBlocks n B"
proof -
  have fin: "finite B" "finite K" "K \<subseteq> B" using assms finite_subset by (auto simp: top_blocks_def)
  have "b \<in> K \<longleftrightarrow> card {x \<in> B. b < x} < n" if b: "b \<in> B" for b
  proof
    assume k: "b \<in> K"
    have "\<forall>x \<in> B - K. \<forall>k \<in> K. x < k" using assms by (simp add: top_blocks_def)
    with k have "x \<in> K - {b}" if "x \<in> B" "b < x" for x using that by (metis DiffI less_asym singletonD order_less_irrefl)
    then have "{x \<in> B. b < x} \<subseteq> K - {b}" by blast
    then have "card {x \<in> B. b < x} \<le> card (K - {b})" using fin by (intro card_mono) auto
    also have "\<dots> < card K" using k fin by (intro psubset_card_mono) auto
    finally show "card {x \<in> B. b < x} < n" using assms by (simp add: top_blocks_def)
  next
    assume c: "card {x \<in> B. b < x} < n"
    show "b \<in> K"
    proof (rule ccontr)
      assume "b \<notin> K"
      with assms b have "K \<subseteq> {x \<in> B. b < x}" "card K = n" by (auto simp: top_blocks_def)
      with c fin card_mono [of "{x \<in> B. b < x}" K] show False by auto
    qed
  qed
  with fin show ?thesis by (auto simp: keptBlocks_def)
qed

lemma top_blocks_insert:
  assumes "top_blocks n B K" "card (insert b K) \<le> n"
  shows "top_blocks n (insert b B) (insert b K)"
proof (cases "b \<in> K")
  case True
  then have "insert b K = K" "insert b B = B" using assms(1) by (auto simp: top_blocks_def)
  with assms(1) show ?thesis by simp
next
  case False
  have "finite K" using assms(1) finite_subset by (auto simp: top_blocks_def)
  with False assms have "B - K = {}" by (auto simp: top_blocks_def)
  with assms show ?thesis by (auto simp: top_blocks_def)
qed

lemma top_blocks_evict:
  assumes "top_blocks n B K" "n < card (insert b K)"
  shows "top_blocks n (insert b B) (insert b K - {Min (insert b K)})"
proof -
  let ?m = "Min (insert b K)"
  have fin: "finite K" using assms(1) finite_subset by (auto simp: top_blocks_def)
  have le: "?m \<le> k" if "k \<in> insert b K" for k using fin that by (simp only: Min_le finite_insert)
  have m: "?m \<in> insert b K" using fin by (intro Min_in) auto
  have nb: "b \<notin> K" using assms by (auto simp: top_blocks_def insert_absorb)
  then have c: "card (insert b K - {?m}) = n" using assms fin m by (auto simp: top_blocks_def)
  have "x < k" if x: "x \<in> insert b B - (insert b K - {?m})" and k: "k \<in> insert b K - {?m}" for x k
  proof (cases "x = ?m")
    case True
    with le [of k] k show ?thesis by auto
  next
    case False
    with x have o: "\<forall>k \<in> K. x < k" using assms(1) by (auto simp: top_blocks_def)
    show ?thesis
    proof (cases "k = b")
      case True
      with k m have "?m \<in> K" "?m < b" using le [of b] by auto
      with o True show ?thesis by force
    qed (use o k in auto)
  qed
  with c assms(1) show ?thesis by (auto simp: top_blocks_def)
qed

lemma finite_numbers [simp]: "finite (numbers sigs)" by (simp add: numbers_def)

lemma numbers_snoc [simp]: "numbers (sigs @ [s]) = insert (BlockNumber s) (numbers sigs)"
  by (auto simp: numbers_def)

lemma latest_snoc [simp]:
  "latest (sigs @ [s]) b = (if b = BlockNumber s then Some s else latest sigs b)"
  by (simp add: latest_def)

lemma keys_update: "fst ` set (AList.update k v xs) = insert k (fst ` set xs)"
  by (simp add: dom_update)

lemma cacheAdd_spec:
  assumes spec: "cache_spec n sigs c" and nn: "\<forall>s \<in> set (sigs @ [sig]). 0 \<le> BlockNumber s"
  shows "cache_spec n (sigs @ [sig]) (cacheAdd (Some sig) c)"
proof -
  let ?K = "fst ` set (signatures c)" and ?b = "BlockNumber sig"
  let ?u = "AList.update ?b sig (signatures c)"
  have d: "distinct (map fst ?u)" using spec by (simp add: cache_spec_def distinct_update)
  have ks: "fst ` set ?u = insert ?b ?K" by (rule keys_update)
  have len: "length ?u = card (insert ?b ?K)" using d by (metis ks length_map distinct_card list.set_map)
  have val: "map_of ?u b = latest (sigs @ [sig]) b" if "b \<in> insert ?b ?K" for b
    using that spec by (auto simp: update_conv' cache_spec_def)
  show ?thesis
  proof (cases "int (length ?u) > maxSize c")
    case True
    then have big: "n < card (insert ?b ?K)" using spec len by (simp add: cache_spec_def)
    have "\<forall>b \<in> set (map fst ?u). 0 \<le> b"
      using spec nn by (auto simp: ks cache_spec_def top_blocks_def numbers_def)
    moreover have "map fst ?u \<noteq> []" using ks by auto
    ultimately have m: "minBlockLoop (map fst ?u) (-1) = Min (insert ?b ?K)" "0 \<le> Min (insert ?b ?K)"
      using minBlockLoop_Min [of "map fst ?u"] Min_in [of "insert ?b ?K"] by (auto simp: ks)
    then have "cacheAdd (Some sig) c = c\<lparr>signatures := AList.delete (Min (insert ?b ?K)) ?u\<rparr>"
      using True by (simp add: cacheAdd_def)
    moreover have "fst ` set (AList.delete (Min (insert ?b ?K)) ?u) = insert ?b ?K - {Min (insert ?b ?K)}"
      by (metis delete_keys ks keys_update list.set_map image_set delete_conv' set_removeAll)
    ultimately show ?thesis
      using spec d val top_blocks_evict [OF _ big]
      by (auto simp: cache_spec_def distinct_delete delete_conv')
  next
    case False
    then have "card (insert ?b ?K) \<le> n" using spec len by (simp add: cache_spec_def)
    with False spec d val top_blocks_insert ks show ?thesis
      by (simp add: cache_spec_def cacheAdd_def)
  qed
qed

lemma cacheAdds_spec:
  assumes "\<forall>s \<in> set sigs. 0 \<le> BlockNumber s" "0 < n"
  shows "cache_spec n sigs (fold (\<lambda>s. cacheAdd (Some s)) sigs (NewBlockSignatureCache (int n)))"
  using assms(1)
proof (induction sigs rule: rev_induct)
  case Nil
  then show ?case using assms(2)
    by (simp add: cache_spec_def NewBlockSignatureCache_def top_blocks_def numbers_def)
next
  case (snoc s sigs)
  then show ?case by (simp add: cacheAdd_spec)
qed

lemma bytesEqual_iff: "bytesEqual xs ys \<longleftrightarrow> xs = ys"
  by (induction xs ys rule: bytesEqual.induct) auto

lemma map_filter_insert_None:
  "f x = None \<Longrightarrow> List.map_filter f (xs @ x # ys) = List.map_filter f (xs @ ys)"
  by (simp add: List.map_filter_def)

text \<open>Once a block number below \<open>-1\<close> is in the cache, additions no longer evict.\<close>

lemma minBlockLoop_le: "m < -1 \<Longrightarrow> minBlockLoop bs m \<le> m"
  by (induction bs arbitrary: m) (auto, (meson dual_order.trans less_imp_le order_less_trans)+)

lemma minBlockLoop_negative: "b \<in> set bs \<Longrightarrow> b < -1 \<Longrightarrow> minBlockLoop bs m < -1"
proof (induction bs arbitrary: m)
  case Nil
  then show ?case by simp
next
  case (Cons x bs)
  show ?case
  proof (cases "b = x")
    case True
    then have "(if m = -1 \<or> x < m then x else m) < -1" using Cons.prems by auto
    from minBlockLoop_le [OF this, of bs] this show ?thesis by simp
  next
    case False
    with Cons show ?thesis by simp
  qed
qed

lemma negative_block_disables_eviction:
  assumes "b \<in> fst ` set (signatures c)" "b < -1"
  shows "signatures (cacheAdd (Some sig) c) = AList.update (BlockNumber sig) sig (signatures c)"
proof -
  have "b \<in> set (map fst (AList.update (BlockNumber sig) sig (signatures c)))"
    using assms(1) keys_update [of "BlockNumber sig" sig "signatures c"] by simp
  from minBlockLoop_negative [OF this assms(2), of "-1"] show ?thesis
    by (simp add: cacheAdd_def Let_def)
qed

subsection \<open>A toy cryptosystem used in witnesses\<close>

text \<open>Keys are their strings, a signature is the root followed by the key's length.\<close>

definition demoCrypto :: "(string, string) crypto" where
  "demoCrypto =
     \<lparr>PublicKeyFromString = (\<lambda>kt s. if s = [] then None else Some s),
      pkVerify = (\<lambda>pk msg sg. Some (sg = msg @ [word_of_nat (length pk)])),
      cidDecode = (\<lambda>s. if s = [] then None else Some s),
      ComputeMerkleRoot = (\<lambda>cs. [word_of_nat (length cs)])\<rparr>"

definition demoSig :: BlockSignature where
  "demoSig = \<lparr>BlockNumber = 12, BlockHash = ''0xab'', MerkleRoot = ''01'', CIDCount = 1, CIDs = [''c1''],
     SignatureType = ''ES256K'', SignatureIdentity = ''k'', SignatureValue = ''0101'', CreatedAt = []\<rparr>"

subsection \<open>Properties\<close>

text \<open>
  C9. A cache of size \<open>n\<close> fed any sequence of signatures with non-negative block numbers
  holds, whatever the order of arrival and of map iteration, the most recent signature of each
  of the \<open>n\<close> highest block numbers seen, and nothing else.
\<close>

theorem cache_keeps_highest:
  assumes "\<forall>s \<in> set sigs. 0 \<le> BlockNumber s" "0 < n"
  shows "let c = fold (\<lambda>s. cacheAdd (Some s)) sigs (NewBlockSignatureCache (int n)) in
    length (signatures c) \<le> n
    \<and> cacheGet b c = (if b \<in> numbers sigs \<and> card {x \<in> numbers sigs. b < x} < n then latest sigs b else None)"
proof -
  let ?c = "fold (\<lambda>s. cacheAdd (Some s)) sigs (NewBlockSignatureCache (int n))"
  let ?K = "fst ` set (signatures ?c)"
  from cacheAdds_spec [OF assms] have sp: "distinct (map fst (signatures ?c))"
    "top_blocks n (numbers sigs) ?K" "\<forall>b \<in> ?K. map_of (signatures ?c) b = latest sigs b"
    by (simp_all add: cache_spec_def)
  have "length (signatures ?c) = card ?K" using sp(1) by (metis distinct_card length_map list.set_map)
  then have "length (signatures ?c) \<le> n" using sp(2) by (simp add: top_blocks_def)
  moreover have "map_of (signatures ?c) b = None" if "b \<notin> ?K" using that by (simp add: map_of_eq_None_iff)
  ultimately show ?thesis
    using sp(3) top_blocks_kept [OF sp(2)] by (auto simp: cacheGet_def keptBlocks_def Let_def)
qed

theorem cache_keeps_highest_witness:
  "cacheGet 12 (fold (\<lambda>s. cacheAdd (Some s)) [demoSig, demoSig\<lparr>BlockNumber := 9\<rparr>]
      (NewBlockSignatureCache (int 1))) = Some demoSig"
proof -
  have "{x \<in> numbers [demoSig, demoSig\<lparr>BlockNumber := 9\<rparr>]. 12 < x} = {}"
    by (auto simp: numbers_def demoSig_def)
  with cache_keeps_highest [of "[demoSig, demoSig\<lparr>BlockNumber := 9\<rparr>]" 1 12] show ?thesis
    by (simp add: Let_def) (simp add: demoSig_def numbers_def latest_def)
qed

text \<open>
  A block signature is accepted exactly when the signature is there, its root and value
  are hexadecimal, its type is one of the four accepted names, its identity parses as a key of
  that type and that key verifies the value over the decoded root.
\<close>

theorem block_signature_accepted_iff:
  "VerifyBlockSignature K s = None \<longleftrightarrow>
     (\<exists>sig root val kt pk. s = Some sig \<and> hexDecode (MerkleRoot sig) = Some root
        \<and> hexDecode (SignatureValue sig) = Some val
        \<and> (kt = KeyTypeSecp256k1 \<and> SignatureType sig \<in> {''ES256K'', ''ecdsa-256k''}
           \<or> kt = KeyTypeEd25519 \<and> SignatureType sig \<in> {''Ed25519'', ''ed25519''})
        \<and> PublicKeyFromString K kt (SignatureIdentity sig) = Some pk
        \<and> pkVerify K pk root val = Some True)"
  by (auto simp: VerifyBlockSignature_def signatureKeyType_def split: option.splits if_splits)

text \<open>
  A CID list is reported to match a signature exactly when at least one of its strings
  parses as a CID and the Merkle root of the strings that do parse is the decoded root of the
  signature. In particular a string that does not parse may be inserted anywhere in the list
  without changing the verdict.
\<close>

theorem cid_list_matches_iff:
  "(VerifyCIDsAgainstBlockSignature K cids (Some sig) = Inr True \<longleftrightarrow>
      List.map_filter (cidDecode K) cids \<noteq> []
      \<and> hexDecode (MerkleRoot sig) = Some (ComputeMerkleRoot K (List.map_filter (cidDecode K) cids)))
   \<and> (cidDecode K junk = None \<and> xs @ ys \<noteq> [] \<longrightarrow>
       VerifyCIDsAgainstBlockSignature K (xs @ junk # ys) (Some sig)
         = VerifyCIDsAgainstBlockSignature K (xs @ ys) (Some sig))"
proof (intro conjI impI)
  show "VerifyCIDsAgainstBlockSignature K cids (Some sig) = Inr True \<longleftrightarrow>
      List.map_filter (cidDecode K) cids \<noteq> []
      \<and> hexDecode (MerkleRoot sig) = Some (ComputeMerkleRoot K (List.map_filter (cidDecode K) cids))"
    by (auto simp: VerifyCIDsAgainstBlockSignature_def ComputeMerkleRootFromStrings_def Let_def
        bytesEqual_iff List.map_filter_def split: option.splits if_splits)
next
  assume "cidDecode K junk = None \<and> xs @ ys \<noteq> []"
  then show "VerifyCIDsAgainstBlockSignature K (xs @ junk # ys) (Some sig)
         = VerifyCIDsAgainstBlockSignature K (xs @ ys) (Some sig)"
    using map_filter_insert_None [of "cidDecode K" junk xs ys]
    by (simp add: VerifyCIDsAgainstBlockSignature_def ComputeMerkleRootFromStrings_def Let_def)
qed

theorem cid_list_matches_iff_witness:
  "VerifyCIDsAgainstBlockSignature demoCrypto ([''c1''] @ [] # []) (Some demoSig)
     = VerifyCIDsAgainstBlockSignature demoCrypto ([''c1''] @ []) (Some demoSig)"
  using cid_list_matches_iff [of demoCrypto "[''c1'']" demoSig "[]" "[''c1'']" "[]"]
  by (simp add: demoCrypto_def)

end
