(* ===== verification/Defra_Query.thy ===== *)
theory Defra_Query
  imports Host_Prelude
begin

text \<open>
  \<open>pkg/defradb/query.go\<close> and \<open>writer.go\<close>: running a GraphQL request against the embedded
  node and reading the first array of the answer. \<open>ExecRequest\<close> is an argument. The JSON
  round trip into the caller's type is the argument \<open>unmarshal\<close> (\<open>None\<close> when it fails).
  Go's iteration order over the answer's map is the order of the association list.
\<close>

record gqlResult =
  gqlErrors :: "string list"
  gqlData :: gany

definition getField :: "gfields \<Rightarrow> string \<Rightarrow> gany" where
  "getField m k = (case map_of m k of None \<Rightarrow> ANil | Some v \<Rightarrow> v)"

abbreviation NL :: string where "NL \<equiv> [CHR 0x0A]"
abbreviation TAB :: string where "TAB \<equiv> [CHR 0x09]"

datatype query_error =
    ErrDefraNodeNil
  | ErrQueryEmpty
  | ErrGraphQLErrors
  | ErrUnmarshal
  | ErrNotMutation
  | ErrPostNoData
  | ErrPostingMutation
  | ErrUnexpectedDataFormat
  | ErrNoArrayData
  | ErrMarshalData

definition gqlQuery :: "(string \<Rightarrow> gqlResult) \<Rightarrow> string \<Rightarrow> query_error + gany" where
  "gqlQuery exec q =
     (if q = [] then Inl ErrQueryEmpty
      else if gqlErrors (exec q) \<noteq> [] then Inl ErrGraphQLErrors
      else Inr (gqlData (exec q)))"

text \<open>The first array of the answer, for a slice result; for a single result it must not be empty.\<close>

fun firstArray :: "gfields \<Rightarrow> gany option" where
  "firstArray [] = None"
| "firstArray ((_, AAnys xs) # m) = Some (AAnys xs)"
| "firstArray ((_, AMaps xs) # m) = Some (AMaps xs)"
| "firstArray (_ # m) = firstArray m"

fun firstElement :: "gfields \<Rightarrow> gany option" where
  "firstElement [] = None"
| "firstElement ((_, AAnys (x # xs)) # m) = Some x"
| "firstElement ((_, AMaps (x # xs)) # m) = Some (AMap x)"
| "firstElement (_ # m) = firstElement m"

definition unmarshalR :: "(gany \<Rightarrow> 'r option) \<Rightarrow> gany \<Rightarrow> query_error + 'r" where
  "unmarshalR unmarshal d = (case unmarshal d of None \<Rightarrow> Inl ErrUnmarshal | Some r \<Rightarrow> Inr r)"

text \<open>The helpers that decode the whole answer; they differ in the error of a failed encoding.\<close>

definition queryAndUnmarshal ::
  "(string \<Rightarrow> gqlResult) \<Rightarrow> (gany \<Rightarrow> 'j option) \<Rightarrow> ('j \<Rightarrow> 'r option) \<Rightarrow> string \<Rightarrow> query_error + 'r" where
  "queryAndUnmarshal exec marshal decode q =
     (case gqlQuery exec q of Inl e \<Rightarrow> Inl e
      | Inr d \<Rightarrow>
          (case marshal d of None \<Rightarrow> Inl ErrUnexpectedDataFormat
           | Some j \<Rightarrow> (case decode j of None \<Rightarrow> Inl ErrUnmarshal | Some r \<Rightarrow> Inr r)))"

definition queryInto ::
  "(string \<Rightarrow> gqlResult) \<Rightarrow> (gany \<Rightarrow> 'j option) \<Rightarrow> ('j \<Rightarrow> 'r option) \<Rightarrow> string \<Rightarrow> query_error + 'r" where
  "queryInto exec marshal decode q =
     (case gqlQuery exec q of Inl e \<Rightarrow> Inl e
      | Inr d \<Rightarrow>
          (case marshal d of None \<Rightarrow> Inl ErrMarshalData
           | Some j \<Rightarrow> (case decode j of None \<Rightarrow> Inl ErrUnmarshal | Some r \<Rightarrow> Inr r)))"

definition getDataField :: "(string \<Rightarrow> gqlResult) \<Rightarrow> string \<Rightarrow> query_error + gfields" where
  "getDataField exec q =
     (case gqlQuery exec q of Inl e \<Rightarrow> Inl e
      | Inr d \<Rightarrow> (case d of AMap m \<Rightarrow> Inr m | _ \<Rightarrow> Inl ErrUnexpectedDataFormat))"

definition queryDataInto_slice ::
  "(string \<Rightarrow> gqlResult) \<Rightarrow> (gany \<Rightarrow> 'r option) \<Rightarrow> string \<Rightarrow> query_error + 'r" where
  "queryDataInto_slice exec unmarshal q =
     (case gqlQuery exec q of Inl e \<Rightarrow> Inl e
      | Inr d \<Rightarrow>
          (case d of
             AMap m \<Rightarrow> (case firstArray m of Some a \<Rightarrow> unmarshalR unmarshal a | None \<Rightarrow> unmarshalR unmarshal d)
           | _ \<Rightarrow> unmarshalR unmarshal d))"

definition queryDataInto_single ::
  "(string \<Rightarrow> gqlResult) \<Rightarrow> (gany \<Rightarrow> 'r option) \<Rightarrow> string \<Rightarrow> query_error + 'r" where
  "queryDataInto_single exec unmarshal q =
     (case gqlQuery exec q of Inl e \<Rightarrow> Inl e
      | Inr d \<Rightarrow>
          (case d of
             AMap m \<Rightarrow> (case firstElement m of Some a \<Rightarrow> unmarshalR unmarshal a | None \<Rightarrow> unmarshalR unmarshal d)
           | _ \<Rightarrow> unmarshalR unmarshal d))"

definition keywordStart :: "string \<Rightarrow> string \<Rightarrow> bool" where
  "keywordStart k s \<longleftrightarrow> hasPrefix s (k @ '' '') \<or> s = k"

definition wrapQueryIfNeeded :: "string \<Rightarrow> string" where
  "wrapQueryIfNeeded q =
     (let trimmed = trimSpace q; lowerTrimmed = toLower trimmed in
      if keywordStart ''query'' lowerTrimmed then q
      else if keywordStart ''mutation'' lowerTrimmed then q
      else if keywordStart ''subscription'' lowerTrimmed then q
      else if length trimmed \<ge> 2 \<and> hd trimmed = CHR ''{'' \<and> last trimmed = CHR ''}''
      then ''query { '' @ trimSpace (butlast (tl trimmed)) @ '' }''
      else ''query { '' @ trimSpace q @ '' }'')"

definition QuerySingle ::
  "bool \<Rightarrow> (string \<Rightarrow> gqlResult) \<Rightarrow> (gany \<Rightarrow> 'r option) \<Rightarrow> string \<Rightarrow> query_error + 'r" where
  "QuerySingle hasNode exec unmarshal q =
     (if \<not> hasNode then Inl ErrDefraNodeNil
      else queryDataInto_single exec unmarshal (wrapQueryIfNeeded q))"

definition QueryArray ::
  "bool \<Rightarrow> (string \<Rightarrow> gqlResult) \<Rightarrow> (gany \<Rightarrow> 'r option) \<Rightarrow> string \<Rightarrow> query_error + 'r" where
  "QueryArray hasNode exec unmarshal q =
     (if \<not> hasNode then Inl ErrDefraNodeNil
      else queryDataInto_slice exec unmarshal (wrapQueryIfNeeded q))"

definition PostMutation ::
  "(string \<Rightarrow> 'db \<Rightarrow> gqlResult \<times> 'db) \<Rightarrow> (gany \<Rightarrow> 'r option) \<Rightarrow> string \<Rightarrow> 'db
     \<Rightarrow> (query_error + 'r) \<times> 'db" where
  "PostMutation exec unmarshal q db =
     (if \<not> containsStr q ''mutation'' then (Inl ErrNotMutation, db)
      else (case exec q db of (r, db') \<Rightarrow>
        (if gqlData r = ANil then Inl ErrPostNoData
         else if gqlErrors r \<noteq> [] then Inl ErrPostingMutation
         else (case gqlData r of
             AMap m \<Rightarrow> (case firstElement m of Some a \<Rightarrow> unmarshalR unmarshal a | None \<Rightarrow> Inl ErrNoArrayData)
           | _ \<Rightarrow> Inl ErrUnexpectedDataFormat), db')))"

subsection \<open>Wrapping\<close>

lemma trimSpace_ends:
  assumes "s \<noteq> []" "\<not> isSpace (hd s)" "\<not> isSpace (last s)" shows "trimSpace s = s"
proof -
  have "dropWhile isSpace s = s" using assms by (cases s) auto
  moreover have "dropWhile isSpace (rev s) = rev s"
    using assms by (cases "rev s") (auto simp: last_rev [symmetric] hd_rev)
  ultimately show ?thesis by (simp add: trimSpace_def)
qed

lemma wrapped_trim: "trimSpace (''query { '' @ s @ '' }'') = ''query { '' @ s @ '' }''"
  by (rule trimSpace_ends) (simp_all add: isSpace_def)

lemma wrapped_keyword: "keywordStart ''query'' (toLower (''query { '' @ s @ '' }''))"
  by (simp add: keywordStart_def hasPrefix_def toLower_def lowerChar_def)

lemma wrapQueryIfNeeded_cases:
  "wrapQueryIfNeeded q = q \<and> (\<exists>k \<in> {''query'', ''mutation'', ''subscription''}. keywordStart k (toLower (trimSpace q)))
   \<or> (\<exists>s. wrapQueryIfNeeded q = ''query { '' @ s @ '' }'')"
  unfolding wrapQueryIfNeeded_def Let_def by auto

subsection \<open>Properties\<close>

text \<open>
  Every request that reaches the store starts with an operation keyword, and wrapping a
  query twice is the same as wrapping it once.
\<close>

theorem wrap_query_idempotent:
  "(\<exists>k \<in> {''query'', ''mutation'', ''subscription''}. keywordStart k (toLower (trimSpace (wrapQueryIfNeeded q))))
   \<and> wrapQueryIfNeeded (wrapQueryIfNeeded q) = wrapQueryIfNeeded q"
proof -
  consider "wrapQueryIfNeeded q = q"
      "\<exists>k \<in> {''query'', ''mutation'', ''subscription''}. keywordStart k (toLower (trimSpace q))"
    | s where "wrapQueryIfNeeded q = ''query { '' @ s @ '' }''"
    using wrapQueryIfNeeded_cases by blast
  then show ?thesis
  proof cases
    case 1
    then show ?thesis by (simp del: insert_iff)
  next
    case 2
    have k: "keywordStart ''query'' (toLower (trimSpace (wrapQueryIfNeeded q)))"
      unfolding 2 wrapped_trim by (rule wrapped_keyword)
    then have "wrapQueryIfNeeded (wrapQueryIfNeeded q) = wrapQueryIfNeeded q"
      by (simp add: wrapQueryIfNeeded_def [of "wrapQueryIfNeeded q"] Let_def)
    with k show ?thesis by blast
  qed
qed

text \<open>A document that writes the keyword directly before the brace is wrapped a second time.\<close>

lemma query_brace_double_wrapped: "wrapQueryIfNeeded ''query{ Block }'' = ''query { query{ Block } }''"
  by code_simp

end
