(* ===== verification/Attestation_Record.thy ===== *)
theory Attestation_Record
  imports Block_Signature Defra_Query
begin

text \<open>
  \<open>pkg/attestation/attestationRecordService.go\<close>: building attestation records from verified
  versions, merging them into the store, and the queries over them. The document store is
  third-party code: its operations are the fields of \<open>docstore\<close>, over abstract documents
  \<open>'doc\<close> and states \<open>'db\<close>.

  The verification goroutines of \<open>CreateAttestationRecord\<close> finish in an arbitrary order; the
  versions are passed in that order (\<open>runOrder\<close>), any permutation of the input.
  \<open>PostAttestationRecordsBatch\<close> changes documents through shared pointers, so the list it
  saves holds references that are resolved when it is saved.
\<close>

record AttestationRecord =
  AttestedDocID :: string
  SourceDocIDs :: "string list"
  recCIDs :: "string list"
  DocType :: string
  VoteCount :: int

record Version =
  verCID :: string
  verSignature :: Signature
  CollectionVersionID :: string

abbreviation CollectionAttestationRecord :: string where
  "CollectionAttestationRecord \<equiv> ''Ethereum__Mainnet__AttestationRecord''"

text \<open>\<open>SignatureVerifier.Verify\<close>, with the verifier's own state (its metrics).\<close>

type_synonym 'm verifier = "string \<Rightarrow> Signature \<Rightarrow> 'm \<Rightarrow> sig_error option \<times> 'm"

subsection \<open>Creating records\<close>

fun verifyVersions :: "'m verifier \<Rightarrow> Version list \<Rightarrow> 'm \<Rightarrow> string list \<times> 'm" where
  "verifyVersions verify [] m = ([], m)"
| "verifyVersions verify (v # vs) m =
     (case verify (verCID v) (verSignature v) m of
        (Some _, m') \<Rightarrow> verifyVersions verify vs m'
      | (None, m') \<Rightarrow> (case verifyVersions verify vs m' of (cids, m'') \<Rightarrow> (verCID v # cids, m'')))"

definition CreateAttestationRecord ::
  "'m verifier \<Rightarrow> string \<Rightarrow> string list \<Rightarrow> string \<Rightarrow> Version list \<Rightarrow> 'm \<Rightarrow> AttestationRecord \<times> 'm" where
  "CreateAttestationRecord verify docID sourceDocIDs docType runOrder m =
     (if runOrder = []
      then (\<lparr>AttestedDocID = docID, SourceDocIDs = sourceDocIDs, recCIDs = [], DocType = docType, VoteCount = 1\<rparr>, m)
      else (case verifyVersions verify runOrder m of (cids, m') \<Rightarrow>
        (\<lparr>AttestedDocID = docID, SourceDocIDs = sourceDocIDs, recCIDs = cids, DocType = docType, VoteCount = 1\<rparr>, m')))"

subsection \<open>Merging into stored documents\<close>

record ('doc, 'db) docstore =
  dsGetCollection :: "'db \<Rightarrow> bool"
  dsExec :: "string \<Rightarrow> 'db \<Rightarrow> gqlResult"
  dsDocID :: "string \<Rightarrow> bool"
  dsGetDocument :: "string \<Rightarrow> 'db \<Rightarrow> 'doc option"
  dsGet :: "'doc \<Rightarrow> string \<Rightarrow> gany option"
  dsSet :: "'doc \<Rightarrow> string \<Rightarrow> gany \<Rightarrow> 'doc option"
  dsNewDoc :: "gfields \<Rightarrow> 'doc option"
  dsSave :: "'doc \<Rightarrow> 'db \<Rightarrow> string option \<times> 'db"
  dsSaveMany :: "'doc list \<Rightarrow> 'db \<Rightarrow> string option \<times> 'db"

datatype post_error =
    PostGetCollection
  | PostLookup
  | PostSetField string
  | PostNewDoc
  | PostSave string

definition stringItems :: "gany \<Rightarrow> string list" where
  "stringItems v =
     (case v of
        AOptStrs os \<Rightarrow> List.map_filter id os
      | AStrs ss \<Rightarrow> ss
      | AAnys xs \<Rightarrow> List.map_filter (\<lambda>x. case x of AStr s \<Rightarrow> Some s | _ \<Rightarrow> None) xs
      | _ \<Rightarrow> [])"

definition mergeStringListField ::
  "('doc \<Rightarrow> string \<Rightarrow> gany option) \<Rightarrow> 'doc \<Rightarrow> string \<Rightarrow> string list \<Rightarrow> string list" where
  "mergeStringListField get doc fieldName newValues =
     (let old = (case get doc fieldName of None \<Rightarrow> [] | Some v \<Rightarrow> dedupOn id [] (stringItems v))
      in old @ dedupOn id old newValues)"

definition extractDocIDFromResult :: "gany \<Rightarrow> string \<Rightarrow> string" where
  "extractDocIDFromResult d collectionName =
     (case d of
        AMap m \<Rightarrow>
          (case getField m collectionName of
             AAnys (AMap f # _) \<Rightarrow> (case getField f ''_docID'' of AStr s \<Rightarrow> s | _ \<Rightarrow> [])
           | AMaps (f # _) \<Rightarrow> (case getField f ''_docID'' of AStr s \<Rightarrow> s | _ \<Rightarrow> [])
           | _ \<Rightarrow> [])
      | _ \<Rightarrow> [])"

definition lookupQuery :: "string \<Rightarrow> string" where
  "lookupQuery attestedDocID =
     ''query {'' @ NL @ TAB @ TAB @ CollectionAttestationRecord @ ''(filter: {attested_doc: {_eq: '' @ [CHR 0x22]
       @ attestedDocID @ [CHR 0x22] @ ''}}) {'' @ NL @ TAB @ TAB @ TAB @ ''_docID'' @ NL @ TAB @ TAB @ ''}''
       @ NL @ TAB @ ''}''"

definition lookupExistingAttestation ::
  "('doc, 'db) docstore \<Rightarrow> 'db \<Rightarrow> string \<Rightarrow> post_error + 'doc option" where
  "lookupExistingAttestation S db attestedDocID =
     (let docIDStr = extractDocIDFromResult (gqlData (dsExec S (lookupQuery attestedDocID) db))
                       CollectionAttestationRecord in
      if docIDStr = [] then Inr None
      else if \<not> dsDocID S docIDStr then Inl PostLookup
      else (case dsGetDocument S docIDStr db of None \<Rightarrow> Inl PostLookup | Some d \<Rightarrow> Inr (Some d)))"

text \<open>The three field updates of the merge branch.\<close>

definition mergeInto :: "('doc, 'db) docstore \<Rightarrow> 'doc \<Rightarrow> AttestationRecord \<Rightarrow> post_error + 'doc" where
  "mergeInto S doc r =
     (case dsSet S doc ''source_doc''
             (AAnys (map AStr (mergeStringListField (dsGet S) doc ''source_doc'' (SourceDocIDs r)))) of
        None \<Rightarrow> Inl (PostSetField ''source_doc'')
      | Some d1 \<Rightarrow>
      (case dsSet S d1 ''CIDs'' (AAnys (map AStr (mergeStringListField (dsGet S) d1 ''CIDs'' (recCIDs r)))) of
         None \<Rightarrow> Inl (PostSetField ''CIDs'')
       | Some d2 \<Rightarrow>
      (case dsSet S d2 ''vote_count'' (AInt (VoteCount r)) of
         None \<Rightarrow> Inl (PostSetField ''vote_count'')
       | Some d3 \<Rightarrow> Inr d3)))"

definition recordData :: "AttestationRecord \<Rightarrow> gfields" where
  "recordData r =
     [(''attested_doc'', AStr (AttestedDocID r)),
      (''source_doc'', AAnys (map AStr (SourceDocIDs r))),
      (''CIDs'', AAnys (map AStr (recCIDs r))),
      (''doc_type'', AStr (DocType r)),
      (''vote_count'', AInt (VoteCount r))]"

text \<open>Saving reports the text of its error.\<close>

definition saveResult :: "string option \<times> 'db \<Rightarrow> post_error option \<times> 'db" where
  "saveResult r = (map_option PostSave (fst r), snd r)"

definition PostAttestationRecord ::
  "('doc, 'db) docstore \<Rightarrow> AttestationRecord \<Rightarrow> 'db \<Rightarrow> post_error option \<times> 'db" where
  "PostAttestationRecord S r db =
     (if \<not> dsGetCollection S db then (Some PostGetCollection, db)
      else (case lookupExistingAttestation S db (AttestedDocID r) of
          Inl e \<Rightarrow> (Some e, db)
        | Inr (Some doc) \<Rightarrow>
            (case mergeInto S doc r of Inl e \<Rightarrow> (Some e, db) | Inr d \<Rightarrow> saveResult (dsSave S d db))
        | Inr None \<Rightarrow>
            (case dsNewDoc S (recordData r) of None \<Rightarrow> (Some PostNewDoc, db) | Some d \<Rightarrow> saveResult (dsSave S d db))))"

subsection \<open>Batches\<close>

datatype 'doc docRef = ExistingDoc string | NewDoc 'doc

definition postable :: "AttestationRecord option \<Rightarrow> AttestationRecord option" where
  "postable r = (case r of None \<Rightarrow> None | Some x \<Rightarrow> if recCIDs x = [] then None else Some x)"

fun lookupAll ::
  "('doc, 'db) docstore \<Rightarrow> 'db \<Rightarrow> string list \<Rightarrow> (string \<rightharpoonup> 'doc) \<Rightarrow> (string \<rightharpoonup> 'doc)" where
  "lookupAll S db [] ex = ex"
| "lookupAll S db (i # is) ex =
     lookupAll S db is
       (case lookupExistingAttestation S db i of Inr (Some d) \<Rightarrow> ex(i \<mapsto> d) | _ \<Rightarrow> ex)"

fun batchDocs ::
  "('doc, 'db) docstore \<Rightarrow> AttestationRecord list \<Rightarrow> (string \<rightharpoonup> 'doc)
     \<Rightarrow> post_error + 'doc docRef list \<times> (string \<rightharpoonup> 'doc)" where
  "batchDocs S [] ex = Inr ([], ex)"
| "batchDocs S (r # rs) ex =
     (case ex (AttestedDocID r) of
        Some doc \<Rightarrow>
          (case mergeInto S doc r of
             Inl e \<Rightarrow> Inl e
           | Inr d \<Rightarrow>
               (case batchDocs S rs (ex(AttestedDocID r \<mapsto> d)) of
                  Inl e \<Rightarrow> Inl e | Inr (ds, ex') \<Rightarrow> Inr (ExistingDoc (AttestedDocID r) # ds, ex')))
      | None \<Rightarrow>
          (case dsNewDoc S (recordData r) of
             None \<Rightarrow> Inl PostNewDoc
           | Some d \<Rightarrow>
               (case batchDocs S rs ex of Inl e \<Rightarrow> Inl e | Inr (ds, ex') \<Rightarrow> Inr (NewDoc d # ds, ex'))))"

fun resolveRef :: "(string \<rightharpoonup> 'doc) \<Rightarrow> 'doc docRef \<Rightarrow> 'doc" where
  "resolveRef ex (ExistingDoc i) = the (ex i)"
| "resolveRef ex (NewDoc d) = d"

definition PostAttestationRecordsBatch ::
  "('doc, 'db) docstore \<Rightarrow> AttestationRecord option list \<Rightarrow> 'db \<Rightarrow> post_error option \<times> 'db" where
  "PostAttestationRecordsBatch S records db =
     (if records = [] then (None, db)
      else if \<not> dsGetCollection S db then (Some PostGetCollection, db)
      else
        let rs = List.map_filter postable records in
        if rs = [] then (None, db)
        else (case batchDocs S rs (lookupAll S db (map AttestedDocID rs) Map.empty) of
            Inl e \<Rightarrow> (Some e, db)
          | Inr (refs, ex) \<Rightarrow> saveResult (dsSaveMany S (map (resolveRef ex) refs) db)))"

subsection \<open>Handlers\<close>

definition HandleDocumentAttestation ::
  "'m verifier \<Rightarrow> ('doc, 'db) docstore \<Rightarrow> string \<Rightarrow> string \<Rightarrow> Version list \<Rightarrow> 'm \<times> 'db
     \<Rightarrow> post_error option \<times> 'm \<times> 'db" where
  "HandleDocumentAttestation verify S docID docType runOrder st =
     (case st of (m, db) \<Rightarrow>
      if runOrder = [] then (None, m, db)
      else (case CreateAttestationRecord verify docID [docID] docType runOrder m of (r, m') \<Rightarrow>
        if recCIDs r = [] then (None, m', db)
        else (case PostAttestationRecord S r db of (e, db') \<Rightarrow> (e, m', db'))))"

record DocumentAttestationInput =
  inDocID :: string
  inDocType :: string
  inVersions :: "Version list"

fun createRecords ::
  "'m verifier \<Rightarrow> DocumentAttestationInput list \<Rightarrow> 'm \<Rightarrow> AttestationRecord list \<times> 'm" where
  "createRecords verify [] m = ([], m)"
| "createRecords verify (i # is) m =
     (if inVersions i = [] then createRecords verify is m
      else (case CreateAttestationRecord verify (inDocID i) [inDocID i] (inDocType i) (inVersions i) m of
          (r, m') \<Rightarrow> (case createRecords verify is m' of
              (rs, m'') \<Rightarrow> (if recCIDs r \<noteq> [] then r # rs else rs, m''))))"

definition HandleDocumentAttestationBatch ::
  "'m verifier \<Rightarrow> ('doc, 'db) docstore \<Rightarrow> DocumentAttestationInput list \<Rightarrow> 'm \<times> 'db
     \<Rightarrow> post_error option \<times> 'm \<times> 'db" where
  "HandleDocumentAttestationBatch verify S inputs st =
     (case st of (m, db) \<Rightarrow>
      if inputs = [] then (None, m, db)
      else (case createRecords verify inputs m of (rs, m') \<Rightarrow>
        if rs = [] then (None, m', db)
        else (case PostAttestationRecordsBatch S (map Some rs) db of (e, db') \<Rightarrow> (e, m', db'))))"

subsection \<open>Versions of a document\<close>

definition strField :: "gfields \<Rightarrow> string \<Rightarrow> string" where
  "strField m k = (case getField m k of AStr s \<Rightarrow> s | _ \<Rightarrow> [])"

definition emptySignature :: Signature where
  "emptySignature = \<lparr>sigType = [], sigIdentity = [], sigValueField = []\<rparr>"

definition versionOf :: "gfields \<Rightarrow> Version" where
  "versionOf vm =
     \<lparr>verCID = strField vm ''cid'',
      verSignature =
        (case getField vm ''signature'' of
           AMap sd \<Rightarrow> \<lparr>sigType = strField sd ''type'', sigIdentity = strField sd ''identity'',
                        sigValueField = strField sd ''value''\<rparr>
         | _ \<Rightarrow> emptySignature),
      CollectionVersionID = strField vm ''collectionVersionId''\<rparr>"

definition ExtractVersionsFromDocument :: "gfields \<Rightarrow> Version list" where
  "ExtractVersionsFromDocument docData =
     (case map_of docData ''_version'' of
        Some (AAnys vs) \<Rightarrow> List.map_filter (\<lambda>v. case v of AMap vm \<Rightarrow> Some (versionOf vm) | _ \<Rightarrow> None) vs
      | _ \<Rightarrow> [])"

subsection \<open>Merging two records\<close>

definition MergeAttestationRecords ::
  "AttestationRecord \<Rightarrow> AttestationRecord \<Rightarrow> string + AttestationRecord" where
  "MergeAttestationRecords r1 r2 =
     (if AttestedDocID r1 \<noteq> AttestedDocID r2 then Inl ''cannot merge records with different attested document IDs''
      else Inr \<lparr>AttestedDocID = AttestedDocID r1,
                SourceDocIDs = dedupOn id [] (SourceDocIDs r1 @ SourceDocIDs r2),
                recCIDs = dedupOn id [] (recCIDs r1 @ recCIDs r2),
                DocType = [], VoteCount = 0\<rparr>)"

subsection \<open>Queries over attestation records\<close>

text \<open>
  \<open>runQuery\<close> is \<open>defradb.QueryArray[Record]\<close> on the store, and \<open>errText\<close> the text of its
  errors. A quote inside a query is written \<open>DQ\<close>.
\<close>

abbreviation DQ :: string where "DQ \<equiv> [CHR 0x22]"

type_synonym queryRecords = "string \<Rightarrow> query_error + AttestationRecord list"

definition eqFilter :: "string \<Rightarrow> string \<Rightarrow> string" where
  "eqFilter attested docType =
     ''(filter: {attested_doc: {_eq: '' @ DQ @ attested @ DQ @ ''}, doc_type: {_eq: '' @ DQ @ docType @ DQ @ ''}}) {''"

definition fieldLines :: "string list \<Rightarrow> string" where
  "fieldLines fs = concat (map (\<lambda>f. TAB @ TAB @ TAB @ TAB @ f @ NL) fs)"

definition queryFrame :: "string \<Rightarrow> string list \<Rightarrow> string" where
  "queryFrame header fs =
     NL @ TAB @ TAB @ ''query {'' @ NL @ TAB @ TAB @ TAB @ header @ NL @ fieldLines fs
       @ TAB @ TAB @ TAB @ ''}'' @ NL @ TAB @ TAB @ ''}'' @ NL @ TAB"

abbreviation recordFields :: "string list" where
  "recordFields \<equiv> [''_docID'', ''attested_doc'', ''source_doc'', ''CIDs'', ''doc_type'', ''vote_count'']"

definition noRecordsError :: "(query_error \<Rightarrow> string) \<Rightarrow> query_error \<Rightarrow> bool" where
  "noRecordsError errText e \<longleftrightarrow> containsStr (errText e) ''No attestation records found''"

definition CheckExistingAttestation ::
  "queryRecords \<Rightarrow> (query_error \<Rightarrow> string) \<Rightarrow> string \<Rightarrow> string \<Rightarrow> query_error + AttestationRecord list" where
  "CheckExistingAttestation runQuery errText docID docType =
     (case runQuery (queryFrame (CollectionAttestationRecord @ eqFilter docID docType) recordFields) of
        Inl e \<Rightarrow> if noRecordsError errText e then Inr [] else Inl e
      | Inr rs \<Rightarrow> Inr rs)"

definition blockAttestedID :: "int \<Rightarrow> string" where
  "blockAttestedID blockNumber = ''block:'' @ showInt blockNumber"

definition blockAttestedPrefix :: "int \<Rightarrow> string" where
  "blockAttestedPrefix blockNumber = ''block:'' @ showInt blockNumber @ '':''"

definition viaBlockQuery :: "int \<Rightarrow> string" where
  "viaBlockQuery blockNumber =
     queryFrame (CollectionAttestationRecord @ eqFilter (blockAttestedID blockNumber) ''Block'')
       [''_docID'', ''attested_doc'', ''CIDs'']"

definition IsDocumentAttestedViaBlock ::
  "queryRecords \<Rightarrow> (query_error \<Rightarrow> string) \<Rightarrow> int \<Rightarrow> string \<Rightarrow> query_error + bool" where
  "IsDocumentAttestedViaBlock runQuery errText blockNumber documentCID =
     (case runQuery (viaBlockQuery blockNumber) of
        Inl e \<Rightarrow> if noRecordsError errText e then Inr False else Inl e
      | Inr rs \<Rightarrow> Inr (list_ex (\<lambda>r. documentCID \<in> set (recCIDs r)) rs))"

definition likeFilter :: "string \<Rightarrow> string" where
  "likeFilter prefix =
     ''(filter: {attested_doc: {_like: '' @ DQ @ prefix @ ''%'' @ DQ @ ''}, doc_type: {_eq: '' @ DQ @ ''Block'' @ DQ @ ''}}) {''"

definition GetBlockAttestations ::
  "queryRecords \<Rightarrow> (query_error \<Rightarrow> string) \<Rightarrow> int \<Rightarrow> query_error + AttestationRecord list" where
  "GetBlockAttestations runQuery errText blockNumber =
     (case runQuery (queryFrame (CollectionAttestationRecord @ likeFilter (blockAttestedPrefix blockNumber)) recordFields) of
        Inl e \<Rightarrow> if noRecordsError errText e then Inr [] else Inl e
      | Inr rs \<Rightarrow> Inr rs)"

fun joinWith :: "string \<Rightarrow> string list \<Rightarrow> string" where
  "joinWith sep [] = []"
| "joinWith sep [s] = s"
| "joinWith sep (s # ss) = s @ sep @ joinWith sep ss"

definition viewFields :: string where
  "viewFields = concat (map (\<lambda>f. TAB @ TAB @ TAB @ TAB @ f @ NL) [''_docID'', ''attested_doc'', ''source_doc'', ''CIDs''])"

definition GetAttestationRecordsByViewName ::
  "queryRecords \<Rightarrow> string \<Rightarrow> string list \<Rightarrow> query_error + AttestationRecord list" where
  "GetAttestationRecordsByViewName runQuery viewName viewDocIDs =
     (let collectionName = ''Ethereum__Mainnet__AttestationRecord_'' @ viewName in
      if viewDocIDs \<noteq> [] then
        let inList = joinWith '', '' (map (\<lambda>i. DQ @ i @ DQ) viewDocIDs) in
        runQuery (NL @ TAB @ TAB @ TAB @ ''query {'' @ NL @ TAB @ TAB @ TAB @ TAB @ collectionName
          @ ''(filter: {attested_doc: {_in: ['' @ inList @ '']}}) {'' @ NL
          @ concat (map (\<lambda>f. TAB @ TAB @ TAB @ TAB @ TAB @ f @ NL) [''_docID'', ''attested_doc'', ''source_doc'', ''CIDs''])
          @ TAB @ TAB @ TAB @ TAB @ ''}'' @ NL @ TAB @ TAB @ TAB @ ''}'' @ NL @ TAB @ TAB)
      else
        runQuery (NL @ TAB @ TAB @ ''query {'' @ NL @ TAB @ TAB @ TAB @ collectionName @ '' {'' @ NL @ viewFields
          @ TAB @ TAB @ TAB @ ''}'' @ NL @ TAB @ TAB @ ''}'' @ NL @ TAB))"

subsection \<open>The verifier interface\<close>

text \<open>
  What \<open>CreateAttestationRecord\<close> relies on: the verdict on a version is a predicate of the
  CID and the signature, whatever the state of the verifier.
\<close>

locale sig_verifier =
  fixes verify :: "'m verifier" and valid :: "string \<Rightarrow> Signature \<Rightarrow> bool"
  assumes verdict: "fst (verify cid s m) = None \<longleftrightarrow> valid cid s"
begin

lemma verified_cids:
  "fst (verifyVersions verify vs m) = map verCID (filter (\<lambda>v. valid (verCID v) (verSignature v)) vs)"
proof (induction vs arbitrary: m)
  case Nil
  then show ?case by simp
next
  case (Cons v vs)
  obtain e m' where e: "verify (verCID v) (verSignature v) m = (e, m')" by fastforce
  with verdict [of "verCID v" "verSignature v" m] Cons.IH [of m'] show ?case
    by (cases e) (auto split: prod.splits)
qed

lemma record_cids:
  assumes "mset runOrder = mset versions"
  shows "mset (recCIDs (fst (CreateAttestationRecord verify d src t runOrder m)))
    = image_mset verCID (filter_mset (\<lambda>v. valid (verCID v) (verSignature v)) (mset versions))"
proof -
  have "mset (fst (verifyVersions verify runOrder m))
      = image_mset verCID (filter_mset (\<lambda>v. valid (verCID v) (verSignature v)) (mset versions))"
    unfolding verified_cids using assms by simp
  then show ?thesis
    using assms by (cases "runOrder = []") (auto simp: CreateAttestationRecord_def split: prod.splits)
qed

end

text \<open>The verdict of the production verifier.\<close>

definition defraValid :: "('pk, 'cid) crypto \<Rightarrow> bool \<Rightarrow> (string \<Rightarrow> 'pk \<Rightarrow> bool) \<Rightarrow> string \<Rightarrow> Signature \<Rightarrow> bool" where
  "defraValid K hasDB dbVerify cid s \<longleftrightarrow>
     sigIdentity s \<noteq> [] \<and> cid \<noteq> [] \<and> equalFold (sigType s) ''ES256K'' \<and> hasDB
     \<and> (case PublicKeyFromString K KeyTypeSecp256k1 (sigIdentity s) of None \<Rightarrow> False | Some pk \<Rightarrow> dbVerify cid pk)"

interpretation dv: sig_verifier "DefraVerify K hasDB dbVerify" "defraValid K hasDB dbVerify"
  for K :: "('pk, 'cid) crypto" and hasDB dbVerify
  by unfold_locales (auto simp: DefraVerify_def defraValid_def split: option.splits)

subsection \<open>Merging lemmas\<close>

lemma merge_facts:
  "set (mergeStringListField get d f vs) = (case get d f of None \<Rightarrow> {} | Some v \<Rightarrow> set (stringItems v)) \<union> set vs"
  "distinct (mergeStringListField get d f vs)"
proof -
  let ?old = "case get d f of None \<Rightarrow> [] | Some v \<Rightarrow> dedupOn id [] (stringItems v)"
  have m: "mergeStringListField get d f vs = ?old @ dedupOn id ?old vs"
    by (simp add: mergeStringListField_def Let_def)
  have old: "distinct ?old" "set ?old = (case get d f of None \<Rightarrow> {} | Some v \<Rightarrow> set (stringItems v))"
    by (cases "get d f"; simp add: dedup_id)+
  with dedup_id [of ?old vs] show "set (mergeStringListField get d f vs) = (case get d f of None \<Rightarrow> {} | Some v \<Rightarrow> set (stringItems v)) \<union> set vs"
    "distinct (mergeStringListField get d f vs)" unfolding m by auto
qed

lemma dedupOn_all_seen: "set xs \<subseteq> set seen \<Longrightarrow> dedupOn id seen xs = []"
  by (induction xs) auto

lemma merge_again:
  assumes "get d' f = Some v" "stringItems v = mergeStringListField get d f vs"
  shows "mergeStringListField get d' f vs = mergeStringListField get d f vs"
proof -
  have "dedupOn id [] (mergeStringListField get d f vs) = mergeStringListField get d f vs"
    by (rule dedupOn_id) (simp_all add: merge_facts(2))
  moreover have "dedupOn id (mergeStringListField get d f vs) vs = []"
    by (rule dedupOn_all_seen) (auto simp: merge_facts(1))
  ultimately show ?thesis
    unfolding mergeStringListField_def [of get d'] assms Let_def by (simp add: assms)
qed

lemma stringItems_strs [simp]: "stringItems (AAnys (map AStr ss)) = ss"
  by (simp add: stringItems_def List.map_filter_def comp_def)

text \<open>
  Documented behaviour of a document: a field that was set reads back with the same strings,
  and the other fields keep their values.
\<close>

definition doc_laws :: "('doc, 'db) docstore \<Rightarrow> bool" where
  "doc_laws S \<longleftrightarrow>
     (\<forall>d f v d'. dsSet S d f v = Some d' \<longrightarrow>
        (\<exists>v'. dsGet S d' f = Some v' \<and> stringItems v' = stringItems v) \<and> (\<forall>g. g \<noteq> f \<longrightarrow> dsGet S d' g = dsGet S d g))"

definition fieldStrings :: "('doc, 'db) docstore \<Rightarrow> 'doc \<Rightarrow> string \<Rightarrow> string list" where
  "fieldStrings S d f = (case dsGet S d f of None \<Rightarrow> [] | Some v \<Rightarrow> stringItems v)"

lemma mergeInto_fields:
  assumes laws: "doc_laws S" and m: "mergeInto S doc r = Inr d"
  shows "fieldStrings S d ''source_doc'' = mergeStringListField (dsGet S) doc ''source_doc'' (SourceDocIDs r)"
    "fieldStrings S d ''CIDs'' = mergeStringListField (dsGet S) doc ''CIDs'' (recCIDs r)"
proof -
  from m obtain d1 d2 where
    s1: "dsSet S doc ''source_doc''
      (AAnys (map AStr (mergeStringListField (dsGet S) doc ''source_doc'' (SourceDocIDs r)))) = Some d1"
    and s2: "dsSet S d1 ''CIDs'' (AAnys (map AStr (mergeStringListField (dsGet S) d1 ''CIDs'' (recCIDs r)))) = Some d2"
    and s3: "dsSet S d2 ''vote_count'' (AInt (VoteCount r)) = Some d"
    by (auto simp: mergeInto_def split: option.splits)
  have L: "(\<exists>v'. dsGet S d' f = Some v' \<and> stringItems v' = stringItems v) \<and> (\<forall>g. g \<noteq> f \<longrightarrow> dsGet S d' g = dsGet S d g)"
    if "dsSet S d f v = Some d'" for d f v d' using laws that unfolding doc_laws_def by blast
  from L [OF s1] L [OF s2] L [OF s3] show
    "fieldStrings S d ''source_doc'' = mergeStringListField (dsGet S) doc ''source_doc'' (SourceDocIDs r)"
    "fieldStrings S d ''CIDs'' = mergeStringListField (dsGet S) doc ''CIDs'' (recCIDs r)"
    by (auto simp: fieldStrings_def mergeStringListField_def)
qed

subsection \<open>A store used in witnesses\<close>

text \<open>A store that holds at most one document, as its fields, under the identifier \<open>d\<close>.\<close>

definition demoDocStore :: "(gfields, gfields option) docstore" where
  "demoDocStore =
     \<lparr>dsGetCollection = (\<lambda>db. True),
      dsExec = (\<lambda>q db. \<lparr>gqlErrors = [], gqlData = AMap [(CollectionAttestationRecord,
         AMaps (case db of None \<Rightarrow> [] | Some _ \<Rightarrow> [[(''_docID'', AStr ''d'')]]))]\<rparr>),
      dsDocID = (\<lambda>i. True),
      dsGetDocument = (\<lambda>i db. db),
      dsGet = map_of,
      dsSet = (\<lambda>d f v. Some (AList.update f v d)),
      dsNewDoc = (\<lambda>fs. Some fs),
      dsSave = (\<lambda>d db. (None, Some d)),
      dsSaveMany = (\<lambda>ds db. (None, if ds = [] then db else Some (last ds)))\<rparr>"

definition demoRecord :: AttestationRecord where
  "demoRecord = \<lparr>AttestedDocID = ''block:7:aa'', SourceDocIDs = [''k2''], recCIDs = [''c1''], DocType = ''Block'', VoteCount = 1\<rparr>"

lemma demo_doc_laws: "doc_laws demoDocStore"
  by (auto simp: doc_laws_def demoDocStore_def update_conv')

subsection \<open>Properties\<close>

text \<open>
  C10. Whatever order the concurrent verifications finish in, the record's CIDs are, with
  multiplicity, exactly those of the versions the production verifier accepts: a CID whose
  signature does not verify is never attested and a verified one is never dropped.
\<close>

theorem record_attests_verified_exactly:
  assumes "mset runOrder = mset versions"
  shows "mset (recCIDs (fst (CreateAttestationRecord (DefraVerify K hasDB dbVerify) d src t runOrder m)))
    = image_mset verCID (filter_mset (\<lambda>v. defraValid K hasDB dbVerify (verCID v) (verSignature v)) (mset versions))"
  by (rule dv.record_cids [OF assms])

theorem record_attests_verified_exactly_witness:
  "mset (recCIDs (fst (CreateAttestationRecord (DefraVerify demoCrypto True (\<lambda>cid pk. True)) ''d'' [''d''] ''Block''
       [versionOf [(''cid'', AStr ''c2'')],
        versionOf [(''cid'', AStr ''c1''), (''signature'', AMap [(''type'', AStr ''es256k''), (''identity'', AStr ''k'')])]] None)))
    = {#''c1''#}"
proof -
  have p: "mset [versionOf [(''cid'', AStr ''c2'')],
        versionOf [(''cid'', AStr ''c1''), (''signature'', AMap [(''type'', AStr ''es256k''), (''identity'', AStr ''k'')])]]
     = mset [versionOf [(''cid'', AStr ''c1''), (''signature'', AMap [(''type'', AStr ''es256k''), (''identity'', AStr ''k'')])],
        versionOf [(''cid'', AStr ''c2'')]]" by (simp add: add_mset_commute)
  have "equalFold ''es256k'' ''ES256K''" by code_simp
  with record_attests_verified_exactly [OF p, of demoCrypto True "\<lambda>cid pk. True" "''d''" "[''d'']" "''Block''" None]
  show ?thesis
    by (simp add: versionOf_def strField_def getField_def emptySignature_def defraValid_def demoCrypto_def)
qed

text \<open>
  C11. Posting a record onto an existing attestation loses nothing and adds nothing else: the
  saved sources and CIDs are, without duplicates, the union of the stored ones and the
  record's; and posting the same record again computes the same two lists.
\<close>

theorem post_merges_union:
  assumes "doc_laws S" "dsGetCollection S db"
    and "lookupExistingAttestation S db (AttestedDocID r) = Inr (Some doc)" "mergeInto S doc r = Inr d"
  shows "PostAttestationRecord S r db = saveResult (dsSave S d db)
    \<and> set (fieldStrings S d ''source_doc'') = set (fieldStrings S doc ''source_doc'') \<union> set (SourceDocIDs r)
    \<and> set (fieldStrings S d ''CIDs'') = set (fieldStrings S doc ''CIDs'') \<union> set (recCIDs r)
    \<and> distinct (fieldStrings S d ''source_doc'') \<and> distinct (fieldStrings S d ''CIDs'')
    \<and> (\<forall>d'. mergeInto S d r = Inr d' \<longrightarrow>
         fieldStrings S d' ''source_doc'' = fieldStrings S d ''source_doc''
         \<and> fieldStrings S d' ''CIDs'' = fieldStrings S d ''CIDs'')"
proof -
  note f = mergeInto_fields [OF assms(1,4)]
  have again: "fieldStrings S d' g = fieldStrings S d g"
    if m: "fieldStrings S d' g = mergeStringListField (dsGet S) d g vs"
      and o: "fieldStrings S d g = mergeStringListField (dsGet S) doc g vs" for d' g vs
  proof (cases "dsGet S d g")
    case None
    with o have "mergeStringListField (dsGet S) doc g vs = []" by (simp add: fieldStrings_def)
    with merge_facts(1) [of "dsGet S" doc g vs] have "vs = []" by simp
    with m None show ?thesis by (simp add: fieldStrings_def mergeStringListField_def)
  next
    case (Some v)
    with o have "stringItems v = mergeStringListField (dsGet S) doc g vs" by (simp add: fieldStrings_def)
    from merge_again [where get = "dsGet S", OF Some this] m o show ?thesis by simp
  qed
  have "PostAttestationRecord S r db = saveResult (dsSave S d db)"
    using assms by (simp add: PostAttestationRecord_def)
  moreover have "set (fieldStrings S doc g) = (case dsGet S doc g of None \<Rightarrow> {} | Some v \<Rightarrow> set (stringItems v))" for g
    by (simp add: fieldStrings_def split: option.splits)
  moreover have "fieldStrings S d' ''source_doc'' = fieldStrings S d ''source_doc''
      \<and> fieldStrings S d' ''CIDs'' = fieldStrings S d ''CIDs''" if "mergeInto S d r = Inr d'" for d'
    using again [OF mergeInto_fields(1) [OF assms(1) that] f(1)]
      again [OF mergeInto_fields(2) [OF assms(1) that] f(2)] by blast
  ultimately show ?thesis
    by (simp add: f merge_facts)
qed

theorem post_merges_union_witness:
  "\<exists>d. PostAttestationRecord demoDocStore demoRecord (Some [(''source_doc'', AStrs [''k1'']), (''CIDs'', AStrs [''c1''])])
        = (None, Some d)
     \<and> set (fieldStrings demoDocStore d ''source_doc'') = {''k1'', ''k2''}"
proof -
  let ?doc = "[(''source_doc'', AStrs [''k1'']), (''CIDs'', AStrs [''c1''])]"
  have l: "lookupExistingAttestation demoDocStore (Some ?doc) (AttestedDocID demoRecord) = Inr (Some ?doc)"
    by (simp add: lookupExistingAttestation_def demoDocStore_def extractDocIDFromResult_def getField_def)
  obtain d where d: "mergeInto demoDocStore ?doc demoRecord = Inr d"
    by (simp add: mergeInto_def demoDocStore_def)
  from post_merges_union [OF demo_doc_laws _ l d] have
    "PostAttestationRecord demoDocStore demoRecord (Some ?doc) = saveResult (dsSave demoDocStore d (Some ?doc))"
    "set (fieldStrings demoDocStore d ''source_doc'')
       = set (fieldStrings demoDocStore ?doc ''source_doc'') \<union> set (SourceDocIDs demoRecord)"
    by (simp_all add: demoDocStore_def)
  moreover have "saveResult (dsSave demoDocStore d (Some ?doc)) = (None, Some d)"
    by (simp add: saveResult_def demoDocStore_def)
  moreover have "set (fieldStrings demoDocStore ?doc ''source_doc'') \<union> set (SourceDocIDs demoRecord) = {''k1'', ''k2''}"
    by (simp add: demoDocStore_def fieldStrings_def demoRecord_def stringItems_def insert_commute)
  ultimately show ?thesis by (intro exI [of _ d]) (simp only: simp_thms)
qed

text \<open>
  In one batch, two records for the same document that is not yet attested become two
  separate new documents, so the batch leaves duplicate attestations where posting the records
  one after the other would merge them.
\<close>

theorem batch_creates_duplicates:
  assumes "dsGetCollection S db" "recCIDs r1 \<noteq> []" "recCIDs r2 \<noteq> []" "AttestedDocID r1 = AttestedDocID r2"
    and "lookupExistingAttestation S db (AttestedDocID r1) = Inr None"
    and "dsNewDoc S (recordData r1) = Some d1" "dsNewDoc S (recordData r2) = Some d2"
  shows "PostAttestationRecordsBatch S [Some r1, Some r2] db = saveResult (dsSaveMany S [d1, d2] db)"
  using assms by (simp add: PostAttestationRecordsBatch_def postable_def List.map_filter_def)

theorem batch_creates_duplicates_witness:
  "PostAttestationRecordsBatch demoDocStore [Some demoRecord, Some (demoRecord\<lparr>SourceDocIDs := [''k3'']\<rparr>)] None
     = saveResult (dsSaveMany demoDocStore
         [recordData demoRecord, recordData (demoRecord\<lparr>SourceDocIDs := [''k3'']\<rparr>)] None)"
  by (rule batch_creates_duplicates)
    (simp_all add: demoDocStore_def demoRecord_def lookupExistingAttestation_def extractDocIDFromResult_def getField_def)

end
