(* ===== verification/Replication_Filter.thy ===== *)
theory Replication_Filter
  imports Attestation_Record
begin

text \<open>
  \<open>pkg/host/replication_filter.go\<close> with the filter types of \<open>config/config.go\<close>: which
  replicated documents the host stores.
\<close>

record ContractFilter =
  cfAddress :: string
  cfName :: string
  cfTypes :: "string list"

record TopicFilter =
  Topic0 :: string
  Topic1 :: string
  Topic2 :: string
  Topic3 :: string
  tfName :: string

record FilterGroup =
  fgName :: string
  fgEnabled :: bool
  Contracts :: "ContractFilter list"
  Topics :: "TopicFilter list"

record BlockRangeFilter =
  MinBlock :: nat
  MaxBlock :: nat

record EventFilterConfig =
  efEnabled :: bool
  Mode :: string
  CascadeFilters :: bool
  BlockRange :: "BlockRangeFilter option"
  Groups :: "FilterGroup list"

definition NewEventReplicationFilter :: "EventFilterConfig \<Rightarrow> EventFilterConfig option" where
  "NewEventReplicationFilter c = (if \<not> efEnabled c then None else Some c)"

subsection \<open>Field extraction\<close>

definition fieldString :: "gfields \<Rightarrow> string \<Rightarrow> string \<times> bool" where
  "fieldString flds key = (case map_of flds key of Some (AStr s) \<Rightarrow> (s, True) | _ \<Rightarrow> ([], False))"

definition fieldUint64 :: "gfields \<Rightarrow> string \<Rightarrow> nat option" where
  "fieldUint64 flds key =
     (case map_of flds key of
        Some (AInt64 n) \<Rightarrow> Some (wrapU64 n)
      | Some (AUint64 n) \<Rightarrow> Some n
      | Some (AFloat64 r) \<Rightarrow> Some (f64_to_uint64 r)
      | Some (AInt n) \<Rightarrow> Some (wrapU64 n)
      | _ \<Rightarrow> None)"

definition fieldStringSlice :: "gfields \<Rightarrow> string \<Rightarrow> string list" where
  "fieldStringSlice flds key =
     (case map_of flds key of
        Some (AStrs s) \<Rightarrow> s
      | Some (AAnys s) \<Rightarrow> List.map_filter (\<lambda>x. case x of AStr t \<Rightarrow> Some t | _ \<Rightarrow> None) s
      | _ \<Rightarrow> [])"

subsection \<open>Matching\<close>

fun contractAppliesToType :: "string list \<Rightarrow> string \<Rightarrow> bool \<Rightarrow> bool" where
  "contractAppliesToType [] colType cascade = False"
| "contractAppliesToType (t # ts) colType cascade =
     (if equalFold t colType then True
      else if cascade \<and> equalFold t ''transaction'' \<and> (colType = ''log'' \<or> colType = ''accessListEntry'') then True
      else contractAppliesToType ts colType cascade)"

definition topicFilterMatches :: "TopicFilter \<Rightarrow> string list \<Rightarrow> bool" where
  "topicFilterMatches tf topics =
     (if length topics = 0 \<or> Topic0 tf = [] then False
      else if \<not> equalFold (Topic0 tf) (topics ! 0) then False
      else if Topic1 tf \<noteq> [] \<and> (length topics < 2 \<or> \<not> equalFold (Topic1 tf) (topics ! 1)) then False
      else if Topic2 tf \<noteq> [] \<and> (length topics < 3 \<or> \<not> equalFold (Topic2 tf) (topics ! 2)) then False
      else if Topic3 tf \<noteq> [] \<and> (length topics < 4 \<or> \<not> equalFold (Topic3 tf) (topics ! 3)) then False
      else True)"

fun contractsMatch :: "ContractFilter list \<Rightarrow> string \<Rightarrow> string \<Rightarrow> bool \<Rightarrow> bool" where
  "contractsMatch [] address colType cascade = False"
| "contractsMatch (c # cs) address colType cascade =
     (if \<not> contractAppliesToType (cfTypes c) colType cascade then contractsMatch cs address colType cascade
      else if equalFold (cfAddress c) address then True
      else contractsMatch cs address colType cascade)"

fun topicsMatch :: "TopicFilter list \<Rightarrow> string list \<Rightarrow> bool" where
  "topicsMatch [] topics = False"
| "topicsMatch (t # ts) topics = (if topicFilterMatches t topics then True else topicsMatch ts topics)"

definition groupMatches :: "EventFilterConfig \<Rightarrow> FilterGroup \<Rightarrow> string \<Rightarrow> string list \<Rightarrow> string \<Rightarrow> bool" where
  "groupMatches c g address topics colType =
     (if address \<noteq> [] \<and> contractsMatch (Contracts g) address colType (CascadeFilters c) then True
      else if colType = ''log'' \<and> topics \<noteq> [] \<and> topicsMatch (Topics g) topics then True
      else False)"

fun hasEnabledGroups :: "FilterGroup list \<Rightarrow> bool" where
  "hasEnabledGroups [] = False"
| "hasEnabledGroups (g # gs) = (if fgEnabled g then True else hasEnabledGroups gs)"

fun anyGroupMatches :: "EventFilterConfig \<Rightarrow> FilterGroup list \<Rightarrow> string \<Rightarrow> string list \<Rightarrow> string \<Rightarrow> bool" where
  "anyGroupMatches c [] address topics colType = False"
| "anyGroupMatches c (g # gs) address topics colType =
     (if \<not> fgEnabled g then anyGroupMatches c gs address topics colType
      else if groupMatches c g address topics colType then True
      else anyGroupMatches c gs address topics colType)"

definition matchesGroups :: "EventFilterConfig \<Rightarrow> string \<Rightarrow> string list \<Rightarrow> string \<Rightarrow> bool" where
  "matchesGroups c address topics colType =
     (let isAllowlist = (Mode c \<noteq> ''blocklist'');
          matched = anyGroupMatches c (Groups c) address topics colType
      in if isAllowlist then (if \<not> hasEnabledGroups (Groups c) then True else matched)
         else \<not> matched)"

subsection \<open>Block range\<close>

definition inRange :: "EventFilterConfig \<Rightarrow> nat option \<Rightarrow> bool" where
  "inRange c num =
     (case BlockRange c of None \<Rightarrow> True
      | Some r \<Rightarrow>
          (case num of None \<Rightarrow> True
           | Some n \<Rightarrow> if n < MinBlock r then False
                       else if MaxBlock r > 0 \<and> n > MaxBlock r then False else True))"

definition inBlockRange :: "EventFilterConfig \<Rightarrow> gfields \<Rightarrow> bool" where
  "inBlockRange c flds = inRange c (fieldUint64 flds ''blockNumber'')"

definition allowBlock :: "EventFilterConfig \<Rightarrow> gfields \<Rightarrow> bool" where
  "allowBlock c flds = inRange c (fieldUint64 flds ''number'')"

definition allowTransaction :: "EventFilterConfig \<Rightarrow> gfields \<Rightarrow> bool" where
  "allowTransaction c flds = matchesGroups c (fst (fieldString flds ''to'')) [] ''transaction''"

definition allowLog :: "EventFilterConfig \<Rightarrow> gfields \<Rightarrow> bool" where
  "allowLog c flds =
     matchesGroups c (fst (fieldString flds ''address'')) (fieldStringSlice flds ''topics'') ''log''"

definition allowAccessListEntry :: "EventFilterConfig \<Rightarrow> gfields \<Rightarrow> bool" where
  "allowAccessListEntry c flds = matchesGroups c (fst (fieldString flds ''address'')) [] ''accessListEntry''"

definition AllowReplication :: "EventFilterConfig \<Rightarrow> string \<Rightarrow> gfields \<Rightarrow> bool" where
  "AllowReplication c collectionID flds =
     (if collectionID = ''Ethereum__Mainnet__Block'' then allowBlock c flds
      else if collectionID = ''Ethereum__Mainnet__BlockSignature''
              \<or> collectionID = ''Ethereum__Mainnet__SnapshotSignature'' then True
      else if \<not> inBlockRange c flds then False
      else if collectionID = ''Ethereum__Mainnet__Transaction'' then allowTransaction c flds
      else if collectionID = ''Ethereum__Mainnet__Log'' then allowLog c flds
      else if collectionID = ''Ethereum__Mainnet__AccessListEntry'' then allowAccessListEntry c flds
      else True)"

subsection \<open>Specification\<close>

text \<open>A topic pattern with empty entries as wildcards.\<close>

definition topicPattern :: "TopicFilter \<Rightarrow> string list" where
  "topicPattern tf = [Topic0 tf, Topic1 tf, Topic2 tf, Topic3 tf]"

text \<open>What it means for a log to be selected by a configuration.\<close>

definition contractHit :: "EventFilterConfig \<Rightarrow> string \<Rightarrow> string \<Rightarrow> bool" where
  "contractHit c address colType \<longleftrightarrow>
     (\<exists>g \<in> set (Groups c). fgEnabled g \<and> (\<exists>f \<in> set (Contracts g).
        equalFold (cfAddress f) address \<and>
        (\<exists>t \<in> set (cfTypes f). equalFold t colType
           \<or> CascadeFilters c \<and> equalFold t ''transaction'' \<and> colType \<in> {''log'', ''accessListEntry''})))"

definition topicHit :: "EventFilterConfig \<Rightarrow> string list \<Rightarrow> bool" where
  "topicHit c topics \<longleftrightarrow>
     (\<exists>g \<in> set (Groups c). fgEnabled g \<and> (\<exists>tf \<in> set (Topics g).
        Topic0 tf \<noteq> [] \<and> (\<forall>i < 4. topicPattern tf ! i = [] \<or> i < length topics \<and> equalFold (topicPattern tf ! i) (topics ! i))))"

lemma contractAppliesToType_iff:
  "contractAppliesToType ts colType cascade \<longleftrightarrow>
     (\<exists>t \<in> set ts. equalFold t colType \<or> cascade \<and> equalFold t ''transaction'' \<and> colType \<in> {''log'', ''accessListEntry''})"
  by (induction ts) auto

lemma contractsMatch_iff:
  "contractsMatch cs address colType cascade \<longleftrightarrow>
     (\<exists>c \<in> set cs. contractAppliesToType (cfTypes c) colType cascade \<and> equalFold (cfAddress c) address)"
  by (induction cs) auto

lemma topicsMatch_iff: "topicsMatch ts topics \<longleftrightarrow> (\<exists>t \<in> set ts. topicFilterMatches t topics)"
  by (induction ts) auto

lemma hasEnabledGroups_iff: "hasEnabledGroups gs \<longleftrightarrow> (\<exists>g \<in> set gs. fgEnabled g)"
  by (induction gs) auto

lemma anyGroupMatches_iff:
  "anyGroupMatches c gs a tp ct \<longleftrightarrow> (\<exists>g \<in> set gs. fgEnabled g \<and> groupMatches c g a tp ct)"
  by (induction gs) auto

lemma less4: "(\<forall>i < (4::nat). P i) \<longleftrightarrow> P 0 \<and> P 1 \<and> P 2 \<and> P 3"
proof -
  have "i = 0 \<or> i = 1 \<or> i = 2 \<or> i = 3" if "i < 4" for i :: nat using that by arith
  then show ?thesis by auto
qed

lemma topicFilterMatches_iff:
  "topicFilterMatches tf topics \<longleftrightarrow>
     Topic0 tf \<noteq> [] \<and> (\<forall>i < 4. topicPattern tf ! i = [] \<or> i < length topics \<and> equalFold (topicPattern tf ! i) (topics ! i))"
  unfolding less4 by (auto simp: topicFilterMatches_def topicPattern_def not_less Suc_le_eq numeral_eq_Suc)

lemmas match_iffs = contractAppliesToType_iff contractsMatch_iff topicsMatch_iff hasEnabledGroups_iff
  anyGroupMatches_iff

lemma contractHit_alt:
  "contractHit c a ct \<longleftrightarrow> (\<exists>g \<in> set (Groups c). fgEnabled g \<and> contractsMatch (Contracts g) a ct (CascadeFilters c))"
  unfolding contractHit_def contractsMatch_iff contractAppliesToType_iff by (simp only: conj_commute)

lemma topicHit_alt:
  "topicHit c tp \<longleftrightarrow> (\<exists>g \<in> set (Groups c). fgEnabled g \<and> topicsMatch (Topics g) tp)"
  unfolding topicHit_def topicsMatch_iff topicFilterMatches_iff ..

lemma groups_hit:
  "anyGroupMatches c (Groups c) a tp ct \<longleftrightarrow> a \<noteq> [] \<and> contractHit c a ct \<or> ct = ''log'' \<and> tp \<noteq> [] \<and> topicHit c tp"
  unfolding contractHit_alt topicHit_alt anyGroupMatches_iff groupMatches_def by auto

lemma matchesGroups_iff:
  "matchesGroups c a tp ct \<longleftrightarrow>
     (if Mode c = ''blocklist'' then \<not> (a \<noteq> [] \<and> contractHit c a ct \<or> ct = ''log'' \<and> tp \<noteq> [] \<and> topicHit c tp)
      else (\<forall>g \<in> set (Groups c). \<not> fgEnabled g) \<or> (a \<noteq> [] \<and> contractHit c a ct \<or> ct = ''log'' \<and> tp \<noteq> [] \<and> topicHit c tp))"
  unfolding matchesGroups_def groups_hit hasEnabledGroups_iff Let_def
  by (cases "\<exists>g \<in> set (Groups c). fgEnabled g") auto

definition demoFilter :: EventFilterConfig where
  "demoFilter = \<lparr>efEnabled = True, Mode = ''allowlist'', CascadeFilters = True,
     BlockRange = Some \<lparr>MinBlock = 10, MaxBlock = 20\<rparr>,
     Groups = [\<lparr>fgName = ''g'', fgEnabled = True,
       Contracts = [\<lparr>cfAddress = ''0xAb'', cfName = [], cfTypes = [''transaction'']\<rparr>], Topics = []\<rparr>]\<rparr>"

subsection \<open>Properties\<close>

text \<open>
  C14. The filter decides a log exactly as configured: it is stored if and only if its block
  number, when it has one, is in the inclusive range, and, in blocklist mode, no enabled group
  selects it, or, in every other mode, some enabled group selects it or there is none. A group
  selects a log by a contract address (case-insensitively, for the log type or, with cascading,
  the transaction type) or by a topic pattern in which empty entries are wildcards.
\<close>

theorem log_filter_exact:
  "AllowReplication c ''Ethereum__Mainnet__Log'' flds \<longleftrightarrow>
     (\<forall>r n. BlockRange c = Some r \<and> fieldUint64 flds ''blockNumber'' = Some n \<longrightarrow>
        MinBlock r \<le> n \<and> (MaxBlock r = 0 \<or> n \<le> MaxBlock r))
     \<and> (let a = fst (fieldString flds ''address''); tp = fieldStringSlice flds ''topics'';
            hit = (a \<noteq> [] \<and> contractHit c a ''log'' \<or> tp \<noteq> [] \<and> topicHit c tp)
        in if Mode c = ''blocklist'' then \<not> hit else (\<forall>g \<in> set (Groups c). \<not> fgEnabled g) \<or> hit)"
  unfolding AllowReplication_def inBlockRange_def inRange_def allowLog_def matchesGroups_iff Let_def
  by (auto split: option.splits)

theorem log_filter_exact_witness:
  "AllowReplication demoFilter ''Ethereum__Mainnet__Log'' [(''address'', AStr ''0xaB''), (''blockNumber'', AInt64 15)]"
proof -
  let ?fs = "[(''address'', AStr ''0xaB''), (''blockNumber'', AInt64 15)]"
  have e: "equalFold ''0xAb'' ''0xaB''" by code_simp
  have u: "wrapU64 15 = 15" by (simp add: wrapU64_def)
  have "contractHit demoFilter ''0xaB'' ''log''" by (simp add: contractHit_def demoFilter_def e)
  with log_filter_exact [of demoFilter ?fs] show ?thesis
    by (simp add: fieldUint64_def fieldString_def u) (simp add: demoFilter_def)
qed

text \<open>
  Blocklist and allowlist are complementary: for documents of a filtered collection whose
  block number is in range, switching the mode flips the decision whenever some group is
  enabled. Block signatures and snapshot signatures are never filtered.
\<close>

theorem filter_modes_complement:
  assumes "Mode c \<noteq> ''blocklist''" "\<exists>g \<in> set (Groups c). fgEnabled g" "inBlockRange c flds"
    and "col \<in> {''Ethereum__Mainnet__Transaction'', ''Ethereum__Mainnet__Log'', ''Ethereum__Mainnet__AccessListEntry''}"
  shows "AllowReplication (c\<lparr>Mode := ''blocklist''\<rparr>) col flds \<longleftrightarrow> \<not> AllowReplication c col flds"
proof -
  have g: "anyGroupMatches (c\<lparr>Mode := ''blocklist''\<rparr>) gs a tp ct = anyGroupMatches c gs a tp ct" for gs a tp ct
    by (induction gs) (auto simp: groupMatches_def)
  have r: "inBlockRange (c\<lparr>Mode := ''blocklist''\<rparr>) flds" using assms(3) by (simp add: inBlockRange_def inRange_def)
  have m: "matchesGroups (c\<lparr>Mode := ''blocklist''\<rparr>) a tp ct \<longleftrightarrow> \<not> matchesGroups c a tp ct" for a tp ct
    using assms(1,2) by (simp add: matchesGroups_def g hasEnabledGroups_iff)
  from assms(4) consider "col = ''Ethereum__Mainnet__Transaction''" | "col = ''Ethereum__Mainnet__Log''"
    | "col = ''Ethereum__Mainnet__AccessListEntry''" by auto
  then show ?thesis
    by cases (simp_all add: AllowReplication_def r assms(3) m allowTransaction_def allowLog_def allowAccessListEntry_def)
qed

theorem filter_modes_complement_witness:
  "AllowReplication (demoFilter\<lparr>Mode := ''blocklist''\<rparr>) ''Ethereum__Mainnet__Transaction'' [(''to'', AStr ''0x01'')]
     \<longleftrightarrow> \<not> AllowReplication demoFilter ''Ethereum__Mainnet__Transaction'' [(''to'', AStr ''0x01'')]"
  by (rule filter_modes_complement) (simp_all add: demoFilter_def inBlockRange_def inRange_def fieldUint64_def)

end
