(* ===== verification/View_Model.thy ===== *)
theory View_Model
  imports Host_Prelude
begin

text \<open>
  \<open>pkg/view/view.go\<close>: a view with its lenses, its validation, the conversion of inline WASM
  to files, and its creation in DefraDB with the automatic correction of a rejected query. The
  regular expressions of the code are written out as matchers. DefraDB is third-party: its
  calls are the fields of the record \<open>defraOps\<close> over a state of its own. The file system is
  a map from absolute paths to contents, and \<open>writable\<close> says where a write succeeds. SHA-256
  and the JSON decoding of lens arguments are arguments.
\<close>

record Lens =
  lensPath :: string
  lensArguments :: string

record View =
  vName :: string
  vContractAddress :: string
  vQuery :: string
  vSdl :: string
  vLenses :: "Lens list"

datatype view_error =
    ErrViewNameRequired | ErrViewQueryRequired | ErrViewSDLRequired | ErrViewQuerySDLRequired
  | ErrLensEmptyPath nat | ErrLensInvalidBase64 nat | ErrInvalidWASMFormat nat
  | ErrCollectionNotFound string | ErrSubscribe | ErrRegistryDir | ErrWriteWasm
  | ErrLensArguments | ErrAddLens | ErrAddView string | ErrAddViewCorrected string
  | ErrViewAlreadyRegistered string

type_synonym files = "string \<rightharpoonup> byte list"

subsection \<open>Base64 (\<open>encoding/base64\<close>, \<open>StdEncoding\<close>)\<close>

definition b64Value :: "char \<Rightarrow> nat option" where
  "b64Value c =
     (let n = of_char c :: nat in
      if 65 \<le> n \<and> n \<le> 90 then Some (n - 65)
      else if 97 \<le> n \<and> n \<le> 122 then Some (n - 71)
      else if 48 \<le> n \<and> n \<le> 57 then Some (n + 4)
      else if c = CHR ''+'' then Some 62
      else if c = CHR ''/'' then Some 63
      else None)"

text \<open>A quantum of four digits; the last one may end in one or two padding characters.\<close>

fun b64Quanta :: "string \<Rightarrow> byte list option" where
  "b64Quanta [] = Some []"
| "b64Quanta (a # b # c # d # rest) =
     (case (b64Value a, b64Value b) of
        (Some x, Some y) \<Rightarrow>
          (case b64Value c of
             Some z \<Rightarrow>
               (case b64Value d of
                  Some w \<Rightarrow>
                    map_option (\<lambda>bs. of_nat (x * 4 + y div 16) # of_nat (y mod 16 * 16 + z div 4)
                                     # of_nat (z mod 4 * 64 + w) # bs) (b64Quanta rest)
                | None \<Rightarrow>
                    if d = CHR ''='' \<and> rest = []
                    then Some [of_nat (x * 4 + y div 16), of_nat (y mod 16 * 16 + z div 4)] else None)
           | None \<Rightarrow>
               if c = CHR ''='' \<and> d = CHR ''='' \<and> rest = [] then Some [of_nat (x * 4 + y div 16)] else None)
      | _ \<Rightarrow> None)"
| "b64Quanta _ = None"

definition b64Decode :: "string \<Rightarrow> byte list option" where
  "b64Decode s = b64Quanta (filter (\<lambda>c. c \<noteq> CHR 0x0A \<and> c \<noteq> CHR 0x0D) s)"

definition isValidBase64 :: "string \<Rightarrow> bool" where
  "isValidBase64 s \<longleftrightarrow> b64Decode s \<noteq> None"

definition isValidWASM :: "byte list \<Rightarrow> bool" where
  "isValidWASM data \<longleftrightarrow> \<not> length data < 8 \<and>
     data ! 0 = 0 \<and> data ! 1 = 0x61 \<and> data ! 2 = 0x73 \<and> data ! 3 = 0x6D"

subsection \<open>Names and validation\<close>

definition reSpace :: "char \<Rightarrow> bool" where
  "reSpace c \<longleftrightarrow> c \<in> {CHR '' '', CHR 0x09, CHR 0x0A, CHR 0x0C, CHR 0x0D}"

definition wordChar :: "char \<Rightarrow> bool" where
  "wordChar c \<longleftrightarrow> (let n = of_char c :: nat in
     65 \<le> n \<and> n \<le> 90 \<or> 97 \<le> n \<and> n \<le> 122 \<or> 48 \<le> n \<and> n \<le> 57 \<or> c = CHR ''_'')"

text \<open>
  \<open>type\s+(\w+)\s+X\<close> at the start of a string, for a literal character X; spaces, word
  characters and X are disjoint, so the greedy match is the only one.
\<close>

definition matchTypeHere :: "char \<Rightarrow> string \<Rightarrow> string option" where
  "matchTypeHere x s =
     (if hasPrefix s ''type'' then
        (let s1 = drop 4 s; sp = takeWhile reSpace s1; s2 = dropWhile reSpace s1;
             w = takeWhile wordChar s2; s3 = dropWhile wordChar s2;
             sp' = takeWhile reSpace s3; s4 = dropWhile reSpace s3 in
         if sp \<noteq> [] \<and> w \<noteq> [] \<and> sp' \<noteq> [] \<and> s4 \<noteq> [] \<and> hd s4 = x then Some w else None)
      else None)"

fun findType :: "char \<Rightarrow> string \<Rightarrow> string option" where
  "findType x [] = None"
| "findType x (c # cs) =
     (case matchTypeHere x (c # cs) of Some w \<Rightarrow> Some w | None \<Rightarrow> findType x cs)"

definition ExtractNameFromSDL :: "View \<Rightarrow> View" where
  "ExtractNameFromSDL v =
     (if vSdl v = [] then v\<lparr>vName := []\<rparr>
      else (case findType (CHR ''@'') (vSdl v) of
          Some w \<Rightarrow> v\<lparr>vName := w\<rparr>
        | None \<Rightarrow> (case findType (CHR ''{'') (vSdl v) of Some w \<Rightarrow> v\<lparr>vName := w\<rparr> | None \<Rightarrow> v)))"

text \<open>\<open>unbundle\<close> is the third-party bundler: query, schema text and lenses of the wire format.\<close>

definition NewViewFromBundle :: "string \<times> string \<times> Lens list \<Rightarrow> View" where
  "NewViewFromBundle b =
     (case b of (q, s, ls) \<Rightarrow>
        ExtractNameFromSDL \<lparr>vName = [], vContractAddress = [], vQuery = q, vSdl = s, vLenses = ls\<rparr>)"

definition NewViewFromWire :: "(byte list \<Rightarrow> (string \<times> string \<times> Lens list) option) \<Rightarrow> byte list \<Rightarrow> View option" where
  "NewViewFromWire unbundle wire = map_option NewViewFromBundle (unbundle wire)"

definition located :: "string \<Rightarrow> bool" where
  "located p \<longleftrightarrow> hasPrefix p ''file://'' \<or> hasPrefix p ''http''"

fun validateLenses :: "nat \<Rightarrow> Lens list \<Rightarrow> view_error option" where
  "validateLenses i [] = None"
| "validateLenses i (l # ls) =
     (if lensPath l = [] then Some (ErrLensEmptyPath i)
      else if \<not> located (lensPath l) \<and> \<not> isValidBase64 (lensPath l) then Some (ErrLensInvalidBase64 i)
      else validateLenses (i + 1) ls)"

definition Validate :: "View \<Rightarrow> view_error option" where
  "Validate v =
     (if vName v = [] then Some ErrViewNameRequired
      else if vQuery v = [] then Some ErrViewQueryRequired
      else if vSdl v = [] then Some ErrViewSDLRequired
      else validateLenses 0 (vLenses v))"

definition HasLenses :: "View \<Rightarrow> bool" where
  "HasLenses v \<longleftrightarrow> length (vLenses v) > 0"

definition needsWasmConversion :: "View \<Rightarrow> bool" where
  "needsWasmConversion v \<longleftrightarrow> list_ex (\<lambda>l. \<not> located (lensPath l)) (vLenses v)"

text \<open>The hand-written substring search.\<close>

function indexOfFrom :: "string \<Rightarrow> string \<Rightarrow> nat \<Rightarrow> nat option" where
  "indexOfFrom s substr i =
     (if i + length substr \<le> length s
      then (if take (length substr) (drop i s) = substr then Some i else indexOfFrom s substr (i + 1))
      else None)"
  by pat_completeness auto
termination by (relation "measure (\<lambda>(s, substr, i). length s + 1 - i)") auto

declare indexOfFrom.simps [simp del]

definition indexOf :: "string \<Rightarrow> string \<Rightarrow> nat option" where
  "indexOf s substr = indexOfFrom s substr 0"

definition contains :: "string \<Rightarrow> string \<Rightarrow> bool" where
  "contains s substr \<longleftrightarrow> length substr \<le> length s \<and> (s = substr \<or>
     (length substr < length s \<and>
       (take (length substr) s = substr \<or> drop (length s - length substr) s = substr \<or> indexOf s substr \<noteq> None)))"

subsection \<open>Inline WASM to files\<close>

definition wasmFileName :: "(string \<Rightarrow> byte list) \<Rightarrow> string \<Rightarrow> nat \<Rightarrow> string" where
  "wasmFileName sha256 path i = hexEncode (take 8 (sha256 path)) @ ''_'' @ showNat i @ ''.wasm''"

text \<open>
  The loop of \<open>PostWasmToFile\<close> from lens \<open>i\<close>. The view is updated in place, so after an
  error the lenses before the failing one keep their new paths.
\<close>

fun postLenses ::
  "(string \<Rightarrow> byte list) \<Rightarrow> (string \<Rightarrow> bool) \<Rightarrow> string \<Rightarrow> nat \<Rightarrow> Lens list \<Rightarrow> files
     \<Rightarrow> view_error option \<times> Lens list \<times> files" where
  "postLenses sha256 writable dir i [] fs = (None, [], fs)"
| "postLenses sha256 writable dir i (l # ls) fs =
     (if located (lensPath l)
      then (case postLenses sha256 writable dir (i + 1) ls fs of (e, ls', fs') \<Rightarrow> (e, l # ls', fs'))
      else (case b64Decode (lensPath l) of
          None \<Rightarrow> (Some (ErrLensInvalidBase64 i), l # ls, fs)
        | Some wasmDecoded \<Rightarrow>
            if length wasmDecoded < 8 \<or> \<not> isValidWASM wasmDecoded
            then (Some (ErrInvalidWASMFormat i), l # ls, fs)
            else
              (let wasmFilePath = dir @ ''/'' @ wasmFileName sha256 (lensPath l) i in
               if \<not> writable wasmFilePath then (Some ErrWriteWasm, l # ls, fs)
               else (case postLenses sha256 writable dir (i + 1) ls (fs(wasmFilePath \<mapsto> wasmDecoded)) of
                       (e, ls', fs') \<Rightarrow> (e, l\<lparr>lensPath := ''file://'' @ wasmFilePath\<rparr> # ls', fs')))))"

text \<open>
  \<open>dir\<close> is the cleaned absolute path of the registry directory below the working directory,
  when it could be made (not the root of the file system).
\<close>

definition PostWasmToFile ::
  "(string \<Rightarrow> byte list) \<Rightarrow> (string \<Rightarrow> bool) \<Rightarrow> string option \<Rightarrow> View \<Rightarrow> files
     \<Rightarrow> view_error option \<times> View \<times> files" where
  "PostWasmToFile sha256 writable dir v fs =
     (case dir of None \<Rightarrow> (Some ErrRegistryDir, v, fs)
      | Some d \<Rightarrow>
          (case postLenses sha256 writable d 0 (vLenses v) fs of (e, ls, fs') \<Rightarrow> (e, v\<lparr>vLenses := ls\<rparr>, fs')))"

subsection \<open>Creation in DefraDB\<close>

record LensModule =
  modPath :: string
  modInverse :: bool
  modArguments :: gfields

record LensConfig =
  SourceCollectionVersionID :: string
  DestinationCollectionVersionID :: string
  lensModules :: "LensModule list"

text \<open>\<open>AddView\<close> takes query, schema and lens CID (empty for none) and yields the error text.\<close>

record 'db defraOps =
  AddView :: "'db \<Rightarrow> string \<Rightarrow> string \<Rightarrow> string \<Rightarrow> string option \<times> 'db"
  AddLens :: "'db \<Rightarrow> LensModule list \<Rightarrow> string option \<times> 'db"
  GetCollectionByName :: "'db \<Rightarrow> string \<Rightarrow> bool"
  AddP2PCollections :: "'db \<Rightarrow> string list \<Rightarrow> bool \<times> 'db"

definition SubscribeTo :: "'db defraOps \<Rightarrow> View \<Rightarrow> 'db \<Rightarrow> view_error option \<times> 'db" where
  "SubscribeTo ops v db =
     (if \<not> GetCollectionByName ops db (vName v) then (Some (ErrCollectionNotFound (vName v)), db)
      else (case AddP2PCollections ops db [vName v] of
          (True, db') \<Rightarrow> (None, db') | (False, db') \<Rightarrow> (Some ErrSubscribe, db')))"

text \<open>The regular expression \<open>Cannot query field "([^"]+)".*Did you mean "([^"]+)"\<close>.\<close>

definition quotedToken :: "string \<Rightarrow> (string \<times> string) option" where
  "quotedToken s =
     (let t = takeWhile (\<lambda>c. c \<noteq> CHR 0x22) s in
      if t = [] \<or> length t = length s then None else Some (t, drop (length t + 1) s))"

abbreviation cannotQuery :: string where "cannotQuery \<equiv> ''Cannot query field '' @ [CHR 0x22]"
abbreviation didYouMean :: string where "didYouMean \<equiv> ''Did you mean '' @ [CHR 0x22]"

text \<open>The greedy \<open>.*\<close>, which does not cross a line end, takes the last suggestion.\<close>

fun lastSuggestion :: "string \<Rightarrow> string option" where
  "lastSuggestion s =
     (case (case s of [] \<Rightarrow> None | c # cs \<Rightarrow> if c = CHR 0x0A then None else lastSuggestion cs) of
        Some t \<Rightarrow> Some t
      | None \<Rightarrow> if hasPrefix s didYouMean then map_option fst (quotedToken (drop (length didYouMean) s)) else None)"

declare lastSuggestion.simps [simp del]

fun findCorrection :: "string \<Rightarrow> (string \<times> string) option" where
  "findCorrection [] = None"
| "findCorrection (c # cs) =
     (case (if hasPrefix (c # cs) cannotQuery
            then (case quotedToken (drop (length cannotQuery) (c # cs)) of
                    None \<Rightarrow> None
                  | Some (t, rest) \<Rightarrow> map_option (Pair t) (lastSuggestion rest))
            else None) of
        Some m \<Rightarrow> Some m | None \<Rightarrow> findCorrection cs)"

text \<open>\<open>\b\<close>: exactly one of the neighbouring characters is a word character.\<close>

definition wordAt :: "char option \<Rightarrow> bool" where
  "wordAt c = (case c of None \<Rightarrow> False | Some x \<Rightarrow> wordChar x)"

definition headOf :: "string \<Rightarrow> char option" where
  "headOf s = (case s of [] \<Rightarrow> None | c # cs \<Rightarrow> Some c)"

text \<open>Replacement of the literal \<open>old\<close> between word boundaries; \<open>prev\<close> is the preceding character.\<close>

function replaceToken :: "string \<Rightarrow> string \<Rightarrow> char option \<Rightarrow> string \<Rightarrow> string" where
  "replaceToken old new prev [] = []"
| "replaceToken old new prev (c # cs) =
     (if old \<noteq> [] \<and> hasPrefix (c # cs) old \<and> wordAt prev \<noteq> wordChar c
         \<and> wordChar (last old) \<noteq> wordAt (headOf (drop (length old) (c # cs)))
      then new @ replaceToken old new (Some (last old)) (drop (length old) (c # cs))
      else c # replaceToken old new (Some c) cs)"
  by pat_completeness auto
termination
  by (relation "measure (\<lambda>(old, new, prev, s). length s)") (auto simp: neq_Nil_conv)

definition attemptQueryCorrection :: "View \<Rightarrow> string \<Rightarrow> string" where
  "attemptQueryCorrection v errMsg =
     (case findCorrection errMsg of
        Some (incorrectField, suggestedField) \<Rightarrow> replaceToken incorrectField suggestedField None (vQuery v)
      | None \<Rightarrow> vQuery v)"

definition ConfigureLens :: "'db defraOps \<Rightarrow> string \<Rightarrow> View \<Rightarrow> 'db \<Rightarrow> view_error option \<times> View \<times> 'db" where
  "ConfigureLens ops lensCID v db =
     (if vQuery v = [] \<or> vSdl v = [] then (Some ErrViewQuerySDLRequired, v, db)
      else (case AddView ops db (vQuery v) (vSdl v) lensCID of
          (None, db1) \<Rightarrow> (None, v, db1)
        | (Some err, db1) \<Rightarrow>
            if contains err ''already exists'' then (None, v, db1)
            else
              (let correctedQuery = attemptQueryCorrection v err in
               if containsStr err ''Cannot query field'' \<and> containsStr err ''Did you mean'' \<and> correctedQuery \<noteq> vQuery v
               then
                 (let v' = v\<lparr>vQuery := correctedQuery\<rparr> in
                  case AddView ops db1 (vQuery v') (vSdl v') lensCID of
                    (None, db2) \<Rightarrow> (None, v', db2)
                  | (Some err2, db2) \<Rightarrow>
                      if contains err2 ''already exists'' then (None, v', db2)
                      else (Some (ErrAddViewCorrected err2), v', db2))
               else (Some (ErrAddView err), v, db1))))"

fun buildModules :: "(string \<Rightarrow> gfields option) \<Rightarrow> Lens list \<Rightarrow> LensModule list option" where
  "buildModules parseArgs [] = Some []"
| "buildModules parseArgs (l # ls) =
     (case (if lensArguments l = [] then Some [] else parseArgs (lensArguments l)) of
        None \<Rightarrow> None
      | Some args \<Rightarrow>
          map_option (Cons \<lparr>modPath = lensPath l, modInverse = False, modArguments = args\<rparr>) (buildModules parseArgs ls))"

definition BuildLensConfig :: "(string \<Rightarrow> gfields option) \<Rightarrow> View \<Rightarrow> LensConfig option" where
  "BuildLensConfig parseArgs v =
     map_option (\<lambda>ms. \<lparr>SourceCollectionVersionID = vQuery v, DestinationCollectionVersionID = vSdl v, lensModules = ms\<rparr>)
       (buildModules parseArgs (vLenses v))"

definition SetupLensInDefraDB ::
  "'db defraOps \<Rightarrow> (string \<Rightarrow> gfields option) \<Rightarrow> View \<Rightarrow> 'db \<Rightarrow> (view_error + string) \<times> 'db" where
  "SetupLensInDefraDB ops parseArgs v db =
     (if \<not> HasLenses v then (Inr [], db)
      else (case BuildLensConfig parseArgs v of
          None \<Rightarrow> (Inl ErrLensArguments, db)
        | Some cfg \<Rightarrow>
            (case AddLens ops db (lensModules cfg) of
               (None, db') \<Rightarrow> (Inl ErrAddLens, db') | (Some cid, db') \<Rightarrow> (Inr cid, db'))))"

subsection \<open>The substring search\<close>

lemma indexOfFrom_None: "indexOfFrom s p i = None \<longleftrightarrow> (\<forall>k \<ge> i. k + length p \<le> length s \<longrightarrow> take (length p) (drop k s) \<noteq> p)"
proof (induction s p i rule: indexOfFrom.induct)
  case (1 s p i)
  show ?case
  proof (cases "i + length p \<le> length s \<and> take (length p) (drop i s) \<noteq> p")
    case True
    then have "indexOfFrom s p i = indexOfFrom s p (i + 1)" by (subst indexOfFrom.simps) simp
    moreover have "(\<forall>k \<ge> i. Q k) \<longleftrightarrow> Q i \<and> (\<forall>k \<ge> i + 1. Q k)" for Q 
      by (metis Suc_eq_plus1 Suc_leD le_refl not_less_eq_eq antisym)
    ultimately show ?thesis using 1 True by simp
  next
    case False
    then show ?thesis by (subst indexOfFrom.simps) auto
  qed
qed

lemma containsStr_at: "containsStr s p \<longleftrightarrow> (\<exists>k. k + length p \<le> length s \<and> take (length p) (drop k s) = p)"
proof
  assume "containsStr s p"
  then obtain u v where "s = u @ p @ v" by (auto simp: containsStr_iff)
  then have "length u + length p \<le> length s \<and> take (length p) (drop (length u) s) = p" by simp
  then show "\<exists>k. k + length p \<le> length s \<and> take (length p) (drop k s) = p" by blast
next
  assume "\<exists>k. k + length p \<le> length s \<and> take (length p) (drop k s) = p"
  then obtain k where k: "take (length p) (drop k s) = p" by blast
  have "s = take k s @ p @ drop (length p) (drop k s)" by (metis append_take_drop_id k)
  then show "containsStr s p" unfolding containsStr_iff by blast
qed

text \<open>The hand-written search is \<open>strings.Contains\<close>.\<close>

lemma contains_eq: "contains s p = containsStr s p"
proof
  assume "contains s p"
  then consider "s = p" | "take (length p) s = p" "length p \<le> length s"
    | "drop (length s - length p) s = p" "length p \<le> length s" | "indexOf s p \<noteq> None"
    by (auto simp: contains_def)
  then show "containsStr s p"
  proof cases
    case 3
    then show ?thesis unfolding containsStr_at by (intro exI [of _ "length s - length p"]) simp
  next
    case 4
    then show ?thesis unfolding containsStr_at by (auto simp: indexOf_def indexOfFrom_None)
  qed (auto simp: containsStr_at intro: exI [of _ 0])
next
  assume c: "containsStr s p"
  then obtain k where k: "k + length p \<le> length s" "take (length p) (drop k s) = p" by (auto simp: containsStr_at)
  then have "indexOf s p \<noteq> None" by (auto simp: indexOf_def indexOfFrom_None)
  moreover have "length p = length s \<Longrightarrow> s = p" using k by simp
  ultimately show "contains s p" using k by (auto simp: contains_def)
qed

subsection \<open>Query correction on words\<close>

text \<open>A string as maximal runs of word characters and single other characters.\<close>

fun tokenize :: "string \<Rightarrow> string list" where
  "tokenize [] = []"
| "tokenize (c # cs) =
     (if wordChar c
      then (case tokenize cs of
              (d # ds) # ts \<Rightarrow> if wordChar d then (c # d # ds) # ts else [c] # (d # ds) # ts
            | ts \<Rightarrow> [c] # ts)
      else [c] # tokenize cs)"

lemma tokenize_append_word:
  assumes "list_all wordChar w" "w \<noteq> []" "headOf s = None \<or> \<not> wordAt (headOf s)"
  shows "tokenize (w @ s) = w # tokenize s"
  using assms
proof (induction w)
  case (Cons c w)
  show ?case
  proof (cases w)
    case Nil
    with Cons.prems show ?thesis by (cases s) (auto simp: headOf_def wordAt_def)
  next
    case (Cons d w')
    with Cons.IH Cons.prems show ?thesis by simp
  qed
qed simp

lemma replaceToken_word_skip:
  assumes "list_all wordChar w" "wordAt prev" "list_all wordChar old" "old \<noteq> []"
  shows "replaceToken old new prev (w @ s) = w @ replaceToken old new (if w = [] then prev else Some (last w)) s"
  using assms
proof (induction w arbitrary: prev)
  case (Cons c w)
  then have "replaceToken old new prev (c # w @ s) = c # replaceToken old new (Some c) (w @ s)" by simp
  with Cons show ?case by (simp add: wordAt_def)
qed simp

lemma replaced_prefix_is_token:
  assumes "list_all wordChar old" "hasPrefix s old" "\<not> wordAt (headOf (drop (length old) s))"
  shows "takeWhile wordChar s = old"
proof -
  have s: "s = old @ drop (length old) s" using assms(2) hasPrefixD by blast
  have "takeWhile wordChar (old @ drop (length old) s) = old"
    using assms(1,3) by (cases "drop (length old) s") (auto simp: headOf_def wordAt_def list_all_iff takeWhile_append)
  then show ?thesis using s by metis
qed

lemma replaceToken_tokens:
  assumes "list_all wordChar old" "old \<noteq> []" "\<not> (wordAt prev \<and> wordAt (headOf s))"
  shows "replaceToken old new prev s = concat (map (\<lambda>t. if t = old then new else t) (tokenize s))"
  using assms(3)
proof (induction "length s" arbitrary: s prev rule: less_induct)
  case less
  show ?case
  proof (cases s)
    case (Cons c cs)
    show ?thesis
    proof (cases "wordChar c")
      case False
      have h: "\<not> hasPrefix (c # cs) old" using assms(1,2) False by (cases old) (auto simp: hasPrefix_def)
      have "old \<noteq> [c]" using assms(1) False by auto
      moreover have "replaceToken old new (Some c) cs = concat (map (\<lambda>t. if t = old then new else t) (tokenize cs))"
        using less.hyps [of cs "Some c"] Cons False by (simp add: wordAt_def)
      ultimately show ?thesis using Cons False h by simp
    next
      case True
      define w where "w = takeWhile wordChar s"
      define r where "r = dropWhile wordChar s"
      have "r = [] \<or> \<not> wordChar (hd r)" using hd_dropWhile [of wordChar s] by (auto simp: r_def)
      then have "\<not> wordAt (headOf r)" by (cases r) (auto simp: headOf_def wordAt_def)
      with True Cons have s: "s = w @ r" "w \<noteq> []" "list_all wordChar w" "\<not> wordAt (headOf r)"
        by (auto simp: w_def r_def list_all_iff dest: set_takeWhileD)
      obtain w' where w': "w = c # w'" using s Cons by (cases w) auto
      have prev: "\<not> wordAt prev" using less.prems Cons True by (simp add: headOf_def wordAt_def)
      have tok: "tokenize s = w # tokenize r" using tokenize_append_word s by simp
      have IH: "replaceToken old new p r = concat (map (\<lambda>t. if t = old then new else t) (tokenize r))" for p
        using less.hyps [of r p] s by simp
      have wl: "wordChar (last old)" using assms(1,2) by (simp add: list_all_iff)
      show ?thesis
      proof (cases "w = old")
        case eq: True
        have "replaceToken old new prev (c # w' @ r) = new @ replaceToken old new (Some (last old)) r"
          using prev True s(4) wl eq w' assms(2) by (auto simp: hasPrefix_def)
        then have "replaceToken old new prev s = new @ replaceToken old new (Some (last old)) r" using s(1) w' by (metis append_Cons)
        with IH tok eq show ?thesis by simp
      next
        case neq: False
        have "\<not> (hasPrefix s old \<and> \<not> wordAt (headOf (drop (length old) s)))"
          using replaced_prefix_is_token [OF assms(1), of s] neq by (auto simp: w_def)
        moreover have "s = c # w' @ r" using s(1) w' by simp
        ultimately have "\<not> (hasPrefix (c # w' @ r) old \<and> \<not> wordAt (headOf (drop (length old) (c # w' @ r))))"
          by (simp only: not_False_eq_True)
        then have "replaceToken old new prev (c # w' @ r) = c # replaceToken old new (Some c) (w' @ r)"
          using wl by auto
        also have "\<dots> = c # w' @ replaceToken old new (if w' = [] then Some c else Some (last w')) r"
          using replaceToken_word_skip [of w' "Some c" old new r] s(3) w' assms True by (simp add: wordAt_def)
        finally have "replaceToken old new prev s = w @ replaceToken old new (if w' = [] then Some c else Some (last w')) r"
          using s(1) w' by (metis append_Cons)
        with IH tok neq show ?thesis by simp
      qed
    qed
  qed simp
qed

lemma concat_tokenize: "concat (tokenize s) = s"
  by (induction s) (auto split: list.splits if_splits)

subsection \<open>Inline WASM to files\<close>

lemma hexDigit_not_underscore: "n < 16 \<Longrightarrow> hexDigit n \<noteq> CHR ''_''"
proof -
  have "fromHexChar (CHR ''_'') = None" by (simp add: fromHexChar_def)
  then show "n < 16 \<Longrightarrow> hexDigit n \<noteq> CHR ''_''" by (metis fromHexChar_hexDigit option.distinct(1))
qed

lemma hexEncode_no_underscore: "CHR ''_'' \<notin> set (hexEncode bs)"
  by (induction bs) (auto simp: hexDigit_not_underscore byte_halves eq_commute [of "CHR ''_''"])

lemma wasmFileName_index: "wasmFileName sha p i = wasmFileName sha q j \<Longrightarrow> i = j"
proof -
  have d: "dropWhile (\<lambda>c. c \<noteq> CHR ''_'') (wasmFileName sha p i) = ''_'' @ showNat i @ ''.wasm''" for p i
    unfolding wasmFileName_def using hexEncode_no_underscore by (subst dropWhile_append2) auto
  assume "wasmFileName sha p i = wasmFileName sha q j"
  with d [of p i] d [of q j] show "i = j" using showNat_inj by simp
qed

abbreviation lensFile :: "(string \<Rightarrow> byte list) \<Rightarrow> string \<Rightarrow> Lens \<Rightarrow> nat \<Rightarrow> string" where
  "lensFile sha dir l i \<equiv> dir @ ''/'' @ wasmFileName sha (lensPath l) i"

text \<open>What the conversion did to one lens: nothing, or its bytes are on disk at its new path.\<close>

definition posted :: "(string \<Rightarrow> byte list) \<Rightarrow> string \<Rightarrow> files \<Rightarrow> nat \<Rightarrow> Lens \<Rightarrow> Lens \<Rightarrow> bool" where
  "posted sha dir fs i l l' \<longleftrightarrow>
     (if located (lensPath l) then l' = l
      else l' = l\<lparr>lensPath := ''file://'' @ lensFile sha dir l i\<rparr>
        \<and> (\<exists>w. b64Decode (lensPath l) = Some w \<and> isValidWASM w \<and> fs (lensFile sha dir l i) = Some w))"

lemma postLenses_other_files:
  "postLenses sha wr dir i ls fs = (e, ls', fs') \<Longrightarrow> \<forall>j \<ge> i. \<forall>l. f \<noteq> lensFile sha dir l j \<Longrightarrow> fs' f = fs f"
proof (induction ls arbitrary: i fs ls' fs')
  case (Cons l ls)
  have later: "\<forall>j \<ge> i + 1. \<forall>l. f \<noteq> lensFile sha dir l j" using Cons.prems(2) by simp
  have here: "f \<noteq> lensFile sha dir l i" using Cons.prems(2) by blast
  have ih: "fs2 f = fs1 f" if "postLenses sha wr dir (i + 1) ls fs1 = (e, ls1, fs2)" for fs1 ls1 fs2
    using Cons.IH [OF that later] .
  show ?case using Cons.prems(1) here
    by (auto simp: Let_def dest!: ih [simplified] split: if_splits option.splits prod.splits)
qed simp

lemma postLenses_spec:
  "postLenses sha wr dir i ls fs = (None, ls', fs') \<Longrightarrow>
     length ls' = length ls \<and> (\<forall>k < length ls. posted sha dir fs' (i + k) (ls ! k) (ls' ! k))"
proof (induction ls arbitrary: i fs ls')
  case (Cons l ls)
  obtain l' ls1 where ls': "ls' = l' # ls1"
    using Cons.prems by (auto simp: Let_def split: if_splits option.splits prod.splits)
  have "posted sha dir fs' i l l' \<and> (\<exists>fs1. postLenses sha wr dir (i + 1) ls fs1 = (None, ls1, fs'))"
  proof (cases "located (lensPath l)")
    case True
    with Cons.prems ls' show ?thesis by (auto simp: posted_def split: prod.splits)
  next
    case False
    with Cons.prems ls' obtain w where w: "b64Decode (lensPath l) = Some w" "isValidWASM w"
      "l' = l\<lparr>lensPath := ''file://'' @ lensFile sha dir l i\<rparr>"
      "postLenses sha wr dir (i + 1) ls (fs(lensFile sha dir l i \<mapsto> w)) = (None, ls1, fs')"
      by (auto simp: Let_def split: if_splits option.splits prod.splits)
    have "fs' (lensFile sha dir l i) = Some w"
      using postLenses_other_files [OF w(4), of "lensFile sha dir l i"] wasmFileName_index by fastforce
    with w False show ?thesis by (auto simp: posted_def)
  qed
  then obtain fs1 where p: "posted sha dir fs' i l l'" and r: "postLenses sha wr dir (i + 1) ls fs1 = (None, ls1, fs')" by blast
  from Cons.IH [OF r] have r': "length ls1 = length ls" "\<forall>k < length ls. posted sha dir fs' (i + 1 + k) (ls ! k) (ls1 ! k)" by auto
  have "posted sha dir fs' (i + k) ((l # ls) ! k) (ls' ! k)" if "k < length (l # ls)" for k
    using that p r' ls' by (cases k) auto
  with ls' r' show ?case by simp
qed simp

text \<open>
  After a successful conversion no lens holds inline data: each lens that held some now
  names a file of its own whose content is exactly the decoded WASM module, all other lenses
  are unchanged, and no other file was touched.
\<close>

theorem post_wasm_exact:
  assumes "PostWasmToFile sha256 writable (Some dir) v fs = (None, v', fs')"
  shows "\<not> needsWasmConversion v' \<and> length (vLenses v') = length (vLenses v)
    \<and> (\<forall>k < length (vLenses v). posted sha256 dir fs' k (vLenses v ! k) (vLenses v' ! k))
    \<and> (\<forall>f. (\<forall>j l. f \<noteq> lensFile sha256 dir l j) \<longrightarrow> fs' f = fs f)"
proof -
  obtain ls where p: "postLenses sha256 writable dir 0 (vLenses v) fs = (None, ls, fs')" and v': "v' = v\<lparr>vLenses := ls\<rparr>"
    using assms by (auto simp: PostWasmToFile_def split: prod.splits)
  note sp = postLenses_spec [OF p]
  have fl: "located (''file://'' @ x)" for x by (simp add: located_def hasPrefix_def)
  have "located (lensPath (ls ! k))" if "k < length ls" for k
  proof -
    have "posted sha256 dir fs' k (vLenses v ! k) (ls ! k)" using sp that by simp
    then show ?thesis using fl by (cases "located (lensPath (vLenses v ! k))") (simp_all add: posted_def)
  qed
  then have "\<not> needsWasmConversion v'" using v' by (auto simp: needsWasmConversion_def list_ex_iff in_set_conv_nth)
  with sp v' postLenses_other_files [OF p] show ?thesis by simp
qed

definition demoLens :: Lens where
  "demoLens = \<lparr>lensPath = ''AGFzbQEAAAA='', lensArguments = []\<rparr>"

definition demoView :: View where
  "demoView = \<lparr>vName = ''V'', vContractAddress = ''0x1'', vQuery = ''Log { inputData }'', vSdl = ''type V @x'', vLenses = [demoLens]\<rparr>"

theorem post_wasm_exact_witness:
  "\<exists>v' fs'. PostWasmToFile (\<lambda>s. [1, 2]) (\<lambda>p. True) (Some ''/r'') demoView Map.empty = (None, v', fs')
     \<and> fs' ''/r/0102_0.wasm'' = Some [0, 0x61, 0x73, 0x6D, 1, 0, 0, 0]"
proof -
  have d: "b64Decode ''AGFzbQEAAAA='' = Some [0, 0x61, 0x73, 0x6D, 1, 0, 0, 0]" by code_simp
  have f: "lensFile (\<lambda>s. [1, 2]) ''/r'' demoLens 0 = ''/r/0102_0.wasm''" by code_simp
  have n: "\<not> located ''AGFzbQEAAAA=''" by code_simp
  obtain v' fs' where r: "PostWasmToFile (\<lambda>s. [1, 2]) (\<lambda>p. True) (Some ''/r'') demoView Map.empty = (None, v', fs')"
    by (simp add: PostWasmToFile_def demoView_def demoLens_def n d isValidWASM_def Let_def)
  from post_wasm_exact [OF r] have "posted (\<lambda>s. [1, 2]) ''/r'' fs' 0 demoLens (vLenses v' ! 0)"
    by (simp add: demoView_def)
  then have "fs' ''/r/0102_0.wasm'' = Some [0, 0x61, 0x73, 0x6D, 1, 0, 0, 0]"
    using d n f by (auto simp: posted_def demoLens_def)
  with r show ?thesis by blast
qed

end
