(* ===== verification/Snapshot_Import.thy ===== *)
theory Snapshot_Import
  imports Attestation_Record View_Model
begin

text \<open>
  \<open>pkg/snapshot\<close> (\<open>client.go\<close>, \<open>importer.go\<close>) and \<open>pkg/host/snapshot_bootstrap.go\<close>: the list of snapshots of
  an indexer, their download, the verification of signature and Merkle root, the import into DefraDB
  and the attestation of what was imported. The HTTP exchange, gzip, JSON, SHA-256, the key
  library and DefraDB are arguments.
\<close>

record SignatureData =
  sdVersion :: int
  sdSnapshotFile :: string
  sdStartBlock :: int
  sdEndBlock :: int
  sdMerkleRoot :: string
  sdBlockCount :: int
  sdSignatureType :: string
  sdSignatureIdentity :: string
  sdSignatureValue :: string
  sdCreatedAt :: string
  sdBlockSigMerkleRoots :: "string list"

record Info =
  Filename :: string
  infoStart :: int
  infoEnd :: int
  SizeBytes :: int
  Signed :: bool
  infoSignature :: "SignatureData option"

text \<open>DefraDB's \<open>CollectionFieldMapping\<close>; the map of fields in the order Go happens to iterate it.\<close>

record CollectionFieldMapping =
  cfCollectionID :: string
  cfShortID :: nat
  cfFields :: "(nat \<times> string) list"

record kvImportFieldEntry =
  feName :: string
  feFieldID :: string
  feShortID :: nat

record kvImportFieldMapping =
  kmCollectionName :: string
  kmShortID :: nat
  kmFields :: "kvImportFieldEntry list"

record ImportResult =
  irStart :: int
  irEnd :: int

record kvSnapshotHeader =
  shMagic :: string
  shVersion :: int
  shStart :: int
  shEnd :: int
  shCreatedAt :: string
  shRoots :: "string list"
  shMappings :: "CollectionFieldMapping list"

datatype snap_error =
    ErrListRequest | ErrListSnapshotsStatus nat | ErrDecodeList
  | ErrDownloadRequest | ErrDownloadSnapshotStatus nat | ErrCreateFile | ErrWriteSnapshot
  | ErrDecodeRoot | ErrDecodeSigValue | ErrUnsupportedSigType string | ErrParseKey | ErrVerify | ErrInvalidSignature
  | ErrOpenSnapshot | ErrGzip | ErrReadHeaderLength | ErrReadHeader | ErrParseHeader
  | ErrInvalidSnapshotMagic string | ErrNoBlockSignatures
  | ErrDecodeBlockSigRoot | ErrMerkleRootMismatch | ErrBlockSigCountMismatch | ErrBlockSigRootMismatch nat
  | ErrExpectedOneFieldMapping nat | ErrResolveCollection string | ErrCollectionNotFound string | ErrImport
  | ErrRebuild string | ErrMissingSignature

record snapTools =
  sha256sum :: "byte list \<Rightarrow> byte list"
  gunzip :: "byte list \<Rightarrow> byte list option"
  headerJSON :: "byte list \<Rightarrow> kvSnapshotHeader option"

record 'db snapDB =
  dbCollections :: "'db \<Rightarrow> string \<Rightarrow> string list option"
  dbImportMapped :: "'db \<Rightarrow> byte list \<Rightarrow> kvImportFieldMapping \<Rightarrow> nat option \<times> 'db"
  dbImportRaw :: "'db \<Rightarrow> byte list \<Rightarrow> nat option \<times> 'db"
  dbRebuild :: "'db \<Rightarrow> string \<Rightarrow> bool \<times> 'db"
  dbBlockNumbers :: "'db \<Rightarrow> string \<Rightarrow> int list option"

subsection \<open>The client\<close>

datatype listOutcome = ListFailed | ListResponse nat "Info list option"

definition ListSnapshots :: "listOutcome \<Rightarrow> snap_error + Info list" where
  "ListSnapshots resp =
     (case resp of
        ListFailed \<Rightarrow> Inl ErrListRequest
      | ListResponse status body \<Rightarrow>
          if status \<noteq> 200 then Inl (ErrListSnapshotsStatus status)
          else (case body of None \<Rightarrow> Inl ErrDecodeList | Some infos \<Rightarrow> Inr infos))"

text \<open>The response: its status, the bytes received, whether the file could be created and the copy came in full.\<close>

datatype downloadOutcome = DownloadFailed | DownloadResponse nat "byte list" bool bool

definition DownloadSnapshot :: "downloadOutcome \<Rightarrow> string \<Rightarrow> files \<Rightarrow> snap_error option \<times> files" where
  "DownloadSnapshot resp destPath fs =
     (case resp of
        DownloadFailed \<Rightarrow> (Some ErrDownloadRequest, fs)
      | DownloadResponse status body created whole \<Rightarrow>
          if status \<noteq> 200 then (Some (ErrDownloadSnapshotStatus status), fs)
          else if \<not> created then (Some ErrCreateFile, fs)
          else if \<not> whole then (Some ErrWriteSnapshot, fs(destPath := None))
          else (None, fs(destPath \<mapsto> body)))"

subsection \<open>Verification\<close>

definition verifySignature :: "('pk, 'cid) crypto \<Rightarrow> SignatureData \<Rightarrow> snap_error option" where
  "verifySignature K sig =
     (case hexDecode (sdMerkleRoot sig) of None \<Rightarrow> Some ErrDecodeRoot
      | Some merkleRootBytes \<Rightarrow>
     (case hexDecode (sdSignatureValue sig) of None \<Rightarrow> Some ErrDecodeSigValue
      | Some sigValueBytes \<Rightarrow>
     (case signatureKeyType (sdSignatureType sig) of None \<Rightarrow> Some (ErrUnsupportedSigType (sdSignatureType sig))
      | Some kt \<Rightarrow>
     (case PublicKeyFromString K kt (sdSignatureIdentity sig) of None \<Rightarrow> Some ErrParseKey
      | Some pubKey \<Rightarrow>
     (case pkVerify K pubKey merkleRootBytes sigValueBytes of None \<Rightarrow> Some ErrVerify
      | Some valid \<Rightarrow> if \<not> valid then Some ErrInvalidSignature else None)))))"

text \<open>One level of the tree: the hashes two by two, a last one alone is kept.\<close>

fun pairHashes :: "(byte list \<Rightarrow> byte list) \<Rightarrow> byte list list \<Rightarrow> byte list list" where
  "pairHashes sha (a # b # hs) = sha (a @ b) # pairHashes sha hs"
| "pairHashes sha hs = hs"

lemma length_pairHashes: "length (pairHashes sha hs) = (length hs + 1) div 2"
  by (induction sha hs rule: pairHashes.induct) auto

function merkleLoop :: "(byte list \<Rightarrow> byte list) \<Rightarrow> byte list list \<Rightarrow> byte list list" where
  "merkleLoop sha hashes = (if length hashes > 1 then merkleLoop sha (pairHashes sha hashes) else hashes)"
  by pat_completeness auto
termination by (relation "measure (\<lambda>(sha, hashes). length hashes)") (auto simp: length_pairHashes)

declare merkleLoop.simps [simp del]

definition computeSnapshotMerkleRoot :: "(byte list \<Rightarrow> byte list) \<Rightarrow> byte list list \<Rightarrow> byte list" where
  "computeSnapshotMerkleRoot sha roots =
     (if roots = [] then [] else merkleLoop sha (map sha roots) ! 0)"

fun decodeRoots :: "string list \<Rightarrow> byte list list option" where
  "decodeRoots [] = Some []"
| "decodeRoots (r # rs) =
     (case hexDecode r of None \<Rightarrow> None | Some b \<Rightarrow> map_option (Cons b) (decodeRoots rs))"

fun compareRoots :: "nat \<Rightarrow> string list \<Rightarrow> string list \<Rightarrow> snap_error option" where
  "compareRoots i (s # ss) (h # hs) = (if s \<noteq> h then Some (ErrBlockSigRootMismatch i) else compareRoots (i + 1) ss hs)"
| "compareRoots i _ _ = None"

definition verifyHeaderAgainstSig :: "(byte list \<Rightarrow> byte list) \<Rightarrow> kvSnapshotHeader \<Rightarrow> SignatureData \<Rightarrow> snap_error option" where
  "verifyHeaderAgainstSig sha header sig =
     (case decodeRoots (shRoots header) of
        None \<Rightarrow> Some ErrDecodeBlockSigRoot
      | Some roots \<Rightarrow>
          if hexEncode (computeSnapshotMerkleRoot sha roots) \<noteq> sdMerkleRoot sig then Some ErrMerkleRootMismatch
          else if length (sdBlockSigMerkleRoots sig) = 0 then None
          else if length (sdBlockSigMerkleRoots sig) \<noteq> length (shRoots header) then Some ErrBlockSigCountMismatch
          else compareRoots 0 (sdBlockSigMerkleRoots sig) (shRoots header))"

subsection \<open>Reading and importing\<close>

definition bigEndian32 :: "byte list \<Rightarrow> nat" where
  "bigEndian32 bs = foldl (\<lambda>n b. 256 * n + unat b) 0 bs"

text \<open>The header and what is left of the stream.\<close>

definition readSnapshotHeader :: "snapTools \<Rightarrow> byte list \<Rightarrow> snap_error + (kvSnapshotHeader \<times> byte list)" where
  "readSnapshotHeader T stream =
     (if length stream < 4 then Inl ErrReadHeaderLength
      else
        (let n = bigEndian32 (take 4 stream); rest = drop 4 stream in
         if length rest < n then Inl ErrReadHeader
         else (case headerJSON T (take n rest) of
             None \<Rightarrow> Inl ErrParseHeader
           | Some header \<Rightarrow>
               if shMagic header \<noteq> ''DFKV'' then Inl (ErrInvalidSnapshotMagic (shMagic header))
               else if length (shRoots header) = 0 then Inl ErrNoBlockSignatures
               else Inr (header, drop n rest))))"

definition openAndReadHeader :: "snapTools \<Rightarrow> files \<Rightarrow> string \<Rightarrow> snap_error + (kvSnapshotHeader \<times> byte list)" where
  "openAndReadHeader T fs path =
     (case fs path of
        None \<Rightarrow> Inl ErrOpenSnapshot
      | Some bytes \<Rightarrow> (case gunzip T bytes of None \<Rightarrow> Inl ErrGzip | Some stream \<Rightarrow> readSnapshotHeader T stream))"

definition buildImportMapping :: "'db snapDB \<Rightarrow> 'db \<Rightarrow> CollectionFieldMapping list \<Rightarrow> snap_error + kvImportFieldMapping" where
  "buildImportMapping D db mappings =
     (case mappings of
        [m] \<Rightarrow>
          (case dbCollections D db (cfCollectionID m) of
             None \<Rightarrow> Inl (ErrResolveCollection (cfCollectionID m))
           | Some [] \<Rightarrow> Inl (ErrCollectionNotFound (cfCollectionID m))
           | Some (name # _) \<Rightarrow>
               Inr \<lparr>kmCollectionName = name, kmShortID = cfShortID m,
                    kmFields = map (\<lambda>(shortID, fieldID). \<lparr>feName = [], feFieldID = fieldID, feShortID = shortID\<rparr>) (cfFields m)\<rparr>)
      | _ \<Rightarrow> Inl (ErrExpectedOneFieldMapping (length mappings)))"

definition importKVs :: "'db snapDB \<Rightarrow> byte list \<Rightarrow> kvSnapshotHeader \<Rightarrow> 'db \<Rightarrow> (snap_error + nat) \<times> 'db" where
  "importKVs D payload header db =
     (let done = (\<lambda>(r, db'). (case r of None \<Rightarrow> Inl ErrImport | Some n \<Rightarrow> Inr n, db')) in
      if length (shMappings header) > 0
      then (case buildImportMapping D db (shMappings header) of
          Inl e \<Rightarrow> (Inl e, db)
        | Inr mapping \<Rightarrow> done (dbImportMapped D db payload mapping))
      else done (dbImportRaw D db payload))"

text \<open>\<open>ImportPanic\<close>: the log line after the import slices the identity to 16 bytes.\<close>

datatype importOutcome = ImportErr snap_error | ImportPanic | Imported ImportResult

definition ImportWithVerification ::
  "('pk, 'cid) crypto \<Rightarrow> snapTools \<Rightarrow> 'db snapDB \<Rightarrow> files \<Rightarrow> string \<Rightarrow> SignatureData \<Rightarrow> 'db \<Rightarrow> importOutcome \<times> 'db" where
  "ImportWithVerification K T D fs path sig db =
     (case verifySignature K sig of
        Some e \<Rightarrow> (ImportErr e, db)
      | None \<Rightarrow>
     (case openAndReadHeader T fs path of
        Inl e \<Rightarrow> (ImportErr e, db)
      | Inr (header, payload) \<Rightarrow>
     (case verifyHeaderAgainstSig (sha256sum T) header sig of
        Some e \<Rightarrow> (ImportErr e, db)
      | None \<Rightarrow>
     (case importKVs D payload header db of
        (Inl e, db') \<Rightarrow> (ImportErr e, db')
      | (Inr n, db') \<Rightarrow>
          if length (sdSignatureIdentity sig) < 16 then (ImportPanic, db')
          else (Imported \<lparr>irStart = shStart header, irEnd = shEnd header\<rparr>, db')))))"

fun RebuildAllIndexes :: "'db snapDB \<Rightarrow> string list \<Rightarrow> 'db \<Rightarrow> snap_error option \<times> 'db" where
  "RebuildAllIndexes D [] db = (None, db)"
| "RebuildAllIndexes D (c # cs) db =
     (case dbRebuild D db c of (True, db') \<Rightarrow> RebuildAllIndexes D cs db' | (False, db') \<Rightarrow> (Some (ErrRebuild c), db'))"

subsection \<open>The bootstrap\<close>

record BlockRange =
  rangeStart :: int
  rangeEnd :: int

abbreviation AllCollections :: "string list" where
  "AllCollections \<equiv> [''Ethereum__Mainnet__Block'', ''Ethereum__Mainnet__Transaction'', ''Ethereum__Mainnet__AccessListEntry'',
     ''Ethereum__Mainnet__Log'', ''Ethereum__Mainnet__BlockSignature'']"

definition wanted :: "int \<Rightarrow> int \<Rightarrow> BlockRange \<Rightarrow> Info \<Rightarrow> bool" where
  "wanted existingMin existingMax r snap \<longleftrightarrow>
     \<not> (infoEnd snap < rangeStart r \<or> infoStart snap > rangeEnd r) \<and> Signed snap
     \<and> \<not> (existingMax > 0 \<and> infoStart snap \<ge> existingMin \<and> infoEnd snap \<le> existingMax)"

text \<open>
  \<open>sort.Slice\<close> leaves the order of snapshots with the same start open; the stable sort stands for
  it, and what is proved uses only the order of the starts and the snapshots in the result.
\<close>

definition findCoveringSnapshots :: "Info list \<Rightarrow> BlockRange list \<Rightarrow> int \<Rightarrow> int \<Rightarrow> Info list" where
  "findCoveringSnapshots available ranges existingMin existingMax =
     sort_key infoStart (dedupOn Filename [] (concat (map (\<lambda>r. filter (wanted existingMin existingMax r) available) ranges)))"

definition getExistingBlockRange :: "'db snapDB \<Rightarrow> 'db \<Rightarrow> int \<times> int" where
  "getExistingBlockRange D db =
     (case dbBlockNumbers D db ''query { Ethereum__Mainnet__Block(order: {number: DESC}, limit: 1) { number } }'' of
        None \<Rightarrow> (0, 0)
      | Some [] \<Rightarrow> (0, 0)
      | Some (maxBlock # _) \<Rightarrow>
          (case dbBlockNumbers D db ''query { Ethereum__Mainnet__Block(order: {number: ASC}, limit: 1) { number } }'' of
             None \<Rightarrow> (0, maxBlock)
           | Some [] \<Rightarrow> (0, maxBlock)
           | Some (minBlock # _) \<Rightarrow> (minBlock, maxBlock)))"

definition resolveNeededSnapshots :: "listOutcome \<Rightarrow> 'db snapDB \<Rightarrow> BlockRange list \<Rightarrow> 'db \<Rightarrow> snap_error + Info list" where
  "resolveNeededSnapshots resp D ranges db =
     (case ListSnapshots resp of
        Inl e \<Rightarrow> Inl e
      | Inr available \<Rightarrow>
          if available = [] then Inr []
          else (case getExistingBlockRange D db of (lo, hi) \<Rightarrow> Inr (findCoveringSnapshots available ranges lo hi)))"

definition createSnapshotAttestation :: "('doc, 'db) docstore \<Rightarrow> SignatureData \<Rightarrow> 'db \<Rightarrow> 'db" where
  "createSnapshotAttestation S sig db =
     (if length (sdBlockSigMerkleRoots sig) = 0 then db
      else snd (PostAttestationRecord S
        \<lparr>AttestedDocID = ''snapshot:'' @ showInt (sdStartBlock sig) @ ''-'' @ showInt (sdEndBlock sig),
         SourceDocIDs = [sdSignatureIdentity sig], recCIDs = sdBlockSigMerkleRoots sig, DocType = ''Snapshot'', VoteCount = 1\<rparr> db))"

text \<open>\<open>filepath.Join\<close> onto an absolute directory: the elements are cleaned, \<open>..\<close> removes one.\<close>

fun cleanElems :: "string list \<Rightarrow> string list \<Rightarrow> string list" where
  "cleanElems acc [] = rev acc"
| "cleanElems acc (e # es) =
     cleanElems (if e = [] \<or> e = ''.'' then acc else if e = ''..'' then tl acc else e # acc) es"

definition joinPath :: "string \<Rightarrow> string \<Rightarrow> string" where
  "joinPath dir name =
     (let es = cleanElems [] (splitByte (CHR ''/'') dir @ splitByte (CHR ''/'') name) in
      if es = [] then ''/'' else concat (map (\<lambda>e. CHR ''/'' # e) es))"

record ('pk, 'cid, 'doc, 'db) snapEnv =
  seCrypto :: "('pk, 'cid) crypto"
  seTools :: snapTools
  seDB :: "'db snapDB"
  seDocs :: "('doc, 'db) docstore"
  seTmpDir :: string

datatype singleOutcome = SingleErr snap_error | SinglePanic | SingleOk ImportResult

definition importSingleSnapshot ::
  "('pk, 'cid, 'doc, 'db) snapEnv \<Rightarrow> downloadOutcome \<Rightarrow> Info \<Rightarrow> files \<times> 'db \<Rightarrow> singleOutcome \<times> files \<times> 'db" where
  "importSingleSnapshot E resp snap st =
     (case st of (fs, db) \<Rightarrow>
      (case infoSignature snap of
         None \<Rightarrow> (SingleErr ErrMissingSignature, fs, db)
       | Some sig \<Rightarrow>
           (let tmpPath = joinPath (seTmpDir E) (Filename snap) in
            case DownloadSnapshot resp tmpPath fs of
              (Some e, fs1) \<Rightarrow> (SingleErr e, fs1, db)
            | (None, fs1) \<Rightarrow>
                (case ImportWithVerification (seCrypto E) (seTools E) (seDB E) fs1 tmpPath sig db of
                   (ImportPanic, db1) \<Rightarrow> (SinglePanic, fs1, db1)
                 | (ImportErr e, db1) \<Rightarrow> (SingleErr e, fs1(tmpPath := None), db1)
                 | (Imported r, db1) \<Rightarrow> (SingleOk r, fs1(tmpPath := None), createSnapshotAttestation (seDocs E) sig db1)))))"

text \<open>The loop over the snapshots, each with its response; \<open>None\<close> is a panic.\<close>

fun importSnapshots ::
  "('pk, 'cid, 'doc, 'db) snapEnv \<Rightarrow> (Info \<times> downloadOutcome) list \<Rightarrow> files \<times> 'db \<Rightarrow> nat option \<times> files \<times> 'db" where
  "importSnapshots E [] st = (Some 0, st)"
| "importSnapshots E ((snap, resp) # snaps) st =
     (case importSingleSnapshot E resp snap st of
        (SinglePanic, st') \<Rightarrow> (None, st')
      | (SingleErr e, st') \<Rightarrow> importSnapshots E snaps st'
      | (SingleOk r, st') \<Rightarrow> (case importSnapshots E snaps st' of (n, st'') \<Rightarrow> (map_option Suc n, st'')))"

definition bootstrapFromSnapshots ::
  "('pk, 'cid, 'doc, 'db) snapEnv \<Rightarrow> listOutcome \<Rightarrow> (Info \<Rightarrow> downloadOutcome) \<Rightarrow> BlockRange list \<Rightarrow> files \<times> 'db \<Rightarrow> nat option \<times> files \<times> 'db" where
  "bootstrapFromSnapshots E resp download ranges st =
     (case resolveNeededSnapshots resp (seDB E) ranges (snd st) of
        Inl e \<Rightarrow> (Some 0, st)
      | Inr needed \<Rightarrow>
          (case importSnapshots E (map (\<lambda>s. (s, download s)) needed) st of
             (None, st') \<Rightarrow> (None, st')
           | (Some n, fs, db) \<Rightarrow>
               (Some n, fs, if n > 0 then snd (RebuildAllIndexes (seDB E) AllCollections db) else db)))"

subsection \<open>The Merkle tree\<close>

definition collision :: "(byte list \<Rightarrow> byte list) \<Rightarrow> bool" where
  "collision sha \<longleftrightarrow> (\<exists>a b. a \<noteq> b \<and> sha a = sha b)"

definition sha_ok :: "(byte list \<Rightarrow> byte list) \<Rightarrow> bool" where
  "sha_ok sha \<longleftrightarrow> (\<forall>x. length (sha x) = 32)"

abbreviation all32 :: "byte list list \<Rightarrow> bool" where
  "all32 hs \<equiv> list_all (\<lambda>h. length h = 32) hs"

lemma pairHashes_all32: "sha_ok sha \<Longrightarrow> all32 hs \<Longrightarrow> all32 (pairHashes sha hs)"
  by (induction sha hs rule: pairHashes.induct) (auto simp: sha_ok_def)

lemma pairHashes_inj:
  "\<not> collision sha \<Longrightarrow> all32 xs \<Longrightarrow> all32 ys \<Longrightarrow> length xs = length ys \<Longrightarrow>
     pairHashes sha xs = pairHashes sha ys \<Longrightarrow> xs = ys"
proof (induction sha xs arbitrary: ys rule: pairHashes.induct)
  case (1 sha a b hs)
  then obtain c d ks where ys: "ys = c # d # ks" by (metis length_Suc_conv)
  with "1.prems" have "sha (a @ b) = sha (c @ d)" "pairHashes sha hs = pairHashes sha ks" by simp_all
  moreover from this "1.prems"(1) have "a @ b = c @ d" by (auto simp: collision_def)
  ultimately show ?case using "1.IH" [of ks] "1.prems" ys by simp
next
  case "2_2"
  then show ?case by (auto simp: Suc_length_conv)
qed simp

lemma merkleLoop_inj:
  "\<not> collision sha \<Longrightarrow> sha_ok sha \<Longrightarrow> all32 xs \<Longrightarrow> all32 ys \<Longrightarrow> length xs = length ys \<Longrightarrow>
     merkleLoop sha xs = merkleLoop sha ys \<Longrightarrow> xs = ys"
proof (induction sha xs arbitrary: ys rule: merkleLoop.induct)
  case (1 sha xs)
  show ?case
  proof (cases "length xs > 1")
    case True
    with "1.prems" have "merkleLoop sha (pairHashes sha xs) = merkleLoop sha (pairHashes sha ys)"
      by (metis merkleLoop.simps)
    with "1.IH" [OF True] "1.prems" have "pairHashes sha xs = pairHashes sha ys"
      by (simp add: length_pairHashes pairHashes_all32)
    then show ?thesis by (rule pairHashes_inj [OF "1.prems"(1,3,4,5)])
  next
    case False
    with "1.prems" show ?thesis by (metis merkleLoop.simps)
  qed
qed

lemma merkleLoop_single: "hs \<noteq> [] \<Longrightarrow> length (merkleLoop sha hs) = 1"
proof (induction sha hs rule: merkleLoop.induct)
  case (1 sha hs)
  show ?case
  proof (cases "length hs > 1")
    case True
    then have "pairHashes sha hs \<noteq> []" using length_pairHashes [of sha hs] by auto
    with 1 True show ?thesis by (subst merkleLoop.simps) simp
  next
    case False
    with "1.prems" have "length hs = 1" by (metis length_0_conv less_one linorder_neqE_nat)
    then show ?thesis by (subst merkleLoop.simps) simp
  qed
qed

lemma root_inj:
  assumes "\<not> collision sha" "sha_ok sha" "length xs = length ys"
    "computeSnapshotMerkleRoot sha xs = computeSnapshotMerkleRoot sha ys"
  shows "xs = ys"
proof (cases "xs = []")
  case False
  then have ne: "map sha xs \<noteq> []" "map sha ys \<noteq> []" using assms(3) by auto
  obtain r s where rs: "merkleLoop sha (map sha xs) = [r]" "merkleLoop sha (map sha ys) = [s]"
    using merkleLoop_single [OF ne(1)] merkleLoop_single [OF ne(2)] by (metis length_0_conv length_Suc_conv One_nat_def)
  with assms(4) False ne have "merkleLoop sha (map sha xs) = merkleLoop sha (map sha ys)"
    by (simp add: computeSnapshotMerkleRoot_def)
  moreover have "all32 (map sha xs)" "all32 (map sha ys)" using assms(2) by (simp_all add: sha_ok_def list_all_iff)
  ultimately have "map sha xs = map sha ys" using merkleLoop_inj [OF assms(1,2), of "map sha xs" "map sha ys"] assms(3) by simp
  moreover have "inj sha" using assms(1) by (auto simp: collision_def inj_def)
  ultimately show ?thesis by (simp add: inj_map_eq_map)
qed (use assms(3) in simp)

text \<open>Without a mark that tells leaves from inner nodes, a leaf can stand for a whole pair.\<close>

lemma root_pair: "computeSnapshotMerkleRoot sha [a, b] = computeSnapshotMerkleRoot sha [sha a @ sha b]"
  unfolding computeSnapshotMerkleRoot_def by (subst (1 2) merkleLoop.simps) (simp add: merkleLoop.simps)

subsection \<open>What a successful check means\<close>

lemma compareRoots_None: "compareRoots i ss hs = None \<Longrightarrow> length ss = length hs \<Longrightarrow> ss = hs"
  by (induction i ss hs rule: compareRoots.induct) (auto split: if_splits)

lemma compareRoots_refl: "compareRoots i ss ss = None"
  by (induction ss arbitrary: i) auto

lemma header_checked:
  assumes "verifyHeaderAgainstSig sha header sig = None"
  obtains roots where "decodeRoots (shRoots header) = Some roots"
    "hexEncode (computeSnapshotMerkleRoot sha roots) = sdMerkleRoot sig"
    "sdBlockSigMerkleRoots sig = [] \<or> sdBlockSigMerkleRoots sig = shRoots header"
  using assms by (auto simp: verifyHeaderAgainstSig_def dest: compareRoots_None split: option.splits if_splits)

lemma signature_checked:
  assumes "verifySignature K sig = None"
  obtains merkleRoot v kt pk where "hexDecode (sdMerkleRoot sig) = Some merkleRoot" "hexDecode (sdSignatureValue sig) = Some v"
    "signatureKeyType (sdSignatureType sig) = Some kt" "PublicKeyFromString K kt (sdSignatureIdentity sig) = Some pk"
    "pkVerify K pk merkleRoot v = Some True"
  using assms by (auto simp: verifySignature_def split: option.splits if_splits)

lemma length_decodeRoots: "decodeRoots rs = Some bs \<Longrightarrow> length bs = length rs"
  by (induction rs arbitrary: bs) (auto split: option.splits)

lemma ImportWithVerification_cases:
  assumes "ImportWithVerification K T D fs path sig db = (r, db')"
  obtains (refused) e where "r = ImportErr e" "db' = db"
  | (checked) header payload where "verifySignature K sig = None" "openAndReadHeader T fs path = Inr (header, payload)"
      "verifyHeaderAgainstSig (sha256sum T) header sig = None" "snd (importKVs D payload header db) = db'"
      "r = (case fst (importKVs D payload header db) of Inl e \<Rightarrow> ImportErr e
            | Inr n \<Rightarrow> if length (sdSignatureIdentity sig) < 16 then ImportPanic
                       else Imported \<lparr>irStart = shStart header, irEnd = shEnd header\<rparr>)"
  using assms by (auto simp: ImportWithVerification_def split: option.splits sum.splits prod.splits if_splits)

subsection \<open>Choosing snapshots\<close>

lemma covering_set:
  "set (findCoveringSnapshots available ranges lo hi) \<subseteq> {s \<in> set available. \<exists>r \<in> set ranges. wanted lo hi r s}"
  "Filename ` set (findCoveringSnapshots available ranges lo hi) = Filename ` {s \<in> set available. \<exists>r \<in> set ranges. wanted lo hi r s}"
proof -
  let ?c = "concat (map (\<lambda>r. filter (wanted lo hi r) available) ranges)"
  have c: "set ?c = {s \<in> set available. \<exists>r \<in> set ranges. wanted lo hi r s}" by auto
  show "set (findCoveringSnapshots available ranges lo hi) \<subseteq> {s \<in> set available. \<exists>r \<in> set ranges. wanted lo hi r s}"
    unfolding findCoveringSnapshots_def c [symmetric] set_sort by (rule set_dedupOn)
  show "Filename ` set (findCoveringSnapshots available ranges lo hi) = Filename ` {s \<in> set available. \<exists>r \<in> set ranges. wanted lo hi r s}"
    unfolding findCoveringSnapshots_def c [symmetric] set_sort dedupOn_keys by simp
qed

lemma covering_order:
  "sorted (map infoStart (findCoveringSnapshots available ranges lo hi))"
  "distinct (map Filename (findCoveringSnapshots available ranges lo hi))"
proof -
  show "sorted (map infoStart (findCoveringSnapshots available ranges lo hi))" by (simp add: findCoveringSnapshots_def)
  have "distinct (map Filename (sort_key infoStart xs)) \<longleftrightarrow> distinct (map Filename xs)" for xs :: "Info list"
    by (rule mset_eq_imp_distinct_iff) simp
  then show "distinct (map Filename (findCoveringSnapshots available ranges lo hi))"
    unfolding findCoveringSnapshots_def using dedupOn_distinct by blast
qed

subsection \<open>The bootstrap's loop\<close>

lemma importSingle_files:
  assumes "importSingleSnapshot E resp snap (fs, db) = (r, fs', db')" "r \<noteq> SinglePanic"
  shows "fs' \<subseteq>\<^sub>m fs"
  using assms
  by (auto simp: importSingleSnapshot_def DownloadSnapshot_def Let_def map_le_def
      split: option.splits downloadOutcome.splits if_splits prod.splits importOutcome.splits)

definition longKeys :: "('pk, 'cid) crypto \<Rightarrow> bool" where
  "longKeys K \<longleftrightarrow> (\<forall>kt s. PublicKeyFromString K kt s \<noteq> None \<longrightarrow> 16 \<le> length s)"

lemma importSingle_no_panic:
  assumes "longKeys (seCrypto E)"
    "importSingleSnapshot E resp snap st = (r, st')"
  shows "r \<noteq> SinglePanic"
proof
  assume p: "r = SinglePanic"
  obtain fs db where st: "st = (fs, db)" by (cases st)
  from assms(2) p st obtain sig fs1 db1 where
    i: "ImportWithVerification (seCrypto E) (seTools E) (seDB E) fs1 (joinPath (seTmpDir E) (Filename snap)) sig db = (ImportPanic, db1)"
    by (auto simp: importSingleSnapshot_def Let_def split: option.splits prod.splits importOutcome.splits)
  then show False
  proof (cases rule: ImportWithVerification_cases)
    case (checked header payload)
    obtain kt pk where "PublicKeyFromString (seCrypto E) kt (sdSignatureIdentity sig) = Some pk"
      using checked(1) by (rule signature_checked)
    with assms(1) have "16 \<le> length (sdSignatureIdentity sig)" by (auto simp: longKeys_def)
    with checked(5) show ?thesis by (auto split: sum.splits)
  qed simp
qed

lemma importSnapshots_clean:
  assumes "longKeys (seCrypto E)"
  shows "\<exists>n. fst (importSnapshots E snaps st) = Some n \<and> n \<le> length snaps \<and> fst (snd (importSnapshots E snaps st)) \<subseteq>\<^sub>m fst st"
proof (induction snaps arbitrary: st)
  case (Cons s snaps)
  obtain snap resp fs db where s: "s = (snap, resp)" "st = (fs, db)" by (cases s, cases st)
  obtain r fs1 db1 where r: "importSingleSnapshot E resp snap (fs, db) = (r, fs1, db1)" by (metis prod_cases3)
  have np: "r \<noteq> SinglePanic" using importSingle_no_panic [OF assms r] by blast
  obtain n fs2 db2 where n: "importSnapshots E snaps (fs1, db1) = (Some n, fs2, db2)" "n \<le> length snaps" "fs2 \<subseteq>\<^sub>m fs1"
    using Cons.IH [of "(fs1, db1)"] by (metis fst_conv prod_cases3 snd_conv)
  from map_le_trans [OF n(3) importSingle_files [OF r np]] n np r s show ?case by (cases r) auto
qed simp

subsection \<open>Properties\<close>

text \<open>
  C27. Nothing of a snapshot reaches DefraDB unverified: if an import succeeds, or changes the
  database at all, the signature verifies under the named key over exactly the Merkle root of the
  block roots in the file's header, the header is a non-empty snapshot header, and the roots listed with the
  signature, if any, are the header's. The database is then what the import of the rest of the file made of it.
\<close>

theorem snapshot_import_sound:
  assumes "ImportWithVerification K T D fs path sig db = (r, db')" "db' \<noteq> db \<or> (\<exists>x. r = Imported x)"
  shows "\<exists>header payload roots v kt pk. openAndReadHeader T fs path = Inr (header, payload)
    \<and> decodeRoots (shRoots header) = Some roots \<and> hexDecode (sdSignatureValue sig) = Some v
    \<and> signatureKeyType (sdSignatureType sig) = Some kt \<and> PublicKeyFromString K kt (sdSignatureIdentity sig) = Some pk
    \<and> pkVerify K pk (computeSnapshotMerkleRoot (sha256sum T) roots) v = Some True
    \<and> shMagic header = ''DFKV'' \<and> roots \<noteq> []
    \<and> (sdBlockSigMerkleRoots sig = [] \<or> sdBlockSigMerkleRoots sig = shRoots header)
    \<and> db' = snd (importKVs D payload header db)
    \<and> (\<forall>x. r = Imported x \<longrightarrow> x = \<lparr>irStart = shStart header, irEnd = shEnd header\<rparr>)"
  using assms(1)
proof (cases rule: ImportWithVerification_cases)
  case (refused e)
  with assms(2) show ?thesis by simp
next
  case (checked header payload)
  from header_checked [OF checked(3)] obtain roots where
    h: "decodeRoots (shRoots header) = Some roots" "hexEncode (computeSnapshotMerkleRoot (sha256sum T) roots) = sdMerkleRoot sig"
      "sdBlockSigMerkleRoots sig = [] \<or> sdBlockSigMerkleRoots sig = shRoots header" .
  from signature_checked [OF checked(1)] obtain m v kt pk where
    s: "hexDecode (sdMerkleRoot sig) = Some m" "hexDecode (sdSignatureValue sig) = Some v" "signatureKeyType (sdSignatureType sig) = Some kt"
      "PublicKeyFromString K kt (sdSignatureIdentity sig) = Some pk" "pkVerify K pk m v = Some True" .
  have "m = computeSnapshotMerkleRoot (sha256sum T) roots" using s(1) h(2) by (metis hexDecode_hexEncode option.inject)
  moreover have "shMagic header = ''DFKV''" "shRoots header \<noteq> []"
    using checked(2) by (auto simp: openAndReadHeader_def readSnapshotHeader_def Let_def split: option.splits if_splits)
  moreover have "roots \<noteq> []" using length_decodeRoots [OF h(1)] calculation(3) by auto
  moreover have "x = \<lparr>irStart = shStart header, irEnd = shEnd header\<rparr>" if "r = Imported x" for x
    using checked(5) that by (auto split: sum.splits if_splits)
  ultimately show ?thesis using checked(2,4) h(1,3) s(2-5) by blast
qed

definition demoSha :: "byte list \<Rightarrow> byte list" where
  "demoSha x = take 32 (x @ replicate 32 0)"

definition demoHeader :: kvSnapshotHeader where
  "demoHeader = \<lparr>shMagic = ''DFKV'', shVersion = 1, shStart = 5, shEnd = 9, shCreatedAt = [], shRoots = [''ab'', ''cd''], shMappings = []\<rparr>"

definition demoTools :: snapTools where
  "demoTools = \<lparr>sha256sum = demoSha, gunzip = Some, headerJSON = (\<lambda>b. if b = [7] then Some demoHeader else None)\<rparr>"

definition demoSnapDB :: "byte list snapDB" where
  "demoSnapDB = \<lparr>dbCollections = \<lambda>db c. Some [c], dbImportMapped = \<lambda>db p m. (Some 1, db @ p), dbImportRaw = \<lambda>db p. (Some 1, db @ p),
     dbRebuild = \<lambda>db c. (True, db), dbBlockNumbers = \<lambda>db q. Some []\<rparr>"

definition demoSig :: SignatureData where
  "demoSig = \<lparr>sdVersion = 1, sdSnapshotFile = ''f'', sdStartBlock = 5, sdEndBlock = 9,
     sdMerkleRoot = hexEncode (computeSnapshotMerkleRoot demoSha [[0xab], [0xcd]]), sdBlockCount = 2, sdSignatureType = ''ES256K'',
     sdSignatureIdentity = ''0123456789abcdef'', sdSignatureValue = ''01'', sdCreatedAt = [], sdBlockSigMerkleRoots = [''ab'', ''cd'']\<rparr>"

definition demoKeys :: "(string, string) crypto" where
  "demoKeys = \<lparr>PublicKeyFromString = \<lambda>kt s. if length s \<ge> 16 then Some s else None, pkVerify = \<lambda>pk m v. Some (v = [1]), cidDecode = Some, ComputeMerkleRoot = \<lambda>c. []\<rparr>"

lemma demo_import:
  "ImportWithVerification demoKeys demoTools demoSnapDB [''/t/f'' \<mapsto> [0, 0, 0, 1, 7, 42]] ''/t/f'' demoSig [] = (Imported \<lparr>irStart = 5, irEnd = 9\<rparr>, [42])"
  by code_simp

theorem snapshot_import_sound_witness:
  "\<exists>header payload. openAndReadHeader demoTools [''/t/f'' \<mapsto> [0, 0, 0, 1, 7, 42]] ''/t/f'' = Inr (header, payload)
     \<and> sdBlockSigMerkleRoots demoSig = shRoots header \<and> [42] = snd (importKVs demoSnapDB payload header [])"
proof -
  have "sdBlockSigMerkleRoots demoSig \<noteq> []" by (simp add: demoSig_def)
  with snapshot_import_sound [OF demo_import] show ?thesis by auto
qed

text \<open>
  The signed root fixes the block roots: two headers with the same number of roots that pass
  the check against one signature have the same roots, unless SHA-256 has a collision.
\<close>

theorem snapshot_roots_bound:
  assumes "\<forall>x. length (sha x) = 32" "verifyHeaderAgainstSig sha h1 sig = None" "verifyHeaderAgainstSig sha h2 sig = None"
    and "length (shRoots h1) = length (shRoots h2)"
  shows "decodeRoots (shRoots h1) = decodeRoots (shRoots h2) \<or> (\<exists>a b. a \<noteq> b \<and> sha a = sha b)"
proof -
  from header_checked [OF assms(2)] obtain r1 where
    r1: "decodeRoots (shRoots h1) = Some r1" "hexEncode (computeSnapshotMerkleRoot sha r1) = sdMerkleRoot sig" by blast
  from header_checked [OF assms(3)] obtain r2 where
    r2: "decodeRoots (shRoots h2) = Some r2" "hexEncode (computeSnapshotMerkleRoot sha r2) = sdMerkleRoot sig" by blast
  have "computeSnapshotMerkleRoot sha r1 = computeSnapshotMerkleRoot sha r2"
    using r1(2) r2(2) by (metis hexDecode_hexEncode option.inject)
  moreover have "length r1 = length r2" using assms(4) r1(1) r2(1) by (simp add: length_decodeRoots)
  ultimately show ?thesis using root_inj [of sha r1 r2] assms(1) r1(1) r2(1) by (auto simp: sha_ok_def collision_def)
qed

lemma demo_headers:
  "verifyHeaderAgainstSig demoSha demoHeader (demoSig\<lparr>sdBlockSigMerkleRoots := []\<rparr>) = None"
  "verifyHeaderAgainstSig demoSha (demoHeader\<lparr>shRoots := [''AB'', ''Cd'']\<rparr>) (demoSig\<lparr>sdBlockSigMerkleRoots := []\<rparr>) = None"
  by code_simp+

theorem snapshot_roots_bound_witness:
  "decodeRoots [''ab'', ''cd''] = decodeRoots [''AB'', ''Cd''] \<or> (\<exists>a b. a \<noteq> b \<and> demoSha a = demoSha b)"
proof -
  have "\<forall>x. length (demoSha x) = 32" by (auto simp: demoSha_def)
  from snapshot_roots_bound [OF this demo_headers] show ?thesis
    unfolding demoHeader_def kvSnapshotHeader.simps by (simp del: decodeRoots.simps hexDecode.simps)
qed

text \<open>
  The number of roots is not fixed by the signed root: when the signature lists no roots, a
  header with one root, the two hashes of the leaves side by side, passes in place of a
  header with two.
\<close>

theorem snapshot_root_count_open:
  assumes "verifyHeaderAgainstSig sha h sig = None" "sdBlockSigMerkleRoots sig = []" "decodeRoots (shRoots h) = Some [a, b]"
  shows "verifyHeaderAgainstSig sha (h\<lparr>shRoots := [hexEncode (sha a @ sha b)]\<rparr>) sig = None"
  using assms root_pair [of sha a b] by (auto simp: verifyHeaderAgainstSig_def split: if_splits)

theorem snapshot_root_count_open_witness:
  "verifyHeaderAgainstSig demoSha (demoHeader\<lparr>shRoots := [hexEncode (demoSha [0xab] @ demoSha [0xcd])]\<rparr>) (demoSig\<lparr>sdBlockSigMerkleRoots := []\<rparr>) = None"
proof -
  have d: "decodeRoots (shRoots demoHeader) = Some [[0xab], [0xcd]]" by code_simp
  show ?thesis by (rule snapshot_root_count_open [OF demo_headers(1) _ d]) simp
qed

text \<open>
  The signature does not cover the data: a file with the same header and any other key-value
  data is verified just the same, and whatever DefraDB makes of that data is imported under the
  signer's name.
\<close>

theorem snapshot_payload_unchecked:
  assumes "ImportWithVerification K T D fs path sig db = (Imported r, db1)"
    and "fs path = Some f" "gunzip T f = Some (hdr @ payload)" "length hdr = 4 + bigEndian32 (take 4 hdr)"
    and "gunzip T g = Some (hdr @ payload')" "openAndReadHeader T fs path = Inr (header, rest)"
    and "importKVs D payload' header db = (Inr n, db2)"
  shows "ImportWithVerification K T D (fs(path \<mapsto> g)) path sig db = (Imported r, db2)"
proof -
  have "take 4 hdr @ drop 4 hdr = hdr" by simp
  have r: "readSnapshotHeader T (hdr @ p) = map_sum id (\<lambda>(h, _). (h, p)) (readSnapshotHeader T hdr)" for p
    using assms(4) by (auto simp: readSnapshotHeader_def Let_def split: option.splits)
  have "openAndReadHeader T (fs(path \<mapsto> g)) path = Inr (header, payload')"
    using assms(2,3,5,6) r [of payload] r [of payload'] by (cases "readSnapshotHeader T hdr") (auto simp: openAndReadHeader_def)
  with assms(1,6,7) show ?thesis
    by (auto simp: ImportWithVerification_def split: option.splits sum.splits prod.splits if_splits)
qed

theorem snapshot_payload_unchecked_witness:
  "ImportWithVerification demoKeys demoTools demoSnapDB ([''/t/f'' \<mapsto> [0, 0, 0, 1, 7, 42]](''/t/f'' \<mapsto> [0, 0, 0, 1, 7, 66])) ''/t/f'' demoSig []
     = (Imported \<lparr>irStart = 5, irEnd = 9\<rparr>, [66])"
  by (rule snapshot_payload_unchecked [OF demo_import, where hdr = "[0, 0, 0, 1, 7]" and payload = "[42]" and payload' = "[66]"
        and header = demoHeader and rest = "[42]" and n = 1])
    (simp_all add: demoTools_def demoSnapDB_def demoHeader_def bigEndian32_def importKVs_def openAndReadHeader_def readSnapshotHeader_def)

text \<open>
  The snapshots chosen for import are, in the order of their first block and each file once,
  exactly the signed ones that overlap a requested range and do not lie inside the range already
  stored, provided the indexer's file names are distinct.
\<close>

theorem covering_snapshots_exact:
  assumes "distinct (map Filename available)"
  shows "(let needed = findCoveringSnapshots available ranges lo hi in
      sorted (map infoStart needed) \<and> distinct (map Filename needed)
      \<and> set needed = {s \<in> set available. Signed s \<and> (\<exists>r \<in> set ranges. infoStart s \<le> rangeEnd r \<and> rangeStart r \<le> infoEnd s)
           \<and> \<not> (0 < hi \<and> lo \<le> infoStart s \<and> infoEnd s \<le> hi)})"
proof -
  let ?n = "findCoveringSnapshots available ranges lo hi"
  have w: "{s \<in> set available. \<exists>r \<in> set ranges. wanted lo hi r s}
      = {s \<in> set available. Signed s \<and> (\<exists>r \<in> set ranges. infoStart s \<le> rangeEnd r \<and> rangeStart r \<le> infoEnd s)
           \<and> \<not> (0 < hi \<and> lo \<le> infoStart s \<and> infoEnd s \<le> hi)}" (is "?W = ?X")
    by (auto simp: wanted_def not_less)
  have "inj_on Filename (set available)" using assms by (simp add: distinct_map)
  then have "inj_on Filename ?W" by (rule inj_on_subset) auto
  then have n: "set ?n = ?W"
    using covering_set [of available ranges lo hi] inj_on_image_eq_iff [of Filename ?W "set ?n" ?W] by simp
  show ?thesis unfolding Let_def n w using covering_order by blast
qed

definition demoInfo :: "string \<Rightarrow> int \<Rightarrow> int \<Rightarrow> Info" where
  "demoInfo f a b = \<lparr>Filename = f, infoStart = a, infoEnd = b, SizeBytes = 1, Signed = True, infoSignature = Some demoSig\<rparr>"

theorem covering_snapshots_exact_witness:
  "set (findCoveringSnapshots [demoInfo ''b'' 10 19, demoInfo ''a'' 0 9, demoInfo ''c'' 20 29] [\<lparr>rangeStart = 5, rangeEnd = 25\<rparr>] 10 19)
     = {demoInfo ''a'' 0 9, demoInfo ''c'' 20 29}"
proof -
  let ?a = "[demoInfo ''b'' 10 19, demoInfo ''a'' 0 9, demoInfo ''c'' 20 29]"
  have d: "distinct (map Filename ?a)" by (simp add: demoInfo_def)
  have f: "infoStart (demoInfo f a b) = a" "infoEnd (demoInfo f a b) = b" "Signed (demoInfo f a b)" for f a b by (simp_all add: demoInfo_def)
  show ?thesis
    unfolding covering_snapshots_exact [OF d, of "[\<lparr>rangeStart = 5, rangeEnd = 25\<rparr>]" 10 19, unfolded Let_def, THEN conjunct2, THEN conjunct2]
    by (auto simp: f)
qed

text \<open>
  The bootstrap always completes and leaves no downloaded file behind: with keys of at least
  sixteen characters the log line cannot panic, a snapshot that fails is skipped, and every file
  left was there before, unchanged.
\<close>

theorem bootstrap_completes_clean:
  assumes "longKeys (seCrypto E)" "bootstrapFromSnapshots E resp download ranges (fs, db) = (res, fs', db')"
  shows "\<exists>n. res = Some n \<and> fs' \<subseteq>\<^sub>m fs"
proof (cases "resolveNeededSnapshots resp (seDB E) ranges db")
  case (Inl e)
  with assms(2) show ?thesis by (auto simp: bootstrapFromSnapshots_def)
next
  case (Inr needed)
  obtain n fs1 db1 where i: "importSnapshots E (map (\<lambda>s. (s, download s)) needed) (fs, db) = (n, fs1, db1)" by (metis prod_cases3)
  with importSnapshots_clean [OF assms(1), of "map (\<lambda>s. (s, download s)) needed" "(fs, db)"] assms(2) Inr show ?thesis
    by (auto simp: bootstrapFromSnapshots_def)
qed

definition demoSnapEnv :: "(string, string, unit, byte list) snapEnv" where
  "demoSnapEnv = \<lparr>seCrypto = demoKeys, seTools = demoTools, seDB = demoSnapDB,
     seDocs = \<lparr>dsGetCollection = \<lambda>db. False, dsExec = \<lambda>q db. \<lparr>gqlErrors = [], gqlData = ANil\<rparr>, dsDocID = \<lambda>s. False, dsGetDocument = \<lambda>i db. None,
       dsGet = \<lambda>d f. None, dsSet = \<lambda>d f v. None, dsNewDoc = \<lambda>fs. None, dsSave = \<lambda>d db. (None, db), dsSaveMany = \<lambda>ds db. (None, db)\<rparr>,
     seTmpDir = ''/t''\<rparr>"

definition demoBootstrap :: "nat option \<times> files \<times> byte list" where
  "demoBootstrap = bootstrapFromSnapshots demoSnapEnv (ListResponse 200 (Some [demoInfo ''f'' 5 9, demoInfo ''g'' 10 19]))
     (\<lambda>s. if Filename s = ''f'' then DownloadResponse 200 [0, 0, 0, 1, 7, 42] True True else DownloadResponse 404 [] True True)
     [\<lparr>rangeStart = 0, rangeEnd = 100\<rparr>] (Map.empty, [])"

theorem bootstrap_completes_clean_witness:
  "\<exists>n fs' db'. demoBootstrap = (Some n, fs', db') \<and> n = 1 \<and> db' = [42] \<and> fs' = Map.empty"
proof -
  obtain res fs' db' where r: "demoBootstrap = (res, fs', db')" by (metis prod_cases3)
  have "longKeys (seCrypto demoSnapEnv)" by (simp add: longKeys_def demoSnapEnv_def demoKeys_def)
  from bootstrap_completes_clean [OF this r [unfolded demoBootstrap_def]] have "\<exists>n. res = Some n" "fs' = Map.empty"
    by (auto simp: map_le_def)
  moreover have "fst demoBootstrap = Some 1" "snd (snd demoBootstrap) = [42]" by code_simp+
  ultimately show ?thesis unfolding r by auto
qed

end
