(* ===== verification/DocID_Codec.thy ===== *)
theory DocID_Codec
  imports Host_Prelude
begin

text \<open>
  \<open>pkg/pruner/docid_codec.go\<close>: packing DefraDB document identifiers into 16-byte UUIDs.
  The package-level variables \<open>docIDPrefix\<close> and \<open>docIDPrefixOnce\<close> are the record
  \<open>codec\<close>, threaded through every function that may capture the prefix.
\<close>

datatype docid_error = ErrInvalidDocIDFormat | ErrInvalidUUID | HexInvalidByte

record codec =
  docIDPrefix :: string
  docIDPrefixOnce :: bool

type_synonym uuid = "byte list"

definition init_codec :: codec where
  "init_codec = \<lparr>docIDPrefix = [], docIDPrefixOnce = False\<rparr>"

text \<open>\<open>docIDPrefixOnce.Do\<close>: only the first call in the process assigns.\<close>

definition once_prefix :: "string \<Rightarrow> codec \<Rightarrow> codec" where
  "once_prefix p c =
     (if docIDPrefixOnce c then c else c\<lparr>docIDPrefix := p, docIDPrefixOnce := True\<rparr>)"

definition parseUUIDHex :: "string \<Rightarrow> docid_error + uuid" where
  "parseUUIDHex uuidStr =
     (let clean = replaceAll uuidStr ''-'' [] in
      if length clean \<noteq> 32 then Inl ErrInvalidUUID
      else (case hexDecode clean of None \<Rightarrow> Inl HexInvalidByte | Some bs \<Rightarrow> Inr bs))"

definition extractUUID :: "string \<Rightarrow> codec \<Rightarrow> (docid_error + uuid) \<times> codec" where
  "extractUUID docID c =
     (case indexByte docID (CHR ''-'') of
        None \<Rightarrow> (Inl ErrInvalidDocIDFormat, c)
      | Some idx \<Rightarrow> (parseUUIDHex (drop (idx + 1) docID), once_prefix (take idx docID) c))"

definition formatUUID :: "uuid \<Rightarrow> string" where
  "formatUUID b =
     (let h = hexEncode b in
      take 8 h @ ''-'' @ take 4 (drop 8 h) @ ''-'' @ take 4 (drop 12 h) @ ''-''
        @ take 4 (drop 16 h) @ ''-'' @ drop 20 h)"

definition RestoreDocID :: "codec \<Rightarrow> uuid \<Rightarrow> string" where
  "RestoreDocID c u = docIDPrefix c @ ''-'' @ formatUUID u"

text \<open>A codec whose prefix was captured from a document identifier.\<close>

definition codec_ready :: "codec \<Rightarrow> bool" where
  "codec_ready c \<longleftrightarrow> docIDPrefixOnce c \<and> CHR ''-'' \<notin> set (docIDPrefix c)"

subsection \<open>Round trip\<close>

lemma filter_slices:
  "take 8 h @ take 4 (drop 8 h) @ take 4 (drop 12 h) @ take 4 (drop 16 h) @ drop 20 h = h"
proof -
  have "take 4 (drop 16 h) @ drop 20 h = drop 16 h"
    using append_take_drop_id [of 4 "drop 16 h"] by simp
  moreover have "take 4 (drop 12 h) @ drop 16 h = drop 12 h"
    using append_take_drop_id [of 4 "drop 12 h"] by simp
  moreover have "take 4 (drop 8 h) @ drop 12 h = drop 8 h"
    using append_take_drop_id [of 4 "drop 8 h"] by simp
  ultimately show ?thesis by simp
qed

lemma formatUUID_clean: "replaceAll (formatUUID b) ''-'' [] = hexEncode b"
proof -
  have *: "filter (\<lambda>x. x \<noteq> CHR ''-'') xs = xs" if "set xs \<subseteq> set (hexEncode b)" for xs
    using that hexEncode_no_dash [of b] by (auto intro: filter_True)
  have sl: "set (take m (drop n (hexEncode b))) \<subseteq> set (hexEncode b)"
    "set (take m (hexEncode b)) \<subseteq> set (hexEncode b)"
    "set (drop n (hexEncode b)) \<subseteq> set (hexEncode b)" for m n
    by (auto dest: in_set_takeD in_set_dropD)
  show ?thesis
    by (simp add: formatUUID_def replaceAll_byte_erase Let_def * sl filter_slices)
qed

lemma parseUUIDHex_formatUUID: "length u = 16 \<Longrightarrow> parseUUIDHex (formatUUID u) = Inr u"
  by (simp add: parseUUIDHex_def formatUUID_clean)

lemma parseUUIDHex_length: "parseUUIDHex s = Inr u \<Longrightarrow> length u = 16"
  by (auto simp: parseUUIDHex_def Let_def split: if_splits option.splits dest!: hexDecode_length)

lemma extractUUID_length: "extractUUID d c = (Inr u, c') \<Longrightarrow> length u = 16"
  by (auto simp: extractUUID_def parseUUIDHex_length split: option.splits)

lemma extractUUID_ready:
  "codec_ready c \<Longrightarrow> snd (extractUUID d c) = c"
  by (auto simp: extractUUID_def once_prefix_def codec_ready_def split: option.splits)

lemma once_prefix_Once [simp]: "docIDPrefixOnce (once_prefix p c)"
  by (simp add: once_prefix_def)

lemma extractUUID_captures:
  assumes "\<not> docIDPrefixOnce c" and "extractUUID d c = (Inr u, c')"
  shows "codec_ready c'"
  using assms
  by (auto simp: extractUUID_def once_prefix_def codec_ready_def split: option.splits
      dest!: indexByte_SomeD)

lemma extractUUID_RestoreDocID:
  assumes "codec_ready c" and "length u = 16"
  shows "extractUUID (RestoreDocID c u) c = (Inr u, c)"
proof -
  have "indexByte (RestoreDocID c u) (CHR ''-'') = Some (length (docIDPrefix c))"
    using assms by (simp add: RestoreDocID_def codec_ready_def)
  moreover have "drop (length (docIDPrefix c) + 1) (RestoreDocID c u) = formatUUID u"
    by (simp add: RestoreDocID_def)
  ultimately show ?thesis
    using assms by (simp add: extractUUID_def parseUUIDHex_formatUUID once_prefix_def codec_ready_def)
qed

text \<open>
  A document identifier is canonical when it has the form the code's comment describes:
  a prefix without a hyphen, a hyphen, and the lower-case hyphenated UUID.
\<close>

definition canonical_docID :: "string \<Rightarrow> string \<Rightarrow> uuid \<Rightarrow> bool" where
  "canonical_docID p d u \<longleftrightarrow>
     CHR ''-'' \<notin> set p \<and> length u = 16 \<and> d = p @ ''-'' @ formatUUID u"

lemma RestoreDocID_canonical:
  "codec_ready c \<Longrightarrow> length u = 16 \<Longrightarrow> canonical_docID (docIDPrefix c) (RestoreDocID c u) u"
  by (simp add: canonical_docID_def RestoreDocID_def codec_ready_def)

lemma extractUUID_canonical:
  assumes "canonical_docID p d u"
  shows "extractUUID d c = (Inr u, once_prefix p c)"
proof -
  have "indexByte d (CHR ''-'') = Some (length p)" "drop (length p + 1) d = formatUUID u"
    "take (length p) d = p"
    using assms by (auto simp: canonical_docID_def)
  with assms show ?thesis
    by (simp add: extractUUID_def parseUUIDHex_formatUUID canonical_docID_def)
qed

lemmas codec_facts = extractUUID_length extractUUID_ready extractUUID_RestoreDocID
  RestoreDocID_canonical extractUUID_canonical

text \<open>
  C1. Packing a canonical document identifier and rebuilding it gives the identifier back,
  whatever the state of the codec, as long as the captured prefix (if one was captured before)
  is the identifier's own prefix.
\<close>

theorem docid_round_trip:
  assumes "canonical_docID p d u" and "docIDPrefixOnce c \<Longrightarrow> docIDPrefix c = p"
  shows "\<exists>c'. extractUUID d c = (Inr u, c') \<and> RestoreDocID c' u = d"
  using assms extractUUID_canonical [OF assms(1), of c]
  by (auto simp: RestoreDocID_def once_prefix_def canonical_docID_def)

theorem docid_round_trip_witness:
  "\<exists>c'. extractUUID ''bae-00000000-0000-0000-0000-000000000000'' init_codec
          = (Inr (replicate 16 0), c')
      \<and> RestoreDocID c' (replicate 16 0) = ''bae-00000000-0000-0000-0000-000000000000''"
proof -
  have "canonical_docID ''bae'' ''bae-00000000-0000-0000-0000-000000000000'' (replicate 16 0)"
    by code_simp
  then show ?thesis by (rule docid_round_trip) (simp add: init_codec_def)
qed

text \<open>
  The prefix is captured before the rest of the identifier is validated: one malformed
  identifier seen first fixes the prefix for the process, and a valid identifier with another
  prefix is rebuilt with the wrong one.
\<close>

theorem malformed_docid_poisons_prefix:
  assumes "CHR ''-'' \<notin> set bad" "bad \<noteq> p" "canonical_docID p d u"
    "parseUUIDHex rest = Inl e"
  shows "\<exists>c1 c2. extractUUID (bad @ ''-'' @ rest) init_codec = (Inl e, c1)
           \<and> extractUUID d c1 = (Inr u, c2) \<and> RestoreDocID c2 u = bad @ ''-'' @ formatUUID u
           \<and> RestoreDocID c2 u \<noteq> d"
proof -
  let ?c = "\<lparr>docIDPrefix = bad, docIDPrefixOnce = True\<rparr>"
  have "extractUUID (bad @ ''-'' @ rest) init_codec = (Inl e, ?c)"
    using assms by (simp add: extractUUID_def once_prefix_def init_codec_def)
  moreover have "extractUUID d ?c = (Inr u, ?c)"
    using extractUUID_canonical [OF assms(3)] by (simp add: once_prefix_def)
  ultimately show ?thesis
    using assms by (auto simp: RestoreDocID_def canonical_docID_def)
qed

theorem malformed_docid_poisons_prefix_witness:
  "\<exists>c1 c2. extractUUID (''junk'' @ ''-'' @ ''x'') init_codec = (Inl ErrInvalidUUID, c1)
     \<and> extractUUID (''bae'' @ ''-'' @ formatUUID (replicate 16 0)) c1 = (Inr (replicate 16 0), c2)
     \<and> RestoreDocID c2 (replicate 16 0) = ''junk'' @ ''-'' @ formatUUID (replicate 16 0)
     \<and> RestoreDocID c2 (replicate 16 0) \<noteq> ''bae'' @ ''-'' @ formatUUID (replicate 16 0)"
proof (rule malformed_docid_poisons_prefix)
  show "canonical_docID ''bae'' (''bae'' @ ''-'' @ formatUUID (replicate 16 0)) (replicate 16 0)"
    by (simp add: canonical_docID_def)
  show "parseUUIDHex ''x'' = Inl ErrInvalidUUID"
    by (simp add: parseUUIDHex_def replaceAll_byte_erase)
qed simp_all

end
