(* ===== verification/Event_Queue.thy ===== *)
theory Event_Queue
  imports DocID_Codec
begin

text \<open>
  \<open>pkg/pruner/event_queue.go\<close> with the configuration types of \<open>config.go\<close> and \<open>queue.go\<close>:
  the FIFO queue of replicated documents, its drain, requeue and persistence operations.
  Operations that call \<open>extractUUID\<close> or \<open>RestoreDocID\<close> take the codec state. Each method
  holds \<open>q.mu\<close> for its whole effect on the queue, so it is one atomic step on the record.

  Files are a map from paths to contents; a path stands for the file its cleaned form names.
  \<open>encoding/gob\<close> is modelled as storing the snapshot value itself. Which of the system calls
  fail is an argument (\<open>io_faults\<close>).
\<close>

record CollectionConfig =
  BlockCollection :: string
  BlockNumberField :: string
  DependentCollections :: "string list"

definition DefaultCollectionConfig :: CollectionConfig where
  "DefaultCollectionConfig =
     \<lparr>BlockCollection = ''Ethereum__Mainnet__Block'',
      BlockNumberField = ''number'',
      DependentCollections =
        [''Ethereum__Mainnet__BatchSignature'',
         ''Ethereum__Mainnet__AccessListEntry'',
         ''Ethereum__Mainnet__Log'',
         ''Ethereum__Mainnet__Transaction'',
         ''Ethereum__Mainnet__BlockSignature'',
         ''Ethereum__Mainnet__AttestationRecord'']\<rparr>"

record eventEntry =
  Collection :: byte
  UUID :: uuid

abbreviation colBlock :: byte where "colBlock \<equiv> 0"
abbreviation colTx :: byte where "colTx \<equiv> 1"
abbreviation colLog :: byte where "colLog \<equiv> 2"
abbreviation colALE :: byte where "colALE \<equiv> 3"
abbreviation colBatchSig :: byte where "colBatchSig \<equiv> 4"
abbreviation colBlockSig :: byte where "colBlockSig \<equiv> 5"
abbreviation colAttRec :: byte where "colAttRec \<equiv> 6"

record DrainResult =
  DocIDsByCollection :: "(string \<times> string list) list"
  BlockCount :: int

record eventQueueSnapshot =
  snapPrefix :: string
  snapEntries :: "eventEntry list"
  snapBlockCount :: int
  snapCollectionNames :: "(byte \<times> string) list"

record EventQueue =
  entries :: "eventEntry list"
  blockCount :: int
  filePath :: string
  collectionNames :: "(byte \<times> string) list"
  collectionEnums :: "(string \<times> byte) list"

definition knownCollections :: "(string \<times> byte) list" where
  "knownCollections =
     [(''Ethereum__Mainnet__Transaction'', colTx),
      (''Ethereum__Mainnet__Log'', colLog),
      (''Ethereum__Mainnet__AccessListEntry'', colALE),
      (''Ethereum__Mainnet__BatchSignature'', colBatchSig),
      (''Ethereum__Mainnet__BlockSignature'', colBlockSig),
      (''Ethereum__Mainnet__AttestationRecord'', colAttRec)]"

text \<open>Register one name under one enum in both maps.\<close>

definition register :: "byte \<Rightarrow> string \<Rightarrow> EventQueue \<Rightarrow> EventQueue" where
  "register k v q =
     q\<lparr>collectionNames := AList.update k v (collectionNames q),
       collectionEnums := AList.update v k (collectionEnums q)\<rparr>"

fun registerDependents :: "string list \<Rightarrow> EventQueue \<Rightarrow> EventQueue" where
  "registerDependents [] q = q"
| "registerDependents (name # names) q =
     registerDependents names
       (case map_of knownCollections name of None \<Rightarrow> q | Some enum \<Rightarrow> register enum name q)"

definition NewEventQueue :: "CollectionConfig \<Rightarrow> EventQueue" where
  "NewEventQueue collections =
     registerDependents (DependentCollections collections)
       (register colBlock (BlockCollection collections)
          \<lparr>entries = [], blockCount = 0, filePath = [], collectionNames = [], collectionEnums = []\<rparr>)"

definition Push :: "string \<Rightarrow> string \<Rightarrow> codec \<times> EventQueue \<Rightarrow> codec \<times> EventQueue" where
  "Push collectionName docID s =
     (case s of (c, q) \<Rightarrow>
      (case extractUUID docID c of
         (Inl _, c') \<Rightarrow> (c', q)
       | (Inr uuid, c') \<Rightarrow>
           (case map_of (collectionEnums q) collectionName of
              None \<Rightarrow> (c', q)
            | Some colType \<Rightarrow>
                (c', q\<lparr>entries := entries q @ [\<lparr>Collection = colType, UUID = uuid\<rparr>],
                       blockCount := (if colType = colBlock then blockCount q + 1
                                      else blockCount q)\<rparr>))))"

definition countBlocks :: "eventEntry list \<Rightarrow> int" where
  "countBlocks es = int (length (filter (\<lambda>e. Collection e = colBlock) es))"

text \<open>\<open>m[name] = append(m[name], docID)\<close>\<close>

definition appendAt :: "string \<Rightarrow> string \<Rightarrow> (string \<times> string list) list \<Rightarrow> (string \<times> string list) list" where
  "appendAt name docID m =
     AList.update name ((case map_of m name of None \<Rightarrow> [] | Some l \<Rightarrow> l) @ [docID]) m"

fun groupByCollection ::
  "codec \<Rightarrow> (byte \<times> string) list \<Rightarrow> eventEntry list \<Rightarrow> (string \<times> string list) list
     \<Rightarrow> (string \<times> string list) list" where
  "groupByCollection c names [] m = m"
| "groupByCollection c names (e # es) m =
     (case map_of names (Collection e) of
        None \<Rightarrow> groupByCollection c names es m
      | Some name \<Rightarrow> groupByCollection c names es (appendAt name (RestoreDocID c (UUID e)) m))"

definition DrainDocs :: "int \<Rightarrow> codec \<Rightarrow> EventQueue \<Rightarrow> DrainResult option \<times> EventQueue" where
  "DrainDocs cnt c q =
     (if entries q = [] \<or> cnt \<le> 0 then (None, q)
      else
        let n = (if cnt > int (length (entries q)) then length (entries q) else nat cnt);
            drained = take n (entries q);
            blocksSeen = countBlocks drained
        in (Some \<lparr>DocIDsByCollection = groupByCollection c (collectionNames q) drained [],
                  BlockCount = blocksSeen\<rparr>,
            q\<lparr>entries := drop n (entries q), blockCount := blockCount q - blocksSeen\<rparr>))"

text \<open>
  The walk of \<open>DrainBlocks\<close>: position after the \<open>count\<close>-th block entry (0 when the queue
  holds fewer) and the number of block entries seen.
\<close>

fun walkBlocks :: "eventEntry list \<Rightarrow> int \<Rightarrow> nat \<Rightarrow> int \<Rightarrow> nat \<times> int" where
  "walkBlocks [] cnt i seen = (0, seen)"
| "walkBlocks (e # es) cnt i seen =
     (if Collection e = colBlock
      then (if seen + 1 \<ge> cnt then (i + 1, seen + 1) else walkBlocks es cnt (i + 1) (seen + 1))
      else walkBlocks es cnt (i + 1) seen)"

definition DrainBlocks :: "int \<Rightarrow> codec \<Rightarrow> EventQueue \<Rightarrow> DrainResult option \<times> EventQueue" where
  "DrainBlocks cnt c q =
     (if blockCount q \<le> 0 \<or> cnt \<le> 0 then (None, q)
      else case walkBlocks (entries q) cnt 0 0 of (cutoff, blocksSeen) \<Rightarrow>
        if cutoff = 0 then (None, q)
        else (Some \<lparr>DocIDsByCollection =
                      groupByCollection c (collectionNames q) (take cutoff (entries q)) [],
                    BlockCount = blocksSeen\<rparr>,
              q\<lparr>entries := drop cutoff (entries q), blockCount := blockCount q - blocksSeen\<rparr>))"

fun requeueEntries :: "byte \<Rightarrow> string list \<Rightarrow> codec \<Rightarrow> eventEntry list \<times> codec" where
  "requeueEntries colType [] c = ([], c)"
| "requeueEntries colType (d # ds) c =
     (case extractUUID d c of
        (Inl _, c') \<Rightarrow> requeueEntries colType ds c'
      | (Inr uuid, c') \<Rightarrow>
          (case requeueEntries colType ds c' of
             (es, c'') \<Rightarrow> (\<lparr>Collection = colType, UUID = uuid\<rparr> # es, c'')))"

definition Requeue :: "string \<Rightarrow> string list \<Rightarrow> codec \<times> EventQueue \<Rightarrow> codec \<times> EventQueue" where
  "Requeue collectionName docIDs s =
     (case s of (c, q) \<Rightarrow>
      (case map_of (collectionEnums q) collectionName of
         None \<Rightarrow> (c, q)
       | Some colType \<Rightarrow>
           (case requeueEntries colType docIDs c of
              (es, c') \<Rightarrow> (c', q\<lparr>entries := es @ entries q,
                                 blockCount := blockCount q + countBlocks es\<rparr>))))"

definition Len :: "EventQueue \<Rightarrow> int" where
  "Len q = int (length (entries q))"

definition queueBlockCount :: "EventQueue \<Rightarrow> int" where
  "queueBlockCount q = blockCount q"

subsection \<open>Persistence\<close>

datatype gob_file = Gob eventQueueSnapshot | Garbage

type_synonym disk = "string \<rightharpoonup> gob_file"

record io_faults =
  openFails :: bool
  createFails :: bool
  encodeFails :: bool
  closeFails :: bool
  renameFails :: bool
  removeFails :: bool

definition no_faults :: io_faults where
  "no_faults = \<lparr>openFails = False, createFails = False, encodeFails = False,
                closeFails = False, renameFails = False, removeFails = False\<rparr>"

datatype queue_io_error = OpenQueue | DecodeQueue | CreateTemp | EncodeQueue | CloseTemp | RenameTemp

fun mergeNames :: "(byte \<times> string) list \<Rightarrow> EventQueue \<Rightarrow> EventQueue" where
  "mergeNames [] q = q"
| "mergeNames ((k, v) # kvs) q = mergeNames kvs (register k v q)"

definition LoadFromFile ::
  "io_faults \<Rightarrow> disk \<Rightarrow> string \<Rightarrow> codec \<times> EventQueue
     \<Rightarrow> (queue_io_error + int) \<times> codec \<times> EventQueue" where
  "LoadFromFile io dsk path s =
     (case s of (c, q) \<Rightarrow>
      let q1 = q\<lparr>filePath := path\<rparr> in
      (case dsk path of
         None \<Rightarrow> (Inr 0, c, q1)
       | Some f \<Rightarrow>
           if openFails io then (Inl OpenQueue, c, q1)
           else (case f of
              Garbage \<Rightarrow> (Inl DecodeQueue, c, q1)
            | Gob snap \<Rightarrow>
                let q2 = mergeNames (snapCollectionNames snap)
                           (q1\<lparr>entries := snapEntries snap, blockCount := snapBlockCount snap\<rparr>)
                in (Inr (int (length (entries q2))),
                    if snapPrefix snap \<noteq> [] then once_prefix (snapPrefix snap) c else c,
                    q2))))"

definition takeSnapshot :: "codec \<Rightarrow> EventQueue \<Rightarrow> eventQueueSnapshot" where
  "takeSnapshot c q =
     \<lparr>snapPrefix = docIDPrefix c, snapEntries = entries q,
      snapBlockCount = blockCount q, snapCollectionNames = collectionNames q\<rparr>"

definition removeFile :: "io_faults \<Rightarrow> string \<Rightarrow> disk \<Rightarrow> disk" where
  "removeFile io p dsk = (if removeFails io then dsk else dsk(p := None))"

definition Save :: "io_faults \<Rightarrow> codec \<Rightarrow> EventQueue \<Rightarrow> disk \<Rightarrow> queue_io_error option \<times> disk" where
  "Save io c q dsk =
     (if filePath q = [] then (None, dsk)
      else
        let snap = takeSnapshot c q; tmp = filePath q @ ''.tmp'' in
        if snapEntries snap = [] then (None, removeFile io (filePath q) dsk)
        else if createFails io then (Some CreateTemp, dsk)
        else if encodeFails io then (Some EncodeQueue, removeFile io tmp (dsk(tmp \<mapsto> Garbage)))
        else if closeFails io then (Some CloseTemp, removeFile io tmp (dsk(tmp \<mapsto> Gob snap)))
        else if renameFails io then (Some RenameTemp, removeFile io tmp (dsk(tmp \<mapsto> Gob snap)))
        else (None, dsk(filePath q \<mapsto> Gob snap, tmp := None)))"

subsection \<open>Well-formedness\<close>

text \<open>The counter agrees with the entries.\<close>

definition queue_ok :: "EventQueue \<Rightarrow> bool" where
  "queue_ok q \<longleftrightarrow> blockCount q = countBlocks (entries q)"

text \<open>The two name maps are inverse to each other.\<close>

definition maps_ok :: "EventQueue \<Rightarrow> bool" where
  "maps_ok q \<longleftrightarrow>
     (\<forall>k n. map_of (collectionNames q) k = Some n \<longleftrightarrow> map_of (collectionEnums q) n = Some k)"

definition entry_ok :: "EventQueue \<Rightarrow> eventEntry \<Rightarrow> bool" where
  "entry_ok q e \<longleftrightarrow> map_of (collectionNames q) (Collection e) \<noteq> None \<and> length (UUID e) = 16"

definition queue_wf :: "codec \<times> EventQueue \<Rightarrow> bool" where
  "queue_wf s \<longleftrightarrow>
     (case s of (c, q) \<Rightarrow>
        queue_ok q \<and> maps_ok q \<and> list_all (entry_ok q) (entries q)
          \<and> (entries q \<noteq> [] \<longrightarrow> codec_ready c) \<and> (docIDPrefixOnce c \<longrightarrow> codec_ready c))"

text \<open>What the queue holds, as the collection names and document identifiers it stands for.\<close>

definition entryDoc :: "codec \<Rightarrow> EventQueue \<Rightarrow> eventEntry \<Rightarrow> string \<times> string" where
  "entryDoc c q e =
     ((case map_of (collectionNames q) (Collection e) of None \<Rightarrow> [] | Some n \<Rightarrow> n),
      RestoreDocID c (UUID e))"

definition queueDocs :: "codec \<times> EventQueue \<Rightarrow> (string \<times> string) list" where
  "queueDocs s = (case s of (c, q) \<Rightarrow> map (entryDoc c q) (entries q))"

definition docsOf :: "string \<Rightarrow> (string \<times> string) list \<Rightarrow> string list" where
  "docsOf name ds = map snd (filter (\<lambda>d. fst d = name) ds)"

lemmas [queue_defs] = Push_def DrainDocs_def DrainBlocks_def Requeue_def

subsection \<open>Counting and grouping lemmas\<close>

lemma countBlocks_simps [simp]:
  "countBlocks [] = 0"
  "countBlocks (e # es) = (if Collection e = colBlock then 1 else 0) + countBlocks es"
  "countBlocks (xs @ ys) = countBlocks xs + countBlocks ys"
  by (simp_all add: countBlocks_def)

lemma countBlocks_nonneg [simp]: "0 \<le> countBlocks es"
  by (simp add: countBlocks_def)

lemma countBlocks_take_drop: "countBlocks (take n es) + countBlocks (drop n es) = countBlocks es"
  by (metis append_take_drop_id countBlocks_simps(3))

lemma map_of_appendAt:
  "map_of (appendAt name d m) n =
     (if n = name then Some ((case map_of m name of None \<Rightarrow> [] | Some l \<Rightarrow> l) @ [d]) else map_of m n)"
  by (simp add: appendAt_def update_conv')

lemma map_of_groupByCollection:
  "map_of (groupByCollection c names es m) n =
     (let ids = map (\<lambda>e. RestoreDocID c (UUID e))
                  (filter (\<lambda>e. map_of names (Collection e) = Some n) es)
      in case map_of m n of Some l \<Rightarrow> Some (l @ ids) | None \<Rightarrow> (if ids = [] then None else Some ids))"
proof (induction es arbitrary: m)
  case Nil
  then show ?case by (simp split: option.split)
next
  case (Cons e es)
  then show ?case
    by (cases "map_of names (Collection e)") (auto simp: map_of_appendAt Let_def split: option.split)
qed

lemma entryDoc_simps:
  "entry_ok q e \<Longrightarrow> fst (entryDoc c q e) = n \<longleftrightarrow> map_of (collectionNames q) (Collection e) = Some n"
  "snd (entryDoc c q e) = RestoreDocID c (UUID e)"
  by (auto simp: entryDoc_def entry_ok_def)

lemma docsOf_map_entryDoc:
  assumes "list_all (entry_ok q) es"
  shows "docsOf n (map (entryDoc c q) es)
    = map (\<lambda>e. RestoreDocID c (UUID e))
        (filter (\<lambda>e. map_of (collectionNames q) (Collection e) = Some n) es)"
  using assms by (induction es) (auto simp: docsOf_def entryDoc_simps)

lemma group_docsOf:
  assumes "list_all (entry_ok q) es"
  shows "map_of (groupByCollection c (collectionNames q) es []) n =
     (let ids = docsOf n (map (entryDoc c q) es) in if ids = [] then None else Some ids)"
  by (simp add: map_of_groupByCollection docsOf_map_entryDoc [OF assms])

lemma docsOf_mset:
  "mset (map (Pair n) (docsOf n ds)) = filter_mset (\<lambda>d. fst d = n) (mset ds)"
  by (induction ds) (auto simp: docsOf_def)

lemma frame_facts [simp]:
  "entry_ok (entries_update f q) = entry_ok q"
  "entry_ok (blockCount_update g q) = entry_ok q"
  "entryDoc c (entries_update f q) = entryDoc c q"
  "entryDoc c (blockCount_update g q) = entryDoc c q"
  "maps_ok (entries_update f q) = maps_ok q"
  "maps_ok (blockCount_update g q) = maps_ok q"
  "maps_ok (filePath_update h q) = maps_ok q"
  "entry_ok (filePath_update h q) = entry_ok q"
  "entryDoc c (filePath_update h q) = entryDoc c q"
  by (simp_all add: entry_ok_def entryDoc_def maps_ok_def fun_eq_iff)

subsection \<open>Draining\<close>

lemma DrainDocs_cases:
  assumes "0 < n" "entries q \<noteq> []"
  shows "DrainDocs (int n) c q =
    (Some \<lparr>DocIDsByCollection = groupByCollection c (collectionNames q) (take n (entries q)) [],
           BlockCount = countBlocks (take n (entries q))\<rparr>,
     q\<lparr>entries := drop n (entries q),
       blockCount := blockCount q - countBlocks (take n (entries q))\<rparr>)"
  using assms by (auto simp: DrainDocs_def Let_def)

lemma DrainDocs_queue:
  "snd (DrainDocs (int n) c q) =
     q\<lparr>entries := drop n (entries q),
       blockCount := blockCount q - countBlocks (take n (entries q))\<rparr>"
  by (cases "n = 0 \<or> entries q = []") (auto simp: DrainDocs_def Let_def)

lemma DrainDocs_wf: "queue_wf (c, q) \<Longrightarrow> queue_wf (c, snd (DrainDocs (int n) c q))"
  unfolding DrainDocs_queue queue_wf_def
  using countBlocks_take_drop [of n "entries q"]
  by (auto simp: queue_ok_def list_all_iff dest: in_set_dropD)

lemma DrainDocs_wf_int: "queue_wf (c, q) \<Longrightarrow> queue_wf (c, snd (DrainDocs cnt c q))"
  using DrainDocs_wf [of c q "nat cnt"] by (cases "0 \<le> cnt") (simp_all add: DrainDocs_def)

lemma DrainDocs_docs: "queueDocs (c, snd (DrainDocs (int n) c q)) = drop n (queueDocs (c, q))"
  by (simp add: DrainDocs_queue queueDocs_def drop_map)

lemma DrainDocs_result:
  assumes "queue_wf (c, q)" and "DrainDocs (int n) c q = (Some r, q')"
  shows "map_of (DocIDsByCollection r) name =
    (let ids = docsOf name (take n (queueDocs (c, q))) in if ids = [] then None else Some ids)"
proof -
  have ne: "0 < n" "entries q \<noteq> []"
    using assms(2) by (auto simp: DrainDocs_def split: if_splits)
  have "list_all (entry_ok q) (take n (entries q))"
    using assms(1) by (auto simp: queue_wf_def list_all_iff dest: in_set_takeD)
  with assms(2) show ?thesis
    by (auto simp: DrainDocs_cases [OF ne] group_docsOf queueDocs_def take_map)
qed

subsection \<open>Requeueing\<close>

text \<open>Document identifiers the queue can take back: it knows the collection and packs the ids.\<close>

definition requeue_valid :: "codec \<times> EventQueue \<Rightarrow> string \<Rightarrow> string list \<Rightarrow> bool" where
  "requeue_valid s name ids \<longleftrightarrow>
     (case s of (c, q) \<Rightarrow> ids = [] \<or>
        (codec_ready c \<and> map_of (collectionEnums q) name \<noteq> None
          \<and> (\<forall>d \<in> set ids. \<exists>u. length u = 16 \<and> d = RestoreDocID c u)))"

lemma requeueEntries_ready:
  assumes "codec_ready c" and "\<forall>d \<in> set ids. \<exists>u. length u = 16 \<and> d = RestoreDocID c u"
  shows "\<exists>es. requeueEntries k ids c = (es, c) \<and> map (\<lambda>e. RestoreDocID c (UUID e)) es = ids
           \<and> (\<forall>e \<in> set es. Collection e = k \<and> length (UUID e) = 16)"
  using assms
proof (induction ids)
  case Nil
  then show ?case by simp
next
  case (Cons d ids)
  then obtain es u where "requeueEntries k ids c = (es, c)"
    "map (\<lambda>e. RestoreDocID c (UUID e)) es = ids"
    "\<forall>e \<in> set es. Collection e = k \<and> length (UUID e) = 16"
    "length u = 16" "d = RestoreDocID c u" by auto
  with Cons.prems(1) show ?case by (auto simp: extractUUID_RestoreDocID)
qed

lemma Requeue_wf_docs:
  assumes wf: "queue_wf (c, q)" and v: "requeue_valid (c, q) name ids"
  shows "queue_wf (Requeue name ids (c, q))
       \<and> queueDocs (Requeue name ids (c, q)) = map (Pair name) ids @ queueDocs (c, q)"
proof (cases "ids = []")
  case True
  with wf show ?thesis
    by (auto simp: Requeue_def queueDocs_def queue_wf_def queue_ok_def split: option.split)
next
  case False
  with v obtain k where ready: "codec_ready c" and k: "map_of (collectionEnums q) name = Some k"
    and ids: "\<forall>d \<in> set ids. \<exists>u. length u = 16 \<and> d = RestoreDocID c u"
    by (auto simp: requeue_valid_def)
  from requeueEntries_ready [OF ready ids, of k] obtain es where
    es: "requeueEntries k ids c = (es, c)" "map (\<lambda>e. RestoreDocID c (UUID e)) es = ids"
    "\<forall>e \<in> set es. Collection e = k \<and> length (UUID e) = 16" by blast
  from wf k have n: "map_of (collectionNames q) k = Some name"
    by (auto simp: queue_wf_def maps_ok_def)
  have "map (entryDoc c q) es = map (\<lambda>e. (name, RestoreDocID c (UUID e))) es"
    using es(3) n by (simp add: entryDoc_def)
  also have "\<dots> = map (Pair name) ids"
    unfolding es(2) [symmetric] by simp
  finally have "map (entryDoc c q) es = map (Pair name) ids" .
  moreover have "list_all (entry_ok q) es"
    using es(3) n by (auto simp: list_all_iff entry_ok_def)
  ultimately show ?thesis
    using wf ready by (simp add: Requeue_def k es(1) queue_wf_def queue_ok_def queueDocs_def)
qed

lemma requeue_valid_frame:
  "requeue_valid (c, snd (DrainDocs (int n) c q)) name' ids' \<longleftrightarrow> requeue_valid (c, q) name' ids'"
  by (simp add: requeue_valid_def DrainDocs_queue)

lemma requeueEntries_codec: "codec_ready c \<Longrightarrow> snd (requeueEntries k ids c) = c"
proof (induction ids)
  case Nil
  then show ?case by simp
next
  case (Cons d ids)
  then show ?case using extractUUID_ready [of c d]
    by (auto split: prod.splits sum.splits)
qed

lemma requeue_valid_Requeue:
  assumes "requeue_valid (c, q) name ids" and "requeue_valid (c, q) name' ids'"
  shows "requeue_valid (Requeue name ids (c, q)) name' ids'"
  using assms requeueEntries_codec [of c _ ids]
  by (auto simp: requeue_valid_def Requeue_def split: option.splits prod.splits)
    (metis snd_conv)+

lemma requeue_valid_docsOf:
  assumes wf: "queue_wf (c, q)"
  shows "requeue_valid (c, q) name (docsOf name (take n (queueDocs (c, q))))"
proof (cases "docsOf name (take n (queueDocs (c, q))) = []")
  case True
  then show ?thesis by (simp add: requeue_valid_def)
next
  case False
  let ?es = "take n (entries q)"
  have ok: "list_all (entry_ok q) ?es" and ready: "entries q \<noteq> [] \<longrightarrow> codec_ready c"
    using wf by (auto simp: queue_wf_def list_all_iff dest: in_set_takeD)
  have eq: "docsOf name (take n (queueDocs (c, q))) = map (\<lambda>e. RestoreDocID c (UUID e))
      (filter (\<lambda>e. map_of (collectionNames q) (Collection e) = Some name) ?es)"
    using docsOf_map_entryDoc [OF ok] by (simp add: queueDocs_def take_map)
  with False obtain e where e: "e \<in> set ?es" "map_of (collectionNames q) (Collection e) = Some name"
    by (auto simp: filter_empty_conv)
  then have "map_of (collectionEnums q) name \<noteq> None"
    using wf by (auto simp: queue_wf_def maps_ok_def)
  moreover have "codec_ready c" using ready e(1) by (auto dest: in_set_takeD)
  moreover have "\<exists>u. length u = 16 \<and> d = RestoreDocID c u"
    if "d \<in> set (docsOf name (take n (queueDocs (c, q))))" for d
    using that ok by (auto simp: eq list_all_iff entry_ok_def)
  ultimately show ?thesis by (simp add: requeue_valid_def)
qed

subsection \<open>The queue interface the pruner relies on\<close>

text \<open>
  The laws of a document queue with a drain from the front and a requeue at the front. The
  client lemma: after draining \<open>n\<close> documents and requeueing any of the drained collections,
  the queue holds exactly the requeued documents and those that were never drained.
\<close>

locale doc_fifo =
  fixes wf :: "'q \<Rightarrow> bool"
    and docs :: "'q \<Rightarrow> (string \<times> string) list"
    and valid :: "'q \<Rightarrow> string \<Rightarrow> string list \<Rightarrow> bool"
    and drain :: "nat \<Rightarrow> 'q \<Rightarrow> 'q"
    and requeue :: "string \<Rightarrow> string list \<Rightarrow> 'q \<Rightarrow> 'q"
  assumes wf_drain: "wf q \<Longrightarrow> wf (drain n q)"
    and docs_drain: "docs (drain n q) = drop n (docs q)"
    and wf_requeue: "wf q \<Longrightarrow> valid q name ids \<Longrightarrow> wf (requeue name ids q)"
    and docs_requeue:
      "wf q \<Longrightarrow> valid q name ids \<Longrightarrow> docs (requeue name ids q) = map (Pair name) ids @ docs q"
    and valid_drain: "valid (drain n q) name ids = valid q name ids"
    and valid_requeue:
      "valid q name ids \<Longrightarrow> valid q name' ids' \<Longrightarrow> valid (requeue name ids q) name' ids'"
    and valid_docs: "wf q \<Longrightarrow> valid q name (docsOf name (take n (docs q)))"
begin

lemma requeue_all:
  assumes "wf q" and "\<forall>g \<in> set gs. valid q (fst g) (snd g)"
  shows "wf (fold (\<lambda>g. requeue (fst g) (snd g)) gs q)
       \<and> mset (docs (fold (\<lambda>g. requeue (fst g) (snd g)) gs q))
         = mset (docs q) + mset (concat (map (\<lambda>g. map (Pair (fst g)) (snd g)) gs))"
  using assms
proof (induction gs arbitrary: q)
  case Nil
  then show ?case by simp
next
  case (Cons g gs)
  have v: "valid q (fst g) (snd g)" using Cons.prems by simp
  have "\<forall>h \<in> set gs. valid (requeue (fst g) (snd g) q) (fst h) (snd h)"
    using Cons.prems(2) valid_requeue [OF v] by simp
  from Cons.IH [OF wf_requeue [OF Cons.prems(1) v] this]
  show ?case using docs_requeue [OF Cons.prems(1) v] by (simp add: ac_simps)
qed

lemma drain_requeue:
  fixes n :: nat and names :: "string list"
  assumes "wf q"
  defines "gs \<equiv> map (\<lambda>name. (name, docsOf name (take n (docs q)))) names"
  shows "wf (fold (\<lambda>g. requeue (fst g) (snd g)) gs (drain n q))
       \<and> mset (docs (fold (\<lambda>g. requeue (fst g) (snd g)) gs (drain n q)))
         = mset (drop n (docs q))
           + mset (concat (map (\<lambda>name. map (Pair name) (docsOf name (take n (docs q)))) names))"
proof -
  have "\<forall>g \<in> set gs. valid (drain n q) (fst g) (snd g)"
    using valid_docs [OF assms(1)] by (auto simp: gs_def valid_drain)
  from requeue_all [OF wf_drain [OF assms(1)] this] show ?thesis
    by (simp add: docs_drain gs_def comp_def)
qed

end

abbreviation drainStep :: "nat \<Rightarrow> codec \<times> EventQueue \<Rightarrow> codec \<times> EventQueue" where
  "drainStep n s \<equiv> (fst s, snd (DrainDocs (int n) (fst s) (snd s)))"

interpretation evq: doc_fifo queue_wf queueDocs requeue_valid drainStep Requeue
proof unfold_locales
  fix s :: "codec \<times> EventQueue" and n name ids name' ids'
  obtain c q where s: "s = (c, q)" by (cases s)
  show "queue_wf s \<Longrightarrow> queue_wf (drainStep n s)" by (simp add: s DrainDocs_wf)
  show "queueDocs (drainStep n s) = drop n (queueDocs s)" by (simp add: s DrainDocs_docs)
  show "queue_wf s \<Longrightarrow> requeue_valid s name ids \<Longrightarrow> queue_wf (Requeue name ids s)"
    by (simp add: s Requeue_wf_docs)
  show "queue_wf s \<Longrightarrow> requeue_valid s name ids
      \<Longrightarrow> queueDocs (Requeue name ids s) = map (Pair name) ids @ queueDocs s"
    by (simp add: s Requeue_wf_docs)
  show "requeue_valid (drainStep n s) name ids = requeue_valid s name ids"
    by (simp add: s requeue_valid_frame)
  show "requeue_valid s name ids \<Longrightarrow> requeue_valid s name' ids'
      \<Longrightarrow> requeue_valid (Requeue name ids s) name' ids'"
    by (simp add: s requeue_valid_Requeue)
  show "queue_wf s \<Longrightarrow> requeue_valid s name (docsOf name (take n (queueDocs s)))"
    by (simp add: s requeue_valid_docsOf)
qed

subsection \<open>Construction and Push\<close>

lemma map_of_register:
  "map_of (collectionNames (register k v q)) = (map_of (collectionNames q))(k \<mapsto> v)"
  "map_of (collectionEnums (register k v q)) = (map_of (collectionEnums q))(v \<mapsto> k)"
  by (simp_all add: register_def update_conv')

lemma DefaultQueue_eq:
  "NewEventQueue DefaultCollectionConfig =
     \<lparr>entries = [], blockCount = 0, filePath = [],
      collectionNames =
        [(colBlock, ''Ethereum__Mainnet__Block''), (colBatchSig, ''Ethereum__Mainnet__BatchSignature''),
         (colALE, ''Ethereum__Mainnet__AccessListEntry''), (colLog, ''Ethereum__Mainnet__Log''),
         (colTx, ''Ethereum__Mainnet__Transaction''), (colBlockSig, ''Ethereum__Mainnet__BlockSignature''),
         (colAttRec, ''Ethereum__Mainnet__AttestationRecord'')],
      collectionEnums =
        [(''Ethereum__Mainnet__Block'', colBlock), (''Ethereum__Mainnet__BatchSignature'', colBatchSig),
         (''Ethereum__Mainnet__AccessListEntry'', colALE), (''Ethereum__Mainnet__Log'', colLog),
         (''Ethereum__Mainnet__Transaction'', colTx), (''Ethereum__Mainnet__BlockSignature'', colBlockSig),
         (''Ethereum__Mainnet__AttestationRecord'', colAttRec)]\<rparr>"
  by (simp add: NewEventQueue_def DefaultCollectionConfig_def register_def knownCollections_def)

lemma DefaultQueue_wf: "queue_wf (init_codec, NewEventQueue DefaultCollectionConfig)"
proof -
  let ?q = "NewEventQueue DefaultCollectionConfig"
  have "distinct (map fst (collectionNames ?q))" "distinct (map snd (collectionNames ?q))"
    "collectionEnums ?q = map prod.swap (collectionNames ?q)"
    by (simp_all add: DefaultQueue_eq)
  then have "map_of (collectionNames ?q) k = Some n \<longleftrightarrow> map_of (collectionEnums ?q) n = Some k"
    for k n by (simp only: map_of_swap)
  then have "maps_ok ?q" by (simp only: maps_ok_def) simp
  moreover have "entries ?q = []" "blockCount ?q = 0" by (simp_all add: DefaultQueue_eq)
  ultimately show ?thesis by (simp add: queue_wf_def queue_ok_def init_codec_def)
qed

lemma extractUUID_codec:
  assumes "docIDPrefixOnce c \<longrightarrow> codec_ready c" and "extractUUID d c = (r, c')"
  shows "(docIDPrefixOnce c' \<longrightarrow> codec_ready c') \<and> (codec_ready c \<longrightarrow> c' = c)
       \<and> (\<forall>u. r = Inr u \<longrightarrow> codec_ready c')"
  using assms
  by (auto simp: extractUUID_def once_prefix_def codec_ready_def split: option.splits if_splits
      dest!: indexByte_SomeD)

lemma Push_wf:
  assumes "queue_wf (c, q)"
  shows "queue_wf (Push name d (c, q))"
proof -
  obtain r c' where x: "extractUUID d c = (r, c')" by (cases "extractUUID d c")
  have e: "(docIDPrefixOnce c' \<longrightarrow> codec_ready c') \<and> (codec_ready c \<longrightarrow> c' = c)
       \<and> (\<forall>u. r = Inr u \<longrightarrow> codec_ready c')"
    using extractUUID_codec [OF _ x] assms by (simp add: queue_wf_def)
  show ?thesis
  proof (cases r)
    case (Inl a)
    with assms x e show ?thesis by (auto simp: Push_def queue_wf_def)
  next
    case (Inr u)
    with x have "length u = 16" by (auto dest: extractUUID_length)
    with Inr assms x e show ?thesis
      by (auto simp: Push_def queue_wf_def queue_ok_def maps_ok_def entry_ok_def split: option.split)
  qed
qed

lemma Push_docs:
  assumes "queue_wf (c, q)" "codec_ready c" "canonical_docID (docIDPrefix c) d u"
    "map_of (collectionEnums q) name = Some k"
  shows "queueDocs (Push name d (c, q)) = queueDocs (c, q) @ [(name, d)]"
proof -
  have "map_of (collectionNames q) k = Some name"
    using assms(1,4) by (auto simp: queue_wf_def maps_ok_def)
  moreover have "extractUUID d c = (Inr u, c)"
    using extractUUID_canonical [OF assms(3)] assms(2) by (simp add: once_prefix_def codec_ready_def)
  moreover have "RestoreDocID c u = d"
    using assms(3) by (simp add: RestoreDocID_def canonical_docID_def)
  ultimately show ?thesis
    using assms(4) by (simp add: Push_def queueDocs_def entryDoc_def)
qed

subsection \<open>DrainBlocks\<close>

lemma walkBlocks_spec:
  assumes "seen < cnt"
  shows "walkBlocks es cnt i seen = (j, s) \<Longrightarrow>
    (if j = 0 then s = seen + countBlocks es \<and> s < cnt
     else i < j \<and> j \<le> i + length es \<and> s = cnt \<and> seen + countBlocks (take (j - i) es) = cnt
          \<and> Collection (es ! (j - i - 1)) = colBlock)"
  using assms
proof (induction es arbitrary: i seen)
  case Nil
  then show ?case by auto
next
  case (Cons e es)
  show ?case
  proof (cases "Collection e = colBlock \<and> cnt \<le> seen + 1")
    case True
    with Cons.prems show ?thesis by auto
  next
    case False
    let ?seen = "if Collection e = colBlock then seen + 1 else seen"
    have "walkBlocks es cnt (i + 1) ?seen = (j, s)" "?seen < cnt"
      using False Cons.prems by (auto split: if_splits)
    from Cons.IH [OF this] show ?thesis
      by (cases "j = 0") (auto simp: take_Cons' nth_Cons' not_less_eq_eq Suc_diff_Suc split: if_splits)
  qed
qed

lemma walkBlocks_enough:
  assumes "seen < cnt" and "cnt \<le> seen + countBlocks es"
  shows "fst (walkBlocks es cnt i seen) \<noteq> 0"
  using walkBlocks_spec [OF assms(1), of es i] assms(2)
  by (cases "walkBlocks es cnt i seen") (auto split: if_splits)

lemma DrainBlocks_wf: "queue_wf (c, q) \<Longrightarrow> queue_wf (c, snd (DrainBlocks cnt c q))"
proof (cases "blockCount q \<le> 0 \<or> cnt \<le> 0")
  case True
  then show "queue_wf (c, q) \<Longrightarrow> ?thesis" by (simp add: DrainBlocks_def)
next
  case False
  obtain j s where w: "walkBlocks (entries q) cnt 0 0 = (j, s)" by fastforce
  from walkBlocks_spec [OF _ this] False
  have j: "j \<noteq> 0 \<Longrightarrow> s = countBlocks (take j (entries q))" by (auto split: if_splits)
  assume "queue_wf (c, q)"
  with False w j countBlocks_take_drop [of j "entries q"] show ?thesis
    by (auto simp: DrainBlocks_def queue_wf_def queue_ok_def list_all_iff dest: in_set_dropD)
qed

subsection \<open>Requeue of arbitrary identifiers\<close>

lemma requeueEntries_spec:
  assumes "docIDPrefixOnce c \<longrightarrow> codec_ready c" and "requeueEntries k ids c = (es, c')"
  shows "(\<forall>e \<in> set es. Collection e = k \<and> length (UUID e) = 16)
       \<and> (docIDPrefixOnce c' \<longrightarrow> codec_ready c') \<and> (codec_ready c \<longrightarrow> c' = c)
       \<and> (es \<noteq> [] \<longrightarrow> codec_ready c')"
  using assms
proof (induction ids arbitrary: c es c')
  case Nil
  then show ?case by auto
next
  case (Cons d ids)
  obtain r c1 where x: "extractUUID d c = (r, c1)" by (cases "extractUUID d c")
  note ex = extractUUID_codec [OF Cons.prems(1) x]
  obtain es1 c2 where y: "requeueEntries k ids c1 = (es1, c2)" by (cases "requeueEntries k ids c1")
  have IH: "(\<forall>e \<in> set es1. Collection e = k \<and> length (UUID e) = 16)
       \<and> (docIDPrefixOnce c2 \<longrightarrow> codec_ready c2) \<and> (codec_ready c1 \<longrightarrow> c2 = c1)
       \<and> (es1 \<noteq> [] \<longrightarrow> codec_ready c2)"
    using Cons.IH [OF _ y] ex by simp
  show ?case
  proof (cases r)
    case (Inl a)
    with Cons.prems(2) x y IH ex show ?thesis by auto
  next
    case (Inr u)
    with x have "length u = 16" by (auto dest: extractUUID_length)
    with Inr Cons.prems(2) x y IH ex show ?thesis by auto
  qed
qed

lemma Requeue_wf:
  assumes "queue_wf (c, q)"
  shows "queue_wf (Requeue name ids (c, q))"
proof (cases "map_of (collectionEnums q) name")
  case None
  with assms show ?thesis by (simp add: Requeue_def)
next
  case (Some k)
  obtain es c' where x: "requeueEntries k ids c = (es, c')" by (cases "requeueEntries k ids c")
  have "docIDPrefixOnce c \<longrightarrow> codec_ready c" using assms by (simp add: queue_wf_def)
  note r = requeueEntries_spec [OF this x]
  have "map_of (collectionNames q) k = Some name"
    using assms Some by (auto simp: queue_wf_def maps_ok_def)
  with r have "list_all (entry_ok q) es" by (auto simp: list_all_iff entry_ok_def)
  with assms r Some x show ?thesis by (auto simp: Requeue_def queue_wf_def queue_ok_def)
qed

subsection \<open>Reachable queues\<close>

lemma names_frame:
  "collectionNames (snd (Push n d s)) = collectionNames (snd s)"
  "collectionEnums (snd (Push n d s)) = collectionEnums (snd s)"
  "collectionNames (snd (Requeue n ids s)) = collectionNames (snd s)"
  "collectionEnums (snd (Requeue n ids s)) = collectionEnums (snd s)"
  "collectionNames (snd (DrainDocs k c q)) = collectionNames q"
  "collectionEnums (snd (DrainDocs k c q)) = collectionEnums q"
  "collectionNames (snd (DrainBlocks k c q)) = collectionNames q"
  "collectionEnums (snd (DrainBlocks k c q)) = collectionEnums q"
  by (auto simp: queue_defs Let_def split: prod.split sum.split option.split)

lemma mergeNames_frame [simp]:
  "entries (mergeNames kvs q) = entries q" "blockCount (mergeNames kvs q) = blockCount q"
  by (induction kvs q rule: mergeNames.induct) (auto simp: register_def)

lemma mergeNames_same:
  assumes "maps_ok q" and "\<forall>(k, v) \<in> set kvs. map_of (collectionNames q) k = Some v"
  shows "map_of (collectionNames (mergeNames kvs q)) = map_of (collectionNames q)
       \<and> map_of (collectionEnums (mergeNames kvs q)) = map_of (collectionEnums q)"
  using assms
proof (induction kvs arbitrary: q)
  case Nil
  then show ?case by simp
next
  case (Cons kv kvs)
  obtain k v where kv: "kv = (k, v)" by (cases kv)
  with Cons.prems have kn: "map_of (collectionNames q) k = Some v"
    and ke: "map_of (collectionEnums q) v = Some k"
    by (auto simp: maps_ok_def)
  then have same: "map_of (collectionNames (register k v q)) = map_of (collectionNames q)"
    "map_of (collectionEnums (register k v q)) = map_of (collectionEnums q)"
    by (simp_all add: map_of_register map_upd_triv)
  then have "maps_ok (register k v q)" using Cons.prems(1) by (simp add: maps_ok_def)
  with Cons.IH [of "register k v q"] Cons.prems(2) same kv show ?case by simp
qed

abbreviation freshQueue :: EventQueue where
  "freshQueue \<equiv> NewEventQueue DefaultCollectionConfig"

text \<open>
  The life of the host's prune queue: replication events push, the pruner drains and requeues,
  and a restart loads the file a previous shutdown saved into a fresh queue of a new process.
\<close>

inductive queue_reach :: "codec \<times> EventQueue \<Rightarrow> bool" where
  start: "LoadFromFile io dsk path (init_codec, freshQueue) = (r, s) \<Longrightarrow>
    dsk path = None \<or> dsk path = Some Garbage \<or> openFails io \<Longrightarrow> queue_reach s"
| push: "queue_reach s \<Longrightarrow> queue_reach (Push name d s)"
| drain: "queue_reach (c, q) \<Longrightarrow> queue_reach (c, snd (DrainDocs cnt c q))"
| drainBlocks: "queue_reach (c, q) \<Longrightarrow> queue_reach (c, snd (DrainBlocks cnt c q))"
| requeue: "queue_reach s \<Longrightarrow> queue_reach (Requeue name ids s)"
| restart: "queue_reach (c, q) \<Longrightarrow> docIDPrefix c \<noteq> [] \<Longrightarrow> filePath q \<noteq> [] \<Longrightarrow>
    Save no_faults c q dsk = (None, dsk') \<Longrightarrow>
    LoadFromFile no_faults dsk' path (init_codec, freshQueue) = (r, s) \<Longrightarrow>
    path = filePath q \<Longrightarrow> queue_reach s"

definition names_std :: "EventQueue \<Rightarrow> bool" where
  "names_std q \<longleftrightarrow> map_of (collectionNames q) = map_of (collectionNames freshQueue)
     \<and> map_of (collectionEnums q) = map_of (collectionEnums freshQueue)
     \<and> distinct (map fst (collectionNames q))"

lemma fresh_names: "maps_ok freshQueue" "names_std freshQueue" "entries freshQueue = []"
  "blockCount freshQueue = 0"
  using DefaultQueue_wf by (simp_all add: queue_wf_def names_std_def DefaultQueue_eq)

lemma distinct_mergeNames:
  "distinct (map fst (collectionNames q)) \<Longrightarrow> distinct (map fst (collectionNames (mergeNames kvs q)))"
  by (induction kvs q rule: mergeNames.induct) (simp_all add: register_def distinct_update)

lemma maps_ok_cong:
  "map_of (collectionNames q) = map_of (collectionNames q')
     \<and> map_of (collectionEnums q) = map_of (collectionEnums q') \<Longrightarrow> maps_ok q = maps_ok q'"
  by (simp add: maps_ok_def)

lemma entry_ok_cong:
  "map_of (collectionNames q) = map_of (collectionNames q') \<Longrightarrow> entry_ok q = entry_ok q'"
  by (simp add: entry_ok_def fun_eq_iff)

lemma load_saved:
  assumes wf: "queue_wf (c, q)" and std: "names_std q" and p: "docIDPrefix c \<noteq> []"
    and f: "filePath q \<noteq> []"
    and sv: "Save no_faults c q dsk = (None, dsk')"
    and ld: "LoadFromFile no_faults dsk' (filePath q) (init_codec, freshQueue) = (r, c', q')"
  shows "queue_wf (c', q') \<and> names_std q' \<and> entries q' = entries q
    \<and> r = Inr (Len q) \<and> (entries q \<noteq> [] \<longrightarrow> queueDocs (c', q') = queueDocs (c, q))"
proof (cases "entries q = []")
  case True
  with sv f have "dsk' (filePath q) = None"
    by (auto simp: Save_def takeSnapshot_def removeFile_def no_faults_def Let_def)
  with ld have "c' = init_codec" "q' = freshQueue\<lparr>filePath := filePath q\<rparr>" "r = Inr 0"
    by (auto simp: LoadFromFile_def Let_def)
  with True DefaultQueue_wf fresh_names show ?thesis
    by (simp add: queue_wf_def queue_ok_def maps_ok_def names_std_def Len_def)
next
  case False
  let ?q1 = "freshQueue\<lparr>filePath := filePath q, entries := entries q, blockCount := blockCount q\<rparr>"
  have "dsk' (filePath q) = Some (Gob (takeSnapshot c q))"
    using sv f False by (auto simp: Save_def takeSnapshot_def no_faults_def Let_def)
  with ld p have q': "q' = mergeNames (collectionNames q) ?q1" and c': "c' = once_prefix (docIDPrefix c) init_codec"
    and r: "r = Inr (Len q)"
    by (auto simp: LoadFromFile_def Let_def takeSnapshot_def no_faults_def Len_def)
  have "\<forall>(k, v) \<in> set (collectionNames q). map_of (collectionNames ?q1) k = Some v"
    using std by (auto simp: names_std_def simp flip: map_of_eq_Some_iff)
  moreover have "maps_ok ?q1" using fresh_names(1) by (simp add: maps_ok_def)
  ultimately have m: "map_of (collectionNames q') = map_of (collectionNames q)"
    "map_of (collectionEnums q') = map_of (collectionEnums q)"
    using mergeNames_same [of ?q1 "collectionNames q"] std q' by (simp_all add: names_std_def)
  have ready: "codec_ready c" using wf False by (simp add: queue_wf_def)
  have c'': "docIDPrefix c' = docIDPrefix c" "codec_ready c'"
    using ready by (simp_all add: c' once_prefix_def init_codec_def codec_ready_def)
  have "queue_wf (c', q')"
    using wf c''(2) maps_ok_cong [of q' q] m entry_ok_cong [OF m(1)]
    by (simp add: queue_wf_def queue_ok_def) (simp add: q')
  moreover have "names_std q'"
    using std m fresh_names(2) distinct_mergeNames [of ?q1 "collectionNames q"]
    by (simp add: names_std_def q')
  moreover have "queueDocs (c', q') = queueDocs (c, q)"
    using m c''(1) by (simp add: queueDocs_def entryDoc_def RestoreDocID_def q')
  ultimately show ?thesis using r q' by simp
qed

lemma reach_wf_std: "queue_reach s \<Longrightarrow> queue_wf s \<and> names_std (snd s)"
proof (induction rule: queue_reach.induct)
  case (start io dsk path r s)
  then have "s = (init_codec, freshQueue\<lparr>filePath := path\<rparr>)"
    by (auto simp: LoadFromFile_def Let_def split: option.splits if_splits)
  then show ?case using DefaultQueue_wf fresh_names
    by (simp add: queue_wf_def queue_ok_def names_std_def)
next
  case (push s name d)
  then show ?case using Push_wf [of "fst s" "snd s"] by (simp add: names_std_def names_frame)
next
  case (drain c q cnt)
  then show ?case using DrainDocs_wf_int by (simp add: names_std_def names_frame)
next
  case (drainBlocks c q cnt)
  then show ?case using DrainBlocks_wf by (simp add: names_std_def names_frame)
next
  case (requeue s name ids)
  then show ?case using Requeue_wf [of "fst s" "snd s"] by (simp add: names_std_def names_frame)
next
  case (restart c q dsk dsk' path r s)
  then show ?case using load_saved [of c q dsk dsk' r "fst s" "snd s"] by simp
qed

lemmas queue_facts = DrainDocs_wf DrainBlocks_wf Push_wf Requeue_wf DrainDocs_docs

subsection \<open>Concrete queues used as witnesses\<close>

definition demoCodec :: codec where
  "demoCodec = \<lparr>docIDPrefix = ''bae'', docIDPrefixOnce = True\<rparr>"

definition demoQueue :: EventQueue where
  "demoQueue = freshQueue\<lparr>filePath := ''q.gob'',
     entries := [\<lparr>Collection = colTx, UUID = replicate 16 1\<rparr>, \<lparr>Collection = colBlock, UUID = replicate 16 2\<rparr>],
     blockCount := 1\<rparr>"

definition demoPushed :: "codec \<times> EventQueue" where
  "demoPushed = Push ''Ethereum__Mainnet__Log'' (''bae'' @ ''-'' @ formatUUID (replicate 16 0))
     (init_codec, freshQueue\<lparr>filePath := ''q.gob''\<rparr>)"

lemma fresh_lookup:
  "map_of (collectionNames freshQueue) colTx = Some ''Ethereum__Mainnet__Transaction''"
  "map_of (collectionNames freshQueue) colBlock = Some ''Ethereum__Mainnet__Block''"
  "map_of (collectionEnums freshQueue) ''Ethereum__Mainnet__Log'' = Some colLog"
  by (simp_all add: DefaultQueue_eq)

lemma demo_wf: "queue_wf (demoCodec, demoQueue)"
  by (simp add: queue_wf_def demoCodec_def demoQueue_def queue_ok_def codec_ready_def fresh_names(1))
    (simp add: entry_ok_def fresh_lookup)

lemma demo_reach: "queue_reach demoPushed"
  unfolding demoPushed_def
  by (rule queue_reach.push, rule queue_reach.start [where dsk = Map.empty and path = "''q.gob''"])
    (simp_all add: LoadFromFile_def)

lemma demoPushed_eq:
  "demoPushed = (demoCodec, freshQueue\<lparr>filePath := ''q.gob'',
     entries := [\<lparr>Collection = colLog, UUID = replicate 16 0\<rparr>]\<rparr>)"
proof -
  have "canonical_docID ''bae'' (''bae'' @ ''-'' @ formatUUID (replicate 16 0)) (replicate 16 0)"
    by (simp add: canonical_docID_def)
  from extractUUID_canonical [OF this] show ?thesis
    by (simp add: demoPushed_def Push_def fresh_lookup once_prefix_def init_codec_def demoCodec_def
        fresh_names)
qed

subsection \<open>Properties\<close>



text \<open>
  C3. FIFO order. A drain of \<open>n\<close> documents returns, for every collection, exactly the
  documents of that collection among the \<open>n\<close> oldest, in arrival order, and leaves the
  remaining documents in the queue, in order.
\<close>

theorem drain_takes_oldest:
  assumes "queue_wf (c, q)" and "DrainDocs (int n) c q = (Some r, q')"
  shows "queueDocs (c, q') = drop n (queueDocs (c, q))
    \<and> (\<forall>name. map_of (DocIDsByCollection r) name =
         (if docsOf name (take n (queueDocs (c, q))) = [] then None
          else Some (docsOf name (take n (queueDocs (c, q))))))
    \<and> BlockCount r = countBlocks (take n (entries q))"
proof -
  have ne: "0 < n" "entries q \<noteq> []"
    using assms(2) by (auto simp: DrainDocs_def split: if_splits)
  have "BlockCount r = countBlocks (take n (entries q))"
    using assms(2) by (auto simp: DrainDocs_cases [OF ne])
  with DrainDocs_docs [of c n q] DrainDocs_result [OF assms] assms(2) show ?thesis
    by (simp add: Let_def)
qed

theorem drain_takes_oldest_witness:
  "\<exists>r q'. DrainDocs (int 1) demoCodec demoQueue = (Some r, q')
     \<and> queueDocs (demoCodec, q') = drop 1 (queueDocs (demoCodec, demoQueue))
     \<and> (\<forall>name. map_of (DocIDsByCollection r) name =
          (if docsOf name (take 1 (queueDocs (demoCodec, demoQueue))) = [] then None
           else Some (docsOf name (take 1 (queueDocs (demoCodec, demoQueue))))))
     \<and> BlockCount r = countBlocks (take 1 (entries demoQueue))"
proof -
  have ne: "0 < (1::nat)" "entries demoQueue \<noteq> []" by (simp_all add: demoQueue_def)
  from DrainDocs_cases [OF ne, of demoCodec] obtain r q' where
    d: "DrainDocs (int 1) demoCodec demoQueue = (Some r, q')" by blast
  with drain_takes_oldest [OF demo_wf d] show ?thesis by blast
qed

text \<open>
  Draining by blocks stops exactly at the requested block: when the queue holds at least
  \<open>cnt\<close> block entries, the drained prefix contains exactly \<open>cnt\<close> of them and ends with
  one; when it holds fewer, nothing is drained.
\<close>

theorem drain_blocks_exact:
  assumes "queue_wf (c, q)" and "0 < cnt"
  shows "if cnt \<le> blockCount q
    then \<exists>r n. 0 < n \<and> n \<le> length (entries q)
      \<and> DrainBlocks cnt c q = (Some r, q\<lparr>entries := drop n (entries q), blockCount := blockCount q - cnt\<rparr>)
      \<and> BlockCount r = cnt \<and> countBlocks (take n (entries q)) = cnt
      \<and> Collection (entries q ! (n - 1)) = colBlock
    else DrainBlocks cnt c q = (None, q)"
proof -
  obtain j s where w: "walkBlocks (entries q) cnt 0 0 = (j, s)" by fastforce
  have b: "blockCount q = countBlocks (entries q)" using assms(1) by (simp add: queue_wf_def queue_ok_def)
  show ?thesis
  proof (cases "cnt \<le> blockCount q")
    case True
    with walkBlocks_enough [of 0 cnt "entries q" 0] w b assms(2) have "j \<noteq> 0" by simp
    with walkBlocks_spec [OF assms(2) w] w assms(2) b True show ?thesis
      by (auto simp: DrainBlocks_def intro!: exI [of _ j])
  next
    case False
    have "j = 0"
    proof (rule ccontr)
      assume "j \<noteq> 0"
      with walkBlocks_spec [OF assms(2) w] have "countBlocks (take j (entries q)) = cnt" by simp
      with countBlocks_take_drop [of j "entries q"] countBlocks_nonneg [of "drop j (entries q)"]
        False b show False by linarith
    qed
    with False w show ?thesis by (simp add: DrainBlocks_def)
  qed
qed

theorem drain_blocks_exact_witness:
  "\<exists>r n. 0 < n \<and> n \<le> length (entries demoQueue)
      \<and> DrainBlocks 1 demoCodec demoQueue
          = (Some r, demoQueue\<lparr>entries := drop n (entries demoQueue), blockCount := blockCount demoQueue - 1\<rparr>)
      \<and> BlockCount r = 1 \<and> countBlocks (take n (entries demoQueue)) = 1
      \<and> Collection (entries demoQueue ! (n - 1)) = colBlock"
  using drain_blocks_exact [OF demo_wf, of 1] by (simp add: demoQueue_def)

text \<open>
  C4. Nothing is lost by draining and putting back: after draining \<open>n\<close> documents and
  requeueing the drained documents of any list of collections, the queue is well formed and
  holds, as a multiset, the undrained documents plus exactly those of the requeued collections.
\<close>

theorem drain_requeue_conserves:
  assumes "queue_wf s"
  shows "let s' = fold (\<lambda>g. Requeue (fst g) (snd g))
                    (map (\<lambda>name. (name, docsOf name (take n (queueDocs s)))) names) (drainStep n s)
    in queue_wf s' \<and> mset (queueDocs s') = mset (drop n (queueDocs s))
         + mset (concat (map (\<lambda>name. map (Pair name) (docsOf name (take n (queueDocs s)))) names))"
  using evq.drain_requeue [OF assms, of n names] by (simp add: Let_def)

theorem drain_requeue_conserves_witness:
  "let s' = fold (\<lambda>g. Requeue (fst g) (snd g))
              (map (\<lambda>name. (name, docsOf name (take 2 (queueDocs (demoCodec, demoQueue)))))
                 [''Ethereum__Mainnet__Transaction'']) (drainStep 2 (demoCodec, demoQueue))
   in queue_wf s' \<and> mset (queueDocs s') = mset (drop 2 (queueDocs (demoCodec, demoQueue)))
        + mset (concat (map (\<lambda>name. map (Pair name) (docsOf name (take 2 (queueDocs (demoCodec, demoQueue)))))
            [''Ethereum__Mainnet__Transaction'']))"
  by (rule drain_requeue_conserves [OF demo_wf])

text \<open>
  Saving is atomic: whichever system call fails, the file at the queue's path keeps its old
  contents, and no file other than that path and its temporary file changes.
\<close>

theorem save_atomic:
  assumes "Save io c q dsk = (r, dsk')"
  shows "(r \<noteq> None \<longrightarrow> dsk' (filePath q) = dsk (filePath q))
       \<and> (\<forall>p. p \<noteq> filePath q \<and> p \<noteq> filePath q @ ''.tmp'' \<longrightarrow> dsk' p = dsk p)"
  using assms by (auto simp: Save_def Let_def removeFile_def split: if_splits)

theorem save_atomic_witness:
  "\<exists>dsk'. Save (no_faults\<lparr>renameFails := True\<rparr>) demoCodec demoQueue Map.empty = (Some RenameTemp, dsk')
     \<and> dsk' ''q.gob'' = None"
proof -
  have e: "Save (no_faults\<lparr>renameFails := True\<rparr>) demoCodec demoQueue Map.empty = (Some RenameTemp, Map.empty)"
    by (simp add: Save_def no_faults_def demoQueue_def takeSnapshot_def removeFile_def fun_eq_iff)
  from save_atomic [OF this] e show ?thesis by simp
qed

text \<open>
  C5. Restart round trip: a queue reachable in one process, saved without faults and loaded by
  a new process, has the same entries and stands for the same documents, provided the captured
  prefix is not empty.
\<close>

theorem save_load_round_trip:
  assumes "queue_reach (c, q)" "docIDPrefix c \<noteq> []" "filePath q \<noteq> []" "entries q \<noteq> []"
  shows "\<exists>dsk' c' q'. Save no_faults c q dsk = (None, dsk')
    \<and> LoadFromFile no_faults dsk' (filePath q) (init_codec, freshQueue) = (Inr (Len q), c', q')
    \<and> entries q' = entries q \<and> queueDocs (c', q') = queueDocs (c, q) \<and> queue_wf (c', q')"
proof -
  obtain dsk' where sv: "Save no_faults c q dsk = (None, dsk')"
    using assms by (auto simp: Save_def no_faults_def Let_def takeSnapshot_def)
  obtain r c' q' where ld: "LoadFromFile no_faults dsk' (filePath q) (init_codec, freshQueue) = (r, c', q')"
    by (metis prod_cases3)
  from reach_wf_std [OF assms(1)] load_saved [OF _ _ assms(2,3) sv ld] assms(4) sv ld
  show ?thesis by auto
qed

theorem save_load_round_trip_witness:
  "\<exists>dsk' c' q'. Save no_faults (fst demoPushed) (snd demoPushed) Map.empty = (None, dsk')
    \<and> LoadFromFile no_faults dsk' ''q.gob'' (init_codec, freshQueue) = (Inr 1, c', q')
    \<and> entries q' = entries (snd demoPushed)
    \<and> queueDocs (c', q') = queueDocs demoPushed \<and> queue_wf (c', q')"
  using save_load_round_trip [of "fst demoPushed" "snd demoPushed" Map.empty] demo_reach
  by (simp add: demoPushed_eq demoCodec_def Len_def)

end
