(* ===== verification/Pruner.thy ===== *)
theory Pruner
  imports Event_Queue Defra_Query
begin

text \<open>
  \<open>pkg/pruner/pruner.go\<close> and \<open>config.go\<close>: the periodic pruner. The embedded DefraDB node
  is third-party code: its operations are the fields of the record \<open>defra\<close>, over an
  abstract store type \<open>'db\<close>, and are an argument of every function that calls them. The
  clock is an argument (\<open>now\<close>). Counters of documents held in memory are unbounded; the
  arithmetic on block numbers and on the configured limits wraps at 64 bits as in Go.
\<close>

record 'db defra =
  getCollectionByName :: "string \<Rightarrow> 'db \<Rightarrow> bool"
  newDocIDFromString :: "string \<Rightarrow> bool"
  purgeDocs :: "string \<Rightarrow> string list \<Rightarrow> bool \<Rightarrow> 'db \<Rightarrow> bool \<times> 'db"
  execRequest :: "string \<Rightarrow> 'db \<Rightarrow> gqlResult"

datatype prune_error = GetCollectionFailed string | PurgeFailed string | QueryFailed string

record prunerConfig =
  cfgEnabled :: bool
  MaxBlocks :: int
  DocsPerBlock :: int
  PruneThreshold :: int
  IntervalSeconds :: int
  PruneHistory :: bool

datatype prunerQueue = NilQueue | EvQueue EventQueue | OtherQueue

record Pruner =
  cfg :: prunerConfig
  collections :: CollectionConfig
  hasNode :: bool
  queue :: prunerQueue
  stopClosed :: bool
  lastPruneTime :: int
  totalBlocksPruned :: int
  totalDocsPruned :: int
  isRunning :: bool

record prunerMetrics =
  mEnabled :: bool
  mIsRunning :: bool
  mLastPruneTime :: int
  mTotalBlocksPruned :: int
  mTotalDocsPruned :: int

subsection \<open>Configuration\<close>

definition MaxDocs :: "prunerConfig \<Rightarrow> int" where
  "MaxDocs c = wrap64 (MaxBlocks c * DocsPerBlock c)"

definition SetDefaults :: "prunerConfig \<Rightarrow> prunerConfig" where
  "SetDefaults c =
     c\<lparr>MaxBlocks := (if MaxBlocks c \<le> 0 then 10000 else MaxBlocks c),
       DocsPerBlock := (if DocsPerBlock c \<le> 0 then 1000 else DocsPerBlock c),
       IntervalSeconds := (if IntervalSeconds c \<le> 0 then 60 else IntervalSeconds c)\<rparr>"

definition NewPruner :: "prunerConfig \<Rightarrow> bool \<Rightarrow> CollectionConfig list \<Rightarrow> Pruner" where
  "NewPruner c node colls =
     \<lparr>cfg = c, collections = (case colls of [] \<Rightarrow> DefaultCollectionConfig | cc # _ \<Rightarrow> cc),
      hasNode = node, queue = NilQueue, stopClosed = False, lastPruneTime = 0,
      totalBlocksPruned = 0, totalDocsPruned = 0, isRunning = False\<rparr>"

definition SetQueue :: "prunerQueue \<Rightarrow> Pruner \<Rightarrow> Pruner" where
  "SetQueue q p = p\<lparr>queue := q\<rparr>"

definition GetMetrics :: "Pruner \<Rightarrow> prunerMetrics" where
  "GetMetrics p =
     \<lparr>mEnabled = cfgEnabled (cfg p), mIsRunning = isRunning p, mLastPruneTime = lastPruneTime p,
      mTotalBlocksPruned = totalBlocksPruned p, mTotalDocsPruned = totalDocsPruned p\<rparr>"

subsection \<open>Document operations\<close>

definition purgeByDocIDs ::
  "'db defra \<Rightarrow> bool \<Rightarrow> string \<Rightarrow> string list \<Rightarrow> 'db \<Rightarrow> (prune_error + int) \<times> 'db" where
  "purgeByDocIDs D hist collectionName docIDs db =
     (if docIDs = [] then (Inr 0, db)
      else if \<not> getCollectionByName D collectionName db
      then (Inl (GetCollectionFailed collectionName), db)
      else
        let clientDocIDs = filter (newDocIDFromString D) docIDs in
        (case purgeDocs D collectionName clientDocIDs hist db of
           (False, db') \<Rightarrow> (Inl (PurgeFailed collectionName), db')
         | (True, db') \<Rightarrow> (Inr (int (length clientDocIDs)), db')))"

definition parseBlockNumber :: "gany \<Rightarrow> int" where
  "parseBlockNumber v =
     (case v of AFloat64 r \<Rightarrow> f64_to_int64 r | AInt64 i \<Rightarrow> i | AInt i \<Rightarrow> i | _ \<Rightarrow> 0)"

definition docIDField :: "gfields \<Rightarrow> string list" where
  "docIDField m = (case getField m ''_docID'' of AStr d \<Rightarrow> [d] | _ \<Rightarrow> [])"

fun scanMaps :: "string \<Rightarrow> int \<Rightarrow> gfields list \<Rightarrow> string list" where
  "scanMaps fieldName maxBlock [] = []"
| "scanMaps fieldName maxBlock (m # ms) =
     (if parseBlockNumber (getField m fieldName) > maxBlock then []
      else docIDField m @ scanMaps fieldName maxBlock ms)"

fun scanAnys :: "string \<Rightarrow> int \<Rightarrow> gany list \<Rightarrow> string list" where
  "scanAnys fieldName maxBlock [] = []"
| "scanAnys fieldName maxBlock (AMap m # ms) =
     (if parseBlockNumber (getField m fieldName) > maxBlock then []
      else docIDField m @ scanAnys fieldName maxBlock ms)"
| "scanAnys fieldName maxBlock (_ # ms) = scanAnys fieldName maxBlock ms"

definition oldestQuery :: "string \<Rightarrow> string \<Rightarrow> string" where
  "oldestQuery collectionName fieldName =
     ''query {'' @ NL @ TAB @ TAB @ collectionName @ ''(order: { '' @ fieldName @ '': ASC }, limit: ''
       @ showInt 50000 @ '') {'' @ NL @ TAB @ TAB @ TAB @ ''_docID'' @ NL @ TAB @ TAB @ TAB
       @ fieldName @ NL @ TAB @ TAB @ ''}'' @ NL @ TAB @ ''}''"

definition queryOldestDocIDs ::
  "'db defra \<Rightarrow> string \<Rightarrow> string \<Rightarrow> int \<Rightarrow> 'db \<Rightarrow> prune_error + string list" where
  "queryOldestDocIDs D collectionName fieldName maxBlockNumber db =
     (let result = execRequest D (oldestQuery collectionName fieldName) db in
      if gqlErrors result \<noteq> [] then Inl (QueryFailed collectionName)
      else (case gqlData result of
          AMap data \<Rightarrow>
            (case getField data collectionName of
               AMaps docs \<Rightarrow> Inr (scanMaps fieldName maxBlockNumber docs)
             | AAnys docs \<Rightarrow> Inr (scanAnys fieldName maxBlockNumber docs)
             | _ \<Rightarrow> Inr [])
        | _ \<Rightarrow> Inr []))"

subsection \<open>Block number queries\<close>

definition extractBlockNumber :: "CollectionConfig \<Rightarrow> gany \<Rightarrow> int" where
  "extractBlockNumber cc d =
     (case d of
        AMap data \<Rightarrow>
          (case getField data (BlockCollection cc) of
             AMaps (b # _) \<Rightarrow>
               (case map_of b (BlockNumberField cc) of Some v \<Rightarrow> parseBlockNumber v | None \<Rightarrow> 0)
           | AAnys (AMap b # _) \<Rightarrow>
               (case map_of b (BlockNumberField cc) of Some v \<Rightarrow> parseBlockNumber v | None \<Rightarrow> 0)
           | _ \<Rightarrow> 0)
      | _ \<Rightarrow> 0)"

definition blockNumberQuery :: "CollectionConfig \<Rightarrow> string \<Rightarrow> string" where
  "blockNumberQuery cc dir =
     ''query {'' @ NL @ TAB @ TAB @ BlockCollection cc @ '' (order: {'' @ BlockNumberField cc @ '': ''
       @ dir @ ''}, limit: 1) {'' @ NL @ TAB @ TAB @ TAB @ BlockNumberField cc @ NL @ TAB @ TAB
       @ ''}'' @ NL @ TAB @ ''}''"

definition getLowestBlockNumber :: "'db defra \<Rightarrow> CollectionConfig \<Rightarrow> 'db \<Rightarrow> prune_error + int" where
  "getLowestBlockNumber D cc db =
     (let result = execRequest D (blockNumberQuery cc ''ASC'') db in
      if gqlErrors result \<noteq> [] then Inl (QueryFailed (hd (gqlErrors result)))
      else Inr (extractBlockNumber cc (gqlData result)))"

definition getHighestBlockNumber :: "'db defra \<Rightarrow> CollectionConfig \<Rightarrow> 'db \<Rightarrow> prune_error + int" where
  "getHighestBlockNumber D cc db =
     (let result = execRequest D (blockNumberQuery cc ''DESC'') db in
      if gqlErrors result \<noteq> [] then Inl (QueryFailed (hd (gqlErrors result)))
      else Inr (extractBlockNumber cc (gqlData result)))"

subsection \<open>Pruning\<close>

text \<open>One iteration of the purge loop: purge a group, requeue it when the purge fails.\<close>

definition purgeGroup ::
  "'db defra \<Rightarrow> bool \<Rightarrow> (string \<times> string list) list \<Rightarrow> string
     \<Rightarrow> 'db \<times> (codec \<times> EventQueue) \<times> int \<Rightarrow> 'db \<times> (codec \<times> EventQueue) \<times> int" where
  "purgeGroup D hist groups colName st =
     (case st of (db, s, tot) \<Rightarrow>
      (case map_of groups colName of
         None \<Rightarrow> (db, s, tot)
       | Some docIDs \<Rightarrow>
           if docIDs = [] then (db, s, tot)
           else (case purgeByDocIDs D hist colName docIDs db of
               (Inl _, db') \<Rightarrow> (db', Requeue colName docIDs s, tot)
             | (Inr purged, db') \<Rightarrow> (db', s, tot + purged))))"

definition addTotals :: "int \<Rightarrow> int \<Rightarrow> int \<Rightarrow> Pruner \<Rightarrow> Pruner" where
  "addTotals blocks docs now p =
     p\<lparr>totalBlocksPruned := wrap64 (totalBlocksPruned p + blocks),
       totalDocsPruned := wrap64 (totalDocsPruned p + docs), lastPruneTime := now\<rparr>"

definition purgeFromDrainResult ::
  "'db defra \<Rightarrow> int \<Rightarrow> Pruner \<Rightarrow> DrainResult \<Rightarrow> 'db \<Rightarrow> codec \<times> EventQueue
     \<Rightarrow> Pruner \<times> 'db \<times> codec \<times> EventQueue" where
  "purgeFromDrainResult D now p result db s =
     (case fold (purgeGroup D (PruneHistory (cfg p)) (DocIDsByCollection result))
             (DependentCollections (collections p) @ [BlockCollection (collections p)]) (db, s, 0) of
        (db', s', totalPurged) \<Rightarrow> (addTotals (BlockCount result) totalPurged now p, db', s'))"

definition runEventQueuePrune ::
  "'db defra \<Rightarrow> int \<Rightarrow> Pruner \<Rightarrow> 'db \<Rightarrow> codec \<times> EventQueue
     \<Rightarrow> Pruner \<times> 'db \<times> codec \<times> EventQueue" where
  "runEventQueuePrune D now p db s =
     (case s of (c, q) \<Rightarrow>
      let totalDocs = Len q; maxDocs = MaxDocs (cfg p) in
      if totalDocs \<le> maxDocs then (p, db, s)
      else (case DrainDocs (wrap64 (totalDocs - maxDocs)) c q of
          (None, q') \<Rightarrow> (p, db, c, q')
        | (Some result, q') \<Rightarrow> purgeFromDrainResult D now p result db (c, q')))"

fun pruneDependents ::
  "'db defra \<Rightarrow> bool \<Rightarrow> int \<Rightarrow> string list \<Rightarrow> 'db \<Rightarrow> int \<Rightarrow> 'db \<times> int" where
  "pruneDependents D hist endBlock [] db tot = (db, tot)"
| "pruneDependents D hist endBlock (colName # names) db tot =
     (case queryOldestDocIDs D colName ''blockNumber'' endBlock db of
        Inl _ \<Rightarrow> pruneDependents D hist endBlock names db tot
      | Inr docIDs \<Rightarrow>
          if docIDs = [] then pruneDependents D hist endBlock names db tot
          else (case purgeByDocIDs D hist colName docIDs db of
              (Inl _, db') \<Rightarrow> pruneDependents D hist endBlock names db' tot
            | (Inr purged, db') \<Rightarrow> pruneDependents D hist endBlock names db' (tot + purged)))"

definition pruneBlockRange ::
  "'db defra \<Rightarrow> Pruner \<Rightarrow> int \<Rightarrow> int \<Rightarrow> 'db \<Rightarrow> (prune_error + int) \<times> 'db" where
  "pruneBlockRange D p startBlock endBlock db =
     (case pruneDependents D (PruneHistory (cfg p)) endBlock (DependentCollections (collections p)) db 0 of
        (db1, tot) \<Rightarrow>
          (case queryOldestDocIDs D (BlockCollection (collections p)) (BlockNumberField (collections p))
                  endBlock db1 of
             Inl e \<Rightarrow> (Inl e, db1)
           | Inr ids \<Rightarrow>
               if ids = [] then (Inr tot, db1)
               else (case purgeByDocIDs D (PruneHistory (cfg p)) (BlockCollection (collections p)) ids db1 of
                   (Inl e, db2) \<Rightarrow> (Inl e, db2)
                 | (Inr purged, db2) \<Rightarrow> (Inr (tot + purged), db2))))"

definition startupCleanup ::
  "'db defra \<Rightarrow> int \<Rightarrow> Pruner \<Rightarrow> 'db \<Rightarrow> prune_error option \<times> Pruner \<times> 'db" where
  "startupCleanup D now p db =
     (case getLowestBlockNumber D (collections p) db of
        Inl e \<Rightarrow> (Some e, p, db)
      | Inr lowest \<Rightarrow>
      (case getHighestBlockNumber D (collections p) db of
         Inl e \<Rightarrow> (Some e, p, db)
       | Inr highest \<Rightarrow>
          if lowest = 0 \<and> highest = 0 then (None, p, db)
          else
            let currentCount = wrap64 (highest - lowest + 1) in
            if currentCount \<le> MaxBlocks (cfg p) then (None, p, db)
            else
              let toPrune = wrap64 (currentCount - MaxBlocks (cfg p));
                  cutoffBlock = wrap64 (lowest + toPrune - 1) in
              (case pruneBlockRange D p lowest cutoffBlock db of
                 (Inl e, db') \<Rightarrow> (Some e, p, db')
               | (Inr purged, db') \<Rightarrow> (None, addTotals toPrune purged now p, db'))))"

definition filterBasedPrune ::
  "'db defra \<Rightarrow> int \<Rightarrow> Pruner \<Rightarrow> 'db \<Rightarrow> prune_error option \<times> Pruner \<times> 'db" where
  "filterBasedPrune D now p db =
     (case getHighestBlockNumber D (collections p) db of
        Inl e \<Rightarrow> (Some e, p, db)
      | Inr highest \<Rightarrow>
      if highest = 0 then (None, p, db)
      else (case getLowestBlockNumber D (collections p) db of
         Inl e \<Rightarrow> (Some e, p, db)
       | Inr lowest \<Rightarrow>
          if lowest = 0 then (None, p, db)
          else
            let dbBlockCount = wrap64 (highest - lowest + 1) in
            if dbBlockCount \<le> MaxBlocks (cfg p) then (None, p, db)
            else
              let excess = wrap64 (dbBlockCount - MaxBlocks (cfg p));
                  cutoff = wrap64 (lowest + excess - 1) in
              (case pruneBlockRange D p lowest cutoff db of
                 (Inl e, db') \<Rightarrow> (Some e, p, db')
               | (Inr purged, db') \<Rightarrow> (None, addTotals excess purged now p, db'))))"

definition runPrune ::
  "'db defra \<Rightarrow> int \<Rightarrow> Pruner \<Rightarrow> 'db \<Rightarrow> codec \<Rightarrow> prune_error option \<times> Pruner \<times> 'db \<times> codec" where
  "runPrune D now p db c =
     (case queue p of
        EvQueue q \<Rightarrow>
          (case runEventQueuePrune D now p db (c, q) of
             (p', db', c', q') \<Rightarrow> (None, p'\<lparr>queue := EvQueue q'\<rparr>, db', c'))
      | _ \<Rightarrow> (case filterBasedPrune D now p db of (e, p', db') \<Rightarrow> (e, p', db', c)))"

subsection \<open>Lifecycle\<close>

text \<open>
  \<open>pruneLoop\<close>: a startup cleanup unless the queue is an event queue, then one prune per
  tick until the context is done or the stop channel is closed. The input is what the select
  receives, in order.
\<close>

datatype loopEvent = Tick int | CtxDone | StopSignal

fun pruneTicks ::
  "'db defra \<Rightarrow> loopEvent list \<Rightarrow> Pruner \<times> 'db \<times> codec \<Rightarrow> Pruner \<times> 'db \<times> codec" where
  "pruneTicks D [] st = st"
| "pruneTicks D (Tick now # evs) st =
     (case st of (p, db, c) \<Rightarrow>
      (case runPrune D now p db c of (_, p', db', c') \<Rightarrow> pruneTicks D evs (p', db', c')))"
| "pruneTicks D (CtxDone # evs) st = st"
| "pruneTicks D (StopSignal # evs) st = st"

definition pruneLoop ::
  "'db defra \<Rightarrow> int \<Rightarrow> loopEvent list \<Rightarrow> Pruner \<times> 'db \<times> codec \<Rightarrow> Pruner \<times> 'db \<times> codec" where
  "pruneLoop D now evs st =
     (case st of (p, db, c) \<Rightarrow>
      (case queue p of
         EvQueue _ \<Rightarrow> pruneTicks D evs st
       | _ \<Rightarrow> (case startupCleanup D now p db of (_, p', db') \<Rightarrow> pruneTicks D evs (p', db', c))))"

text \<open>\<open>Start\<close> reports whether it spawned the loop.\<close>

definition Start :: "Pruner \<Rightarrow> bool \<times> Pruner" where
  "Start p =
     (if \<not> cfgEnabled (cfg p) then (False, p)
      else if \<not> hasNode p then (False, p)
      else if isRunning p then (False, p)
      else (True, p\<lparr>isRunning := True\<rparr>))"

text \<open>
  \<open>Stop\<close>: closing an already closed channel panics in Go, which is the error value.
  Saving the queue writes the disk.
\<close>

datatype stop_panic = CloseOfClosedChannel

definition Stop ::
  "io_faults \<Rightarrow> codec \<Rightarrow> Pruner \<Rightarrow> disk \<Rightarrow> stop_panic + Pruner \<times> disk" where
  "Stop io c p dsk =
     (if \<not> isRunning p then Inr (p, dsk)
      else if stopClosed p then Inl CloseOfClosedChannel
      else
        let p1 = p\<lparr>stopClosed := True\<rparr>;
            dsk' = (case queue p of EvQueue q \<Rightarrow> snd (Save io c q dsk) | _ \<Rightarrow> dsk)
        in Inr (p1\<lparr>isRunning := False\<rparr>, dsk'))"

subsection \<open>Specification of the purge loop\<close>

text \<open>
  What the loop did: the collections it tried, in order, with the outcome of each purge.
\<close>

fun purgeTrace ::
  "'db defra \<Rightarrow> bool \<Rightarrow> (string \<times> string list) list \<Rightarrow> string list \<Rightarrow> 'db
     \<Rightarrow> (string \<times> (prune_error + int)) list \<times> 'db" where
  "purgeTrace D hist groups [] db = ([], db)"
| "purgeTrace D hist groups (n # ns) db =
     (case map_of groups n of
        None \<Rightarrow> purgeTrace D hist groups ns db
      | Some ids \<Rightarrow>
          if ids = [] then purgeTrace D hist groups ns db
          else (case purgeByDocIDs D hist n ids db of
              (r, db') \<Rightarrow> (case purgeTrace D hist groups ns db' of (tr, db'') \<Rightarrow> ((n, r) # tr, db''))))"

definition failedOf :: "(string \<times> (prune_error + int)) list \<Rightarrow> string list" where
  "failedOf tr = map fst (filter (\<lambda>x. isl (snd x)) tr)"

definition purgedOf :: "(string \<times> (prune_error + int)) list \<Rightarrow> string list" where
  "purgedOf tr = map fst (filter (\<lambda>x. \<not> isl (snd x)) tr)"

subsection \<open>The purge loop against its specification\<close>

definition requeueAll :: "(string \<times> string list) list \<Rightarrow> string list \<Rightarrow> codec \<times> EventQueue \<Rightarrow> codec \<times> EventQueue" where
  "requeueAll groups ns s = fold (\<lambda>n. Requeue n (the (map_of groups n))) ns s"

fun sumPurged :: "(string \<times> (prune_error + int)) list \<Rightarrow> int" where
  "sumPurged [] = 0"
| "sumPurged ((_, Inl _) # tr) = sumPurged tr"
| "sumPurged ((_, Inr k) # tr) = k + sumPurged tr"

lemma trace_simps [simp]:
  "failedOf [] = []" "purgedOf [] = []"
  "failedOf ((n, Inl e) # tr) = n # failedOf tr" "failedOf ((n, Inr k) # tr) = failedOf tr"
  "purgedOf ((n, Inl e) # tr) = purgedOf tr" "purgedOf ((n, Inr k) # tr) = n # purgedOf tr"
  by (simp_all add: failedOf_def purgedOf_def)

lemma purge_fold:
  assumes "purgeTrace D hist groups ns db = (tr, db')"
  shows "fold (purgeGroup D hist groups) ns (db, s, t)
    = (db', requeueAll groups (failedOf tr) s, t + sumPurged tr)"
  using assms
proof (induction ns arbitrary: db s t tr)
  case Nil
  then show ?case by (simp add: requeueAll_def)
next
  case (Cons n ns)
  show ?case
  proof (cases "map_of groups n = None \<or> map_of groups n = Some []")
    case True
    then have "purgeTrace D hist groups ns db = (tr, db')"
      and "purgeGroup D hist groups n (db, s, t) = (db, s, t)"
      using Cons.prems by (auto simp: purgeGroup_def)
    with Cons.IH show ?thesis by simp
  next
    case False
    then obtain ids where ids: "map_of groups n = Some ids" "ids \<noteq> []" by auto
    obtain r db1 where r: "purgeByDocIDs D hist n ids db = (r, db1)" by fastforce
    obtain tr1 where tr1: "purgeTrace D hist groups ns db1 = (tr1, db')" "tr = (n, r) # tr1"
      using Cons.prems ids r by (auto split: prod.splits)
    show ?thesis
      using Cons.IH [OF tr1(1)] ids r tr1(2)
      by (cases r) (simp_all add: purgeGroup_def requeueAll_def)
  qed
qed

lemma trace_names:
  assumes "purgeTrace D hist groups ns db = (tr, db')"
  shows "map fst tr = filter (\<lambda>n. case map_of groups n of None \<Rightarrow> False | Some ids \<Rightarrow> ids \<noteq> []) ns"
  using assms
  by (induction ns arbitrary: db tr) (auto split: option.splits if_splits prod.splits)

lemma trace_grouped:
  "purgeTrace D hist groups ns db = (tr, db') \<Longrightarrow> n \<in> set (map fst tr) \<Longrightarrow> map_of groups n \<noteq> None"
  by (simp add: trace_names split: option.splits)

lemma failed_purged_mset: "mset (failedOf tr) + mset (purgedOf tr) = mset (map fst tr)"
  by (induction tr) (auto simp: failedOf_def purgedOf_def)

lemma mset_concat_map: "mset (concat (map f xs)) = (\<Sum>x\<in>#mset xs. mset (f x))"
  by (induction xs) auto

lemma docsOf_partition:
  assumes "distinct ns" and "\<forall>d \<in> set ds. fst d \<in> set ns"
  shows "mset (concat (map (\<lambda>n. map (Pair n) (docsOf n ds)) ns)) = mset ds"
  using assms
proof (induction ns arbitrary: ds)
  case Nil
  then show ?case by (cases ds) auto
next
  case (Cons n ns)
  let ?rest = "filter (\<lambda>d. fst d \<noteq> n) ds"
  have "docsOf m ds = docsOf m ?rest" if "m \<in> set ns" for m
    using Cons.prems(1) that by (auto simp: docsOf_def intro: arg_cong [where f = "map snd"] filter_cong)
  then have "map (\<lambda>m. map (Pair m) (docsOf m ds)) ns = map (\<lambda>m. map (Pair m) (docsOf m ?rest)) ns"
    by (intro map_cong refl) simp
  moreover have "mset (concat (map (\<lambda>m. map (Pair m) (docsOf m ?rest)) ns)) = mset ?rest"
    using Cons.prems by (intro Cons.IH) auto
  moreover have "mset (map (Pair n) (docsOf n ds)) + mset ?rest = mset ds"
    by (induction ds) (auto simp: docsOf_def)
  ultimately show ?case by (simp only: list.map concat.simps mset_append)
qed

lemma requeueAll_groups:
  assumes "\<forall>n \<in> set ns. map_of groups n = Some (f n)"
  shows "requeueAll groups ns s = fold (\<lambda>g. Requeue (fst g) (snd g)) (map (\<lambda>n. (n, f n)) ns) s"
  using assms unfolding requeueAll_def by (induction ns arbitrary: s) auto

text \<open>The collections a purge visits, in order.\<close>

abbreviation purgeOrder :: "Pruner \<Rightarrow> string list" where
  "purgeOrder p \<equiv> DependentCollections (collections p) @ [BlockCollection (collections p)]"

lemma runEventQueuePrune_spec:
  assumes wf: "queue_wf (c, q)" and over: "MaxDocs (cfg p) < Len q"
    and range: "int64_range (Len q - MaxDocs (cfg p))" and ne: "entries q \<noteq> []"
  defines "k \<equiv> nat (Len q - MaxDocs (cfg p))"
  defines "ds \<equiv> queueDocs (c, q)"
  obtains groups tr db' where
    "fst (DrainDocs (int k) c q) = Some \<lparr>DocIDsByCollection = groups, BlockCount = countBlocks (take k (entries q))\<rparr>"
    "\<forall>n. map_of groups n = (if docsOf n (take k ds) = [] then None else Some (docsOf n (take k ds)))"
    "purgeTrace D (PruneHistory (cfg p)) groups (purgeOrder p) db = (tr, db')"
    "runEventQueuePrune D now p db (c, q) =
       (addTotals (countBlocks (take k (entries q))) (sumPurged tr) now p, db',
        requeueAll groups (failedOf tr) (drainStep k (c, q)))"
    "queue_wf (requeueAll groups (failedOf tr) (drainStep k (c, q)))"
    "mset (queueDocs (requeueAll groups (failedOf tr) (drainStep k (c, q))))
       = mset (drop k ds) + mset (concat (map (\<lambda>n. map (Pair n) (docsOf n (take k ds))) (failedOf tr)))"
proof -
  have k: "0 < k" "wrap64 (Len q - MaxDocs (cfg p)) = int k" using over range by (simp_all add: k_def)
  let ?r = "\<lparr>DocIDsByCollection = groupByCollection c (collectionNames q) (take k (entries q)) [],
             BlockCount = countBlocks (take k (entries q))\<rparr>"
  obtain q1 where d: "DrainDocs (int k) c q = (Some ?r, q1)"
    using DrainDocs_cases [OF k(1) ne] by simp
  let ?g = "groupByCollection c (collectionNames q) (take k (entries q)) []"
  have g: "\<forall>n. map_of ?g n = (if docsOf n (take k ds) = [] then None else Some (docsOf n (take k ds)))"
    using DrainDocs_result [OF wf d] by (simp add: Let_def ds_def)
  obtain tr db' where tr: "purgeTrace D (PruneHistory (cfg p)) ?g (purgeOrder p) db = (tr, db')"
    by fastforce
  have fo: "\<forall>n \<in> set (failedOf tr). map_of ?g n = Some (docsOf n (take k ds))"
  proof
    fix n assume "n \<in> set (failedOf tr)"
    then have "n \<in> set (map fst tr)" by (auto simp: failedOf_def)
    then have "map_of ?g n \<noteq> None" by (rule trace_grouped [OF tr])
    then show "map_of ?g n = Some (docsOf n (take k ds))"
      unfolding g [rule_format] by (simp split: if_splits)
  qed
  have run: "runEventQueuePrune D now p db (c, q) =
       (addTotals (countBlocks (take k (entries q))) (sumPurged tr) now p, db',
        requeueAll ?g (failedOf tr) (drainStep k (c, q)))"
    using over k(2) d purge_fold [OF tr, of "drainStep k (c, q)" 0]
    by (simp add: runEventQueuePrune_def purgeFromDrainResult_def Let_def)
  have "queue_wf (requeueAll ?g (failedOf tr) (drainStep k (c, q)))"
    "mset (queueDocs (requeueAll ?g (failedOf tr) (drainStep k (c, q))))
       = mset (drop k ds) + mset (concat (map (\<lambda>n. map (Pair n) (docsOf n (take k ds))) (failedOf tr)))"
    using evq.drain_requeue [OF wf, of k "failedOf tr"]
    unfolding requeueAll_groups [OF fo] ds_def by blast+
  with that [OF _ g tr run] d show thesis by simp
qed


lemma concat_map_filter:
  "(\<And>x. x \<in> set xs \<Longrightarrow> \<not> P x \<Longrightarrow> f x = []) \<Longrightarrow> concat (map f (filter P xs)) = concat (map f xs)"
  by (induction xs) auto

lemma trace_split:
  "mset (concat (map f (map fst tr)))
     = mset (concat (map f (failedOf tr))) + mset (concat (map f (purgedOf tr)))"
  by (simp only: mset_concat_map flip: failed_purged_mset image_mset_union sum_mset.union)

lemma trace_covers:
  assumes tr: "purgeTrace D hist groups ns db = (tr, db')" and "distinct ns"
    and g: "\<forall>n. map_of groups n = (if docsOf n ds = [] then None else Some (docsOf n ds))"
    and "\<forall>d \<in> set ds. fst d \<in> set ns"
  shows "mset ds = mset (concat (map (\<lambda>n. map (Pair n) (docsOf n ds)) (failedOf tr)))
    + mset (concat (map (\<lambda>n. map (Pair n) (docsOf n ds)) (purgedOf tr)))"
proof -
  have "concat (map (\<lambda>n. map (Pair n) (docsOf n ds)) (map fst tr))
      = concat (map (\<lambda>n. map (Pair n) (docsOf n ds)) ns)"
    unfolding trace_names [OF tr] by (rule concat_map_filter) (auto simp: g split: if_splits)
  with docsOf_partition [OF assms(2,4)] show ?thesis by (metis trace_split)
qed

text \<open>With the default collections every queued document belongs to a collection the purge visits.\<close>

lemma default_order_covers:
  assumes "queue_wf (c, q)" "names_std q" "collections p = DefaultCollectionConfig"
    "d \<in> set (queueDocs (c, q))"
  shows "fst d \<in> set (purgeOrder p)"
proof -
  from assms(4) obtain e where e: "e \<in> set (entries q)" "d = entryDoc c q e" by (auto simp: queueDocs_def)
  with assms(1) obtain n where n: "map_of (collectionNames q) (Collection e) = Some n"
    by (auto simp: queue_wf_def list_all_iff entry_ok_def)
  with assms(2) have "map_of (collectionNames freshQueue) (Collection e) = Some n" by (simp add: names_std_def)
  then have "n \<in> snd ` set (collectionNames freshQueue)" by (force dest: map_of_SomeD)
  moreover have "snd ` set (collectionNames freshQueue) = set (purgeOrder p)"
    unfolding DefaultQueue_eq assms(3) by (simp add: DefaultCollectionConfig_def insert_commute)
  ultimately show ?thesis using n e by (simp add: entryDoc_def)
qed

lemma default_order_distinct: "collections p = DefaultCollectionConfig \<Longrightarrow> distinct (purgeOrder p)"
  by (simp add: DefaultCollectionConfig_def)

subsection \<open>Block ranges\<close>

lemma scanMaps_takeWhile:
  "scanMaps f m ds = concat (map docIDField (takeWhile (\<lambda>d. parseBlockNumber (getField d f) \<le> m) ds))"
  by (induction ds) auto

lemma takeWhile_sorted_filter:
  fixes key :: "'a \<Rightarrow> int"
  shows "sorted (map key xs) \<Longrightarrow> takeWhile (\<lambda>x. key x \<le> m) xs = filter (\<lambda>x. key x \<le> m) xs"
  by (induction xs) (auto simp: empty_filter_conv)

text \<open>
  Documented behaviour of the store that the block-range prune relies on, for a store whose
  collections are read by \<open>docs\<close> as (document id, block number) pairs: the oldest-first query
  answers with at most 50000 documents in ascending order of the block number, and a purge
  removes documents only from the collection it names and only those it lists.
\<close>

definition docRow :: "string \<Rightarrow> string \<times> int \<Rightarrow> gfields" where
  "docRow f d = [(''_docID'', AStr (fst d)), (f, AInt64 (snd d))]"

definition oldest_first :: "'db defra \<Rightarrow> ('db \<Rightarrow> string \<Rightarrow> (string \<times> int) list) \<Rightarrow> string \<Rightarrow> string \<Rightarrow> bool" where
  "oldest_first D docs coll f \<longleftrightarrow>
     (\<forall>db. \<exists>rows. execRequest D (oldestQuery coll f) db
          = \<lparr>gqlErrors = [], gqlData = AMap [(coll, AMaps (map (docRow f) rows))]\<rparr>
        \<and> mset rows \<subseteq># mset (docs db coll) \<and> length rows = min 50000 (length (docs db coll))
        \<and> sorted (map snd rows))"

definition purge_removes :: "'db defra \<Rightarrow> ('db \<Rightarrow> string \<Rightarrow> (string \<times> int) list) \<Rightarrow> bool" where
  "purge_removes D docs \<longleftrightarrow>
     (\<forall>coll ids hist db n. \<exists>gone. set gone \<subseteq> set ids \<and>
        docs (snd (purgeDocs D coll ids hist db)) n
          = (if n = coll then filter (\<lambda>d. fst d \<notin> set gone) (docs db n) else docs db n))"

abbreviation recent :: "int \<Rightarrow> ('db \<Rightarrow> string \<Rightarrow> (string \<times> int) list) \<Rightarrow> 'db \<Rightarrow> string \<Rightarrow> (string \<times> int) list" where
  "recent cutoff docs db n \<equiv> filter (\<lambda>d. cutoff < snd d) (docs db n)"

abbreviation unique_ids :: "('db \<Rightarrow> string \<Rightarrow> (string \<times> int) list) \<Rightarrow> 'db \<Rightarrow> bool" where
  "unique_ids docs db \<equiv> (\<forall>n. distinct (map fst (docs db n)))"

lemma docRow_simps:
  "f \<noteq> ''_docID'' \<Longrightarrow> parseBlockNumber (getField (docRow f d) f) = snd d"
  "docIDField (docRow f d) = [fst d]"
  by (simp_all add: docRow_def getField_def parseBlockNumber_def docIDField_def)

lemma scan_rows:
  "f \<noteq> ''_docID'' \<Longrightarrow> scanMaps f m (map (docRow f) rows) = map fst (takeWhile (\<lambda>d. snd d \<le> m) rows)"
  by (induction rows) (auto simp: docRow_simps)

lemma oldest_ids_old:
  assumes "oldest_first D docs coll f" "f \<noteq> ''_docID''"
  obtains rows where
    "queryOldestDocIDs D coll f m db = Inr (map fst (takeWhile (\<lambda>d. snd d \<le> m) rows))"
    "mset rows \<subseteq># mset (docs db coll)"
proof -
  from assms(1) obtain rows where
    e: "execRequest D (oldestQuery coll f) db
          = \<lparr>gqlErrors = [], gqlData = AMap [(coll, AMaps (map (docRow f) rows))]\<rparr>"
    and r: "mset rows \<subseteq># mset (docs db coll)"
    unfolding oldest_first_def by blast
  then show thesis
    using that [of rows] scan_rows [OF assms(2), of m rows]
    by (simp add: queryOldestDocIDs_def getField_def)
qed

lemma purge_old_keeps_recent:
  assumes pr: "purge_removes D docs" and u: "unique_ids docs db"
    and rows: "mset rows \<subseteq># mset (docs db coll)"
    and ids: "set ids \<subseteq> fst ` set (takeWhile (\<lambda>d. snd d \<le> m) rows)"
  shows "recent m docs (snd (purgeByDocIDs D hist coll ids db)) = recent m docs db
    \<and> unique_ids docs (snd (purgeByDocIDs D hist coll ids db))"
proof -
  let ?ids = "filter (newDocIDFromString D) ids"
  have old: "\<forall>d \<in> set (docs db coll). fst d \<in> set ids \<longrightarrow> snd d \<le> m"
  proof (intro ballI impI)
    fix d assume d: "d \<in> set (docs db coll)" "fst d \<in> set ids"
    then obtain d' where d': "d' \<in> set (takeWhile (\<lambda>d. snd d \<le> m) rows)" "fst d' = fst d" using ids by force
    then have "d' \<in># mset rows" by (auto dest: set_takeWhileD)
    then have "d' \<in> set (docs db coll)" using mset_subset_eqD [OF rows] by simp
    with u d d' have "d' = d" by (metis eq_key_imp_eq_value prod.collapse)
    with d' show "snd d \<le> m" by (auto dest: set_takeWhileD)
  qed
  have step: "recent m docs (snd (purgeDocs D coll ?ids hist db)) n = recent m docs db n
     \<and> distinct (map fst (docs (snd (purgeDocs D coll ?ids hist db)) n))" for n
  proof -
    from pr obtain gone where g: "set gone \<subseteq> set ?ids"
      "docs (snd (purgeDocs D coll ?ids hist db)) n
          = (if n = coll then filter (\<lambda>d. fst d \<notin> set gone) (docs db n) else docs db n)"
      unfolding purge_removes_def by blast
    have "\<forall>d \<in> set (docs db coll). fst d \<in> set gone \<longrightarrow> snd d \<le> m" using g(1) old by auto
    then have "filter (\<lambda>d. m < snd d) (filter (\<lambda>d. fst d \<notin> set gone) (docs db coll)) = recent m docs db coll"
      unfolding filter_filter by (intro filter_cong refl) force
    with g(2) u show ?thesis by (simp add: distinct_map_filter)
  qed
  have "snd (purgeByDocIDs D hist coll ids db) \<in> {db, snd (purgeDocs D coll ?ids hist db)}"
    by (simp add: purgeByDocIDs_def Let_def split: prod.split bool.split)
  then consider "snd (purgeByDocIDs D hist coll ids db) = db"
    | "snd (purgeByDocIDs D hist coll ids db) = snd (purgeDocs D coll ?ids hist db)" by blast
  then show ?thesis by cases (simp_all add: step u fun_eq_iff)
qed

lemma pruneDependents_keeps_recent:
  assumes pr: "purge_removes D docs" and of: "\<forall>n \<in> set names. oldest_first D docs n ''blockNumber''"
    and "unique_ids docs db"
  shows "recent m docs (fst (pruneDependents D hist m names db tot)) = recent m docs db
    \<and> unique_ids docs (fst (pruneDependents D hist m names db tot))"
  using of assms(3)
proof (induction names arbitrary: db tot)
  case Nil
  then show ?case by simp
next
  case (Cons n names)
  obtain rows where q: "queryOldestDocIDs D n ''blockNumber'' m db = Inr (map fst (takeWhile (\<lambda>d. snd d \<le> m) rows))"
    and r: "mset rows \<subseteq># mset (docs db n)"
    using oldest_ids_old [of D docs n "''blockNumber''" m db] Cons.prems(1) by auto
  obtain res db1 where p: "purgeByDocIDs D hist n (map fst (takeWhile (\<lambda>d. snd d \<le> m) rows)) db = (res, db1)"
    by fastforce
  have k: "recent m docs db1 = recent m docs db" "unique_ids docs db1"
    using purge_old_keeps_recent [OF pr Cons.prems(2) r, of "map fst (takeWhile (\<lambda>d. snd d \<le> m) rows)" m hist] p
    by simp_all
  show ?case
    using Cons.IH [of db] Cons.IH [of db1] Cons.prems k by (simp add: q p split: sum.split)
qed

lemma pruneBlockRange_keeps_recent:
  assumes pr: "purge_removes D docs" and u: "unique_ids docs db"
    and of: "\<forall>n \<in> set (DependentCollections (collections p)). oldest_first D docs n ''blockNumber''"
    and ob: "oldest_first D docs (BlockCollection (collections p)) (BlockNumberField (collections p))"
    and nf: "BlockNumberField (collections p) \<noteq> ''_docID''"
  shows "recent m docs (snd (pruneBlockRange D p lo m db)) = recent m docs db"
proof -
  let ?b = "BlockCollection (collections p)" and ?h = "PruneHistory (cfg p)"
  obtain db1 tot where d: "pruneDependents D ?h m (DependentCollections (collections p)) db 0 = (db1, tot)"
    by fastforce
  with pruneDependents_keeps_recent [OF pr of u, of m ?h 0]
  have k: "recent m docs db1 = recent m docs db" "unique_ids docs db1" by simp_all
  obtain rows where q: "queryOldestDocIDs D ?b (BlockNumberField (collections p)) m db1
      = Inr (map fst (takeWhile (\<lambda>d. snd d \<le> m) rows))" and r: "mset rows \<subseteq># mset (docs db1 ?b)"
    using oldest_ids_old [OF ob nf] by blast
  obtain res db2 where p: "purgeByDocIDs D ?h ?b (map fst (takeWhile (\<lambda>d. snd d \<le> m) rows)) db1 = (res, db2)"
    by fastforce
  have "recent m docs db2 = recent m docs db1"
    using purge_old_keeps_recent [OF pr k(2) r, of "map fst (takeWhile (\<lambda>d. snd d \<le> m) rows)" m ?h] p
    by simp
  with k show ?thesis by (simp add: pruneBlockRange_def d q p split: sum.split)
qed

lemma cutoff_arith:
  assumes "0 < lo" "lo \<le> hi" "hi < 2 ^ 63" "0 \<le> mx" "mx < hi - lo + 1"
  shows "wrap64 (hi - lo + 1) = hi - lo + 1" "wrap64 (hi - lo + 1 - mx) = hi - lo + 1 - mx"
    "wrap64 (lo + (hi - lo + 1 - mx) - 1) = hi - mx"
  using assms by (simp_all add: wrap64_def)

lemma filterBasedPrune_cutoff:
  assumes "getHighestBlockNumber D (collections p) db = Inr hi"
    and "getLowestBlockNumber D (collections p) db = Inr lo"
    and "0 < lo" "lo \<le> hi" "hi < 2 ^ 63" "0 \<le> MaxBlocks (cfg p)"
  shows "filterBasedPrune D now p db =
    (if hi - lo + 1 \<le> MaxBlocks (cfg p) then (None, p, db)
     else (case pruneBlockRange D p lo (hi - MaxBlocks (cfg p)) db of
         (Inl e, db') \<Rightarrow> (Some e, p, db')
       | (Inr n, db') \<Rightarrow> (None, addTotals (hi - lo + 1 - MaxBlocks (cfg p)) n now p, db')))"
proof (cases "hi - lo + 1 \<le> MaxBlocks (cfg p)")
  case True
  moreover have "wrap64 (hi - lo + 1) = hi - lo + 1" using assms by (simp add: wrap64_def)
  ultimately show ?thesis using assms by (simp add: filterBasedPrune_def)
next
  case False
  with cutoff_arith [OF assms(3-6)] assms show ?thesis
    by (simp add: filterBasedPrune_def Let_def)
qed

subsection \<open>Concrete pruners used as witnesses\<close>

definition demoPrunerCfg :: prunerConfig where
  "demoPrunerCfg = \<lparr>cfgEnabled = True, MaxBlocks = 1, DocsPerBlock = 1, PruneThreshold = 0,
                    IntervalSeconds = 60, PruneHistory = False\<rparr>"

type_synonym demoStore = "string \<Rightarrow> (string \<times> int) list"

text \<open>A store with a block and a log collection, each document a pair of id and block number.\<close>

definition demoColls :: CollectionConfig where
  "demoColls = \<lparr>BlockCollection = ''B'', BlockNumberField = ''number'', DependentCollections = [''L'']\<rparr>"

definition demoAnswer :: "string \<Rightarrow> demoStore \<Rightarrow> gqlResult" where
  "demoAnswer req db =
     \<lparr>gqlErrors = [], gqlData =
        (if req = oldestQuery ''B'' ''number''
         then AMap [(''B'', AMaps (map (docRow ''number'') (take 50000 (sort_key snd (db ''B'')))))]
         else if req = oldestQuery ''L'' ''blockNumber''
         then AMap [(''L'', AMaps (map (docRow ''blockNumber'') (take 50000 (sort_key snd (db ''L'')))))]
         else if req = blockNumberQuery demoColls ''ASC''
         then AMap [(''B'', AMaps (map (docRow ''number'') (take 1 (sort_key snd (db ''B'')))))]
         else if req = blockNumberQuery demoColls ''DESC''
         then AMap [(''B'', AMaps (map (docRow ''number'') (take 1 (rev (sort_key snd (db ''B''))))))]
         else ANil)\<rparr>"

definition demoDefra :: "demoStore defra" where
  "demoDefra = \<lparr>getCollectionByName = (\<lambda>n db. True), newDocIDFromString = (\<lambda>d. True),
     purgeDocs = (\<lambda>n ids hist db. (True, db(n := filter (\<lambda>d. fst d \<notin> set ids) (db n)))),
     execRequest = demoAnswer\<rparr>"

definition demoDocs :: demoStore where
  "demoDocs = (\<lambda>n. if n = ''B'' then [(''b1'', 5), (''b2'', 6)] else if n = ''L'' then [(''l1'', 5)] else [])"

abbreviation demoPruner :: Pruner where
  "demoPruner \<equiv> NewPruner demoPrunerCfg True [demoColls]"

lemma demo_purge_removes: "purge_removes demoDefra (\<lambda>db. db)"
  by (auto simp: purge_removes_def demoDefra_def)

lemma mset_take_subset: "mset (take n xs) \<subseteq># mset xs"
  by (metis append_take_drop_id mset_append mset_subset_eq_add_left)

lemma demo_queries_differ:
  "oldestQuery ''L'' ''blockNumber'' \<noteq> oldestQuery ''B'' ''number''"
  "blockNumberQuery demoColls ''ASC'' \<noteq> oldestQuery ''B'' ''number''"
  "blockNumberQuery demoColls ''ASC'' \<noteq> oldestQuery ''L'' ''blockNumber''"
  "blockNumberQuery demoColls ''DESC'' \<noteq> oldestQuery ''B'' ''number''"
  "blockNumberQuery demoColls ''DESC'' \<noteq> oldestQuery ''L'' ''blockNumber''"
  "blockNumberQuery demoColls ''DESC'' \<noteq> blockNumberQuery demoColls ''ASC''"
  by (simp_all add: oldestQuery_def blockNumberQuery_def demoColls_def)

lemma demo_oldest_first:
  "oldest_first demoDefra (\<lambda>db. db) ''B'' ''number''"
  "oldest_first demoDefra (\<lambda>db. db) ''L'' ''blockNumber''"
proof -
  have r: "mset (take 50000 (sort_key snd xs)) \<subseteq># mset xs"
    "length (take 50000 (sort_key snd xs)) = min 50000 (length xs)"
    "sorted (map snd (take 50000 (sort_key snd xs)))" for xs :: "(string \<times> int) list"
    using mset_take_subset [of 50000 "sort_key snd xs"] by (simp_all add: take_map [symmetric] sorted_wrt_take)
  show "oldest_first demoDefra (\<lambda>db. db) ''B'' ''number''"
    "oldest_first demoDefra (\<lambda>db. db) ''L'' ''blockNumber''"
    unfolding oldest_first_def demoDefra_def demoAnswer_def
    using r demo_queries_differ by (auto intro!: exI)
qed

lemma demo_block_numbers:
  "getHighestBlockNumber demoDefra demoColls demoDocs = Inr 6"
  "getLowestBlockNumber demoDefra demoColls demoDocs = Inr 5"
  using demo_queries_differ
  by (simp_all add: getHighestBlockNumber_def getLowestBlockNumber_def demoDefra_def demoAnswer_def demoDocs_def
      extractBlockNumber_def getField_def docRow_def parseBlockNumber_def)
    (simp_all add: demoColls_def)

subsection \<open>Properties\<close>

lemma purged_groups:
  assumes "purgeTrace D hist groups ns db = (tr, db')"
    and "\<forall>n. map_of groups n = (if docsOf n ds = [] then None else Some (docsOf n ds))"
    and "n \<in> set (purgedOf tr)"
  shows "the (map_of groups n) = docsOf n ds"
proof -
  have "n \<in> set (map fst tr)" using assms(3) by (auto simp: purgedOf_def)
  then have "map_of groups n \<noteq> None" by (rule trace_grouped [OF assms(1)])
  then show ?thesis unfolding assms(2) [rule_format] by (simp split: if_splits)
qed

text \<open>
  C6. Conservation. When the queue of a running host holds more documents than the limit, a
  prune hands the excess to the store: afterwards every document that was queued is either
  still queued or belonged to a collection whose purge succeeded, with multiplicity, and none
  is both. The newest documents up to the limit all stay queued, the queue is well formed, and
  the document counter grows by what the store reported.
\<close>

theorem prune_conserves:
  assumes "queue_reach (c, q)" "collections p = DefaultCollectionConfig"
    and "0 \<le> MaxDocs (cfg p)" "MaxDocs (cfg p) < Len q" "Len q < 2 ^ 63"
  shows "\<exists>groups tr db' p' s'.
    map_option DocIDsByCollection (fst (DrainDocs (Len q - MaxDocs (cfg p)) c q)) = Some groups
    \<and> purgeTrace D (PruneHistory (cfg p)) groups (purgeOrder p) db = (tr, db')
    \<and> runEventQueuePrune D now p db (c, q) = (p', db', s') \<and> queue_wf s'
    \<and> mset (queueDocs (c, q)) = mset (queueDocs s')
        + mset (concat (map (\<lambda>n. map (Pair n) (the (map_of groups n))) (purgedOf tr)))
    \<and> mset (drop (nat (Len q - MaxDocs (cfg p))) (queueDocs (c, q))) \<subseteq># mset (queueDocs s')
    \<and> totalDocsPruned p' = wrap64 (totalDocsPruned p + sumPurged tr)"
proof -
  from reach_wf_std [OF assms(1)] have wf: "queue_wf (c, q)" "names_std q" by simp_all
  define k where "k = nat (Len q - MaxDocs (cfg p))"
  let ?ds = "queueDocs (c, q)"
  have r: "int64_range (Len q - MaxDocs (cfg p))" "entries q \<noteq> []"
    using assms(3-5) by (auto simp: int64_range_def Len_def)
  obtain groups tr db' where
    d: "fst (DrainDocs (int k) c q) = Some \<lparr>DocIDsByCollection = groups, BlockCount = countBlocks (take k (entries q))\<rparr>"
    and g: "\<forall>n. map_of groups n = (if docsOf n (take k ?ds) = [] then None else Some (docsOf n (take k ?ds)))"
    and tr: "purgeTrace D (PruneHistory (cfg p)) groups (purgeOrder p) db = (tr, db')"
    and run: "runEventQueuePrune D now p db (c, q) =
       (addTotals (countBlocks (take k (entries q))) (sumPurged tr) now p, db',
        requeueAll groups (failedOf tr) (drainStep k (c, q)))"
    and wf': "queue_wf (requeueAll groups (failedOf tr) (drainStep k (c, q)))"
    and m: "mset (queueDocs (requeueAll groups (failedOf tr) (drainStep k (c, q))))
       = mset (drop k ?ds) + mset (concat (map (\<lambda>n. map (Pair n) (docsOf n (take k ?ds))) (failedOf tr)))"
    by (rule runEventQueuePrune_spec [OF wf(1) assms(4) r, of D db now, folded k_def])
  have "mset (take k ?ds) = mset (concat (map (\<lambda>n. map (Pair n) (docsOf n (take k ?ds))) (failedOf tr)))
    + mset (concat (map (\<lambda>n. map (Pair n) (docsOf n (take k ?ds))) (purgedOf tr)))"
    using default_order_covers [OF wf assms(2)]
    by (intro trace_covers [OF tr default_order_distinct [OF assms(2)] g]) (auto dest: in_set_takeD)
  moreover have "map (\<lambda>n. map (Pair n) (docsOf n (take k ?ds))) (purgedOf tr)
      = map (\<lambda>n. map (Pair n) (the (map_of groups n))) (purgedOf tr)"
    using purged_groups [OF tr g] by (intro map_cong refl) simp
  moreover have "mset ?ds = mset (take k ?ds) + mset (drop k ?ds)"
    by (metis append_take_drop_id mset_append)
  ultimately have "mset ?ds = mset (queueDocs (requeueAll groups (failedOf tr) (drainStep k (c, q))))
        + mset (concat (map (\<lambda>n. map (Pair n) (the (map_of groups n))) (purgedOf tr)))"
    unfolding m by (simp only: ac_simps)
  moreover have "map_option DocIDsByCollection (fst (DrainDocs (Len q - MaxDocs (cfg p)) c q)) = Some groups"
    using d assms(4) by (simp add: k_def)
  ultimately show ?thesis unfolding k_def [symmetric]
    using tr run wf' m by (intro exI conjI) (assumption | simp add: addTotals_def)+
qed

theorem prune_conserves_witness:
  "\<exists>groups tr db' p' s'.
    purgeTrace demoDefra False groups
        (purgeOrder (NewPruner (demoPrunerCfg\<lparr>MaxBlocks := 0\<rparr>) True [])) demoDocs = (tr, db')
    \<and> runEventQueuePrune demoDefra 7 (NewPruner (demoPrunerCfg\<lparr>MaxBlocks := 0\<rparr>) True []) demoDocs
        (fst demoPushed, snd demoPushed) = (p', db', s') \<and> queue_wf s'
    \<and> mset (queueDocs demoPushed) = mset (queueDocs s')
        + mset (concat (map (\<lambda>n. map (Pair n) (the (map_of groups n))) (purgedOf tr)))"
  using prune_conserves [of "fst demoPushed" "snd demoPushed"
      "NewPruner (demoPrunerCfg\<lparr>MaxBlocks := 0\<rparr>) True []" demoDefra demoDocs 7] demo_reach
  by (simp add: NewPruner_def demoPrunerCfg_def MaxDocs_def Len_def demoPushed_eq wrap64_def) blast

text \<open>
  C7. The newest blocks are never pruned. In the block-range mode, if the store answers the
  oldest-first query as documented and a purge removes only listed documents of its own
  collection, then a prune leaves every document whose block number is among the
  \<open>MaxBlocks\<close> newest numbers where it was, in every collection, whether or not some purge
  fails.
\<close>

theorem prune_keeps_newest_blocks:
  assumes "purge_removes D docs" "\<forall>n. distinct (map fst (docs db n))"
    and "\<forall>n \<in> set (DependentCollections (collections p)). oldest_first D docs n ''blockNumber''"
    and "oldest_first D docs (BlockCollection (collections p)) (BlockNumberField (collections p))"
    and "BlockNumberField (collections p) \<noteq> ''_docID''"
    and "getHighestBlockNumber D (collections p) db = Inr hi"
    and "getLowestBlockNumber D (collections p) db = Inr lo"
    and "0 < lo" "lo \<le> hi" "hi < 2 ^ 63" "0 \<le> MaxBlocks (cfg p)"
    and "filterBasedPrune D now p db = (e, p', db')"
  shows "filter (\<lambda>d. hi - MaxBlocks (cfg p) < snd d) (docs db' n)
    = filter (\<lambda>d. hi - MaxBlocks (cfg p) < snd d) (docs db n)"
proof -
  have "db' = db \<or> db' = snd (pruneBlockRange D p lo (hi - MaxBlocks (cfg p)) db)"
    using assms(12) unfolding filterBasedPrune_cutoff [OF assms(6-11)]
    by (auto split: if_splits prod.splits sum.splits)
  with fun_cong [OF pruneBlockRange_keeps_recent [OF assms(1-5), of "hi - MaxBlocks (cfg p)" lo], of n]
  show ?thesis by (elim disjE) simp_all
qed

theorem prune_keeps_newest_blocks_witness:
  "filter (\<lambda>d. 6 - 1 < snd d) (snd (snd (filterBasedPrune demoDefra 0 demoPruner demoDocs)) ''B'') = [(''b2'', 6)]"
proof -
  have "filter (\<lambda>d. 6 - MaxBlocks (cfg demoPruner) < snd d)
      (snd (snd (filterBasedPrune demoDefra 0 demoPruner demoDocs)) ''B'')
    = filter (\<lambda>d. 6 - MaxBlocks (cfg demoPruner) < snd d) (demoDocs ''B'')"
    by (rule prune_keeps_newest_blocks [OF demo_purge_removes, where lo = 5 and now = 0
          and p = demoPruner and e = "fst (filterBasedPrune demoDefra 0 demoPruner demoDocs)"
          and p' = "fst (snd (filterBasedPrune demoDefra 0 demoPruner demoDocs))"])
      (use demo_oldest_first demo_block_numbers in
        \<open>simp_all add: NewPruner_def demoPrunerCfg_def demoDocs_def\<close>,
       simp_all add: demoColls_def)
  then show ?thesis by (simp add: NewPruner_def demoPrunerCfg_def demoDocs_def)
qed

text \<open>
  The oldest-first scan selects exactly the documents up to the cutoff: when the store
  answers in ascending order, the identifiers collected are those of all returned documents
  whose block number is at most the cutoff, in order.
\<close>

theorem oldest_scan_exact:
  assumes "execRequest D (oldestQuery coll f) db
      = \<lparr>gqlErrors = [], gqlData = AMap [(coll, AMaps docs)]\<rparr>"
    and "sorted (map (\<lambda>d. parseBlockNumber (getField d f)) docs)"
  shows "queryOldestDocIDs D coll f m db
    = Inr (concat (map docIDField (filter (\<lambda>d. parseBlockNumber (getField d f) \<le> m) docs)))"
  using assms takeWhile_sorted_filter [OF assms(2), of m]
  by (simp add: queryOldestDocIDs_def getField_def [of "[(coll, _)]"] scanMaps_takeWhile)

theorem oldest_scan_exact_witness:
  "queryOldestDocIDs demoDefra ''B'' ''number'' 5 demoDocs = Inr [''b1'']"
proof -
  have "queryOldestDocIDs demoDefra ''B'' ''number'' 5 demoDocs
    = Inr (concat (map docIDField (filter (\<lambda>d. parseBlockNumber (getField d ''number'') \<le> 5)
        [docRow ''number'' (''b1'', 5), docRow ''number'' (''b2'', 6)])))"
    by (rule oldest_scan_exact)
      (simp_all add: demoDefra_def demoAnswer_def demoDocs_def docRow_simps)
  then show ?thesis by (simp add: docRow_simps)
qed

text \<open>
  Starting a stopped pruner again succeeds, but its next \<open>Stop\<close> closes the stop
  channel a second time, which panics: the channel is made once, in \<open>NewPruner\<close>.
\<close>

theorem restarted_pruner_stop_panics:
  assumes "Start p = (True, p1)" "Stop io c p1 dsk = Inr (p2, dsk')" "Start p2 = (True, p3)"
  shows "Stop io' c' p3 dsk'' = Inl CloseOfClosedChannel"
  using assms by (auto simp: Start_def Stop_def Let_def split: if_splits)

theorem restarted_pruner_stop_panics_witness:
  "\<exists>p1 p2 p3. Start demoPruner = (True, p1) \<and> Stop no_faults init_codec p1 Map.empty = Inr (p2, Map.empty)
     \<and> Start p2 = (True, p3) \<and> Stop no_faults init_codec p3 Map.empty = Inl CloseOfClosedChannel"
proof -
  let ?p1 = "demoPruner\<lparr>isRunning := True\<rparr>"
  let ?p2 = "?p1\<lparr>stopClosed := True, isRunning := False\<rparr>"
  have s: "Start demoPruner = (True, ?p1)" "Stop no_faults init_codec ?p1 Map.empty = Inr (?p2, Map.empty)"
    "Start ?p2 = (True, ?p2\<lparr>isRunning := True\<rparr>)"
    by (simp_all add: Start_def Stop_def NewPruner_def demoPrunerCfg_def)
  from restarted_pruner_stop_panics [OF this] s show ?thesis by blast
qed

end
