(* ===== verification/Epoch_Balance.thy ===== *)
theory Epoch_Balance
  imports Host_Prelude
begin

text \<open>
  \<open>pkg/acp/epoch.go\<close> and \<open>balance.go\<close>: the settlement epoch derived from the hub's height,
  and the authorization of a payer by its query balance with a per-epoch cache. The hub is
  remote: the height read, the balance read and the bech32 encoding are arguments. Times are
  nanoseconds. Concurrent refreshes coalesce into one read, so \<open>Epoch\<close> is one step.
\<close>

record EpochClock =
  epochLength :: nat
  interval :: int
  epoch :: nat
  haveEpoch :: bool
  lastFetch :: int

datatype epoch_error = HeightReadFailed | DivideByZero

definition NewEpochClock :: "nat \<Rightarrow> int \<Rightarrow> EpochClock" where
  "NewEpochClock len iv = \<lparr>epochLength = len, interval = iv, epoch = 0, haveEpoch = False, lastFetch = 0\<rparr>"

text \<open>\<open>height\<close> is what \<open>LatestBlockNumber\<close> returns. A zero epoch length panics in Go.\<close>

definition refresh :: "nat option \<Rightarrow> int \<Rightarrow> EpochClock \<Rightarrow> (epoch_error + nat) \<times> EpochClock" where
  "refresh height now c =
     (case height of
        None \<Rightarrow> if haveEpoch c then (Inr (epoch c), c) else (Inl HeightReadFailed, c)
      | Some block \<Rightarrow>
          if epochLength c = 0 then (Inl DivideByZero, c)
          else let e = block div epochLength c in (Inr e, c\<lparr>epoch := e, haveEpoch := True, lastFetch := now\<rparr>))"

definition Epoch :: "nat option \<Rightarrow> int \<Rightarrow> EpochClock \<Rightarrow> (epoch_error + nat) \<times> EpochClock" where
  "Epoch height now c =
     (if haveEpoch c \<and> now - lastFetch c < interval c then (Inr (epoch c), c) else refresh height now c)"

subsection \<open>Balances\<close>

record 'p BalanceAuthorizer =
  minBalance :: int
  cache :: "'p \<rightharpoonup> int"
  cacheEpoch :: nat

datatype auth_error = ReadEpoch | EncodePayer | ReadBalance

definition NewBalanceAuthorizer :: "int \<Rightarrow> 'p BalanceAuthorizer" where
  "NewBalanceAuthorizer m = \<lparr>minBalance = m, cache = Map.empty, cacheEpoch = 0\<rparr>"

definition cachedFunded :: "nat \<Rightarrow> 'p \<Rightarrow> 'p BalanceAuthorizer \<Rightarrow> bool \<times> 'p BalanceAuthorizer" where
  "cachedFunded e payer a =
     (if e \<noteq> cacheEpoch a then (False, a\<lparr>cache := Map.empty, cacheEpoch := e\<rparr>)
      else (cache a payer \<noteq> None, a))"

text \<open>The locked section at the end of \<open>Authorize\<close>.\<close>

definition commitBalance :: "nat \<Rightarrow> 'p \<Rightarrow> int \<Rightarrow> bool \<Rightarrow> 'p BalanceAuthorizer \<Rightarrow> 'p BalanceAuthorizer" where
  "commitBalance e payer b funded a =
     (if cacheEpoch a = e \<and> funded then a\<lparr>cache := (cache a)(payer \<mapsto> b)\<rparr> else a)"

text \<open>
  \<open>ep\<close> is the epoch read, \<open>encode\<close> the bech32 encoding, \<open>balance\<close> the hub's answer for an
  encoded address, and \<open>others\<close> what concurrent calls do to the authorizer while the balance is
  being read without the lock.
\<close>

definition Authorize ::
  "nat option \<Rightarrow> ('p \<Rightarrow> string option) \<Rightarrow> (string \<Rightarrow> int option) \<Rightarrow> ('p BalanceAuthorizer \<Rightarrow> 'p BalanceAuthorizer)
     \<Rightarrow> 'p \<Rightarrow> 'p BalanceAuthorizer \<Rightarrow> (auth_error + bool) \<times> 'p BalanceAuthorizer" where
  "Authorize ep encode balance others payer a =
     (case ep of None \<Rightarrow> (Inl ReadEpoch, a)
      | Some e \<Rightarrow>
          (case cachedFunded e payer a of
             (True, a1) \<Rightarrow> (Inr True, a1)
           | (False, a1) \<Rightarrow>
               (case encode payer of None \<Rightarrow> (Inl EncodePayer, a1)
                | Some addr \<Rightarrow>
                    (case balance addr of None \<Rightarrow> (Inl ReadBalance, a1)
                     | Some b \<Rightarrow>
                         let funded = (b \<ge> minBalance a1) in
                         (Inr funded, commitBalance e payer b funded (others a1))))))"

subsection \<open>Interleaved calls\<close>

text \<open>
  The locked sections of concurrent calls, in any order: a check at the start of a call, and
  the commit after its balance was read. The log records, for each commit, the epoch the call
  validated against, the payer and the balance it read.
\<close>

inductive authReach :: "int \<Rightarrow> (nat \<times> 'p \<times> int) set \<Rightarrow> 'p BalanceAuthorizer \<Rightarrow> bool" for m where
  new: "authReach m {} (NewBalanceAuthorizer m)"
| check: "authReach m L a \<Longrightarrow> authReach m L (snd (cachedFunded e p a))"
| commit: "authReach m L a \<Longrightarrow> authReach m (insert (e, p, b) L) (commitBalance e p b (b \<ge> m) a)"

lemma authReach_inv:
  "authReach m L a \<Longrightarrow> minBalance a = m \<and> (\<forall>p b. cache a p = Some b \<longrightarrow> b \<ge> m \<and> (cacheEpoch a, p, b) \<in> L)"
proof (induction rule: authReach.induct)
  case new
  then show ?case by (simp add: NewBalanceAuthorizer_def)
next
  case (check L a e p)
  then show ?case by (auto simp: cachedFunded_def)
next
  case (commit L a e p b)
  then show ?case by (auto simp: commitBalance_def)
qed

lemma Authorize_yes:
  assumes "authReach m L a" "fst (Authorize (Some e) encode balance others payer a) = Inr True"
  shows "(\<exists>b \<ge> m. (e, payer, b) \<in> L) \<or> (\<exists>addr b. encode payer = Some addr \<and> balance addr = Some b \<and> m \<le> b)"
proof -
  from authReach_inv [OF assms(1)] have i: "minBalance a = m"
    "\<And>p b. cache a p = Some b \<Longrightarrow> b \<ge> m \<and> (cacheEpoch a, p, b) \<in> L" by auto
  show ?thesis
  proof (cases "e = cacheEpoch a \<and> cache a payer \<noteq> None")
    case True
    with i show ?thesis by auto
  next
    case False
    define a1 where "a1 = snd (cachedFunded e payer a)"
    have c: "cachedFunded e payer a = (False, a1)" "minBalance a1 = m"
      using i False by (auto simp: cachedFunded_def a1_def)
    with assms(2) show ?thesis
      by (auto simp: Authorize_def Let_def split: option.splits)
  qed
qed

subsection \<open>The epoch interface\<close>

text \<open>
  What a provider of epochs promises to its clients (\<open>EpochSource\<close>), for a hub whose height
  does not decrease: a report is at most the epoch of the current height and at least the
  \<open>floor\<close> established by earlier reports. A sequence of reads is a list of the hub's height,
  whether the read reaches it, and the time.
\<close>

fun readAll ::
  "(nat option \<Rightarrow> int \<Rightarrow> 'c \<Rightarrow> (epoch_error + nat) \<times> 'c) \<Rightarrow> (nat \<times> bool \<times> int) list \<Rightarrow> 'c \<Rightarrow> (nat \<times> nat) list" where
  "readAll rd [] c = []"
| "readAll rd ((h, ok, t) # rs) c =
     (case rd (if ok then Some h else None) t c of
        (Inl _, c') \<Rightarrow> readAll rd rs c'
      | (Inr e, c') \<Rightarrow> (h, e) # readAll rd rs c')"

locale epoch_source =
  fixes inv :: "'c \<Rightarrow> nat \<Rightarrow> bool" and rd :: "nat option \<Rightarrow> int \<Rightarrow> 'c \<Rightarrow> (epoch_error + nat) \<times> 'c"
    and epochOf :: "nat \<Rightarrow> nat" and floor_of :: "'c \<Rightarrow> nat"
  assumes inv_step: "inv c h \<Longrightarrow> h \<le> h' \<Longrightarrow> r \<in> {None, Some h'} \<Longrightarrow> inv (snd (rd r t c)) h'"
    and floor_step: "inv c h \<Longrightarrow> h \<le> h' \<Longrightarrow> r \<in> {None, Some h'} \<Longrightarrow> floor_of c \<le> floor_of (snd (rd r t c))"
    and report: "inv c h \<Longrightarrow> h \<le> h' \<Longrightarrow> r \<in> {None, Some h'} \<Longrightarrow> fst (rd r t c) = Inr e \<Longrightarrow>
      floor_of c \<le> e \<and> e \<le> floor_of (snd (rd r t c)) \<and> e \<le> epochOf h'"
begin

lemma reports_monotone:
  assumes "inv c h" "sorted (h # map fst rs)"
  shows "sorted (map snd (readAll rd rs c)) \<and> (\<forall>(x, e) \<in> set (readAll rd rs c). floor_of c \<le> e \<and> e \<le> epochOf x)"
  using assms
proof (induction rs arbitrary: c h)
  case Nil
  then show ?case by simp
next
  case (Cons x rs)
  obtain h' ok t where x: "x = (h', ok, t)" by (cases x) auto
  let ?r = "if ok then Some h' else None"
  obtain res c' where rd: "rd ?r t c = (res, c')" by fastforce
  have pre: "inv c h" "h \<le> h'" "?r \<in> {None, Some h'}" using Cons.prems x by auto
  have c': "inv c' h'" "floor_of c \<le> floor_of c'" using inv_step [OF pre, of t] floor_step [OF pre, of t] rd by simp_all
  have ih: "sorted (map snd (readAll rd rs c'))"
    "\<forall>(x, e) \<in> set (readAll rd rs c'). floor_of c' \<le> e \<and> e \<le> epochOf x"
    using Cons.IH [OF c'(1)] Cons.prems x by auto
  show ?case
  proof (cases res)
    case (Inl e)
    with ih c'(2) x rd show ?thesis by auto
  next
    case (Inr e)
    with report [OF pre, of t e] rd have "floor_of c \<le> e" "e \<le> floor_of c'" "e \<le> epochOf h'" by auto
    with ih c'(2) x rd Inr show ?thesis by fastforce
  qed
qed

end

definition clock_inv :: "nat \<Rightarrow> EpochClock \<Rightarrow> nat \<Rightarrow> bool" where
  "clock_inv len c h \<longleftrightarrow> epochLength c = len \<and> (haveEpoch c \<longrightarrow> epoch c \<le> h div len)"

definition clock_floor :: "EpochClock \<Rightarrow> nat" where
  "clock_floor c = (if haveEpoch c then epoch c else 0)"

interpretation ec: epoch_source "clock_inv len" Epoch "\<lambda>h. h div len" clock_floor for len
proof unfold_locales
  fix c h h' r t e
  assume a: "clock_inv len c h" "h \<le> h'" "r \<in> {None, Some h'}"
  have m: "h div len \<le> h' div len" using a(2) by (rule div_le_mono)
  show "clock_inv len (snd (Epoch r t c)) h'"
    using a m by (auto simp: clock_inv_def Epoch_def refresh_def Let_def)
  show "clock_floor c \<le> clock_floor (snd (Epoch r t c))"
    using a m by (cases "epochLength c = 0") (auto simp: clock_inv_def clock_floor_def Epoch_def refresh_def Let_def)
  show "fst (Epoch r t c) = Inr e \<Longrightarrow>
      clock_floor c \<le> e \<and> e \<le> clock_floor (snd (Epoch r t c)) \<and> e \<le> h' div len"
    using a m by (auto simp: clock_inv_def clock_floor_def Epoch_def refresh_def Let_def split: if_splits)
qed

subsection \<open>Properties\<close>

text \<open>
  Epochs never run backwards or ahead: over any sequence of reads of a hub whose height
  does not decrease, with read failures and cached answers anywhere, the reported epochs are in
  increasing order and none exceeds the epoch of the height at the time of the read.
\<close>

theorem epoch_reports_monotone:
  assumes "sorted (map fst rs)"
  shows "sorted (map snd (readAll Epoch rs (NewEpochClock len iv)))
    \<and> (\<forall>(h, e) \<in> set (readAll Epoch rs (NewEpochClock len iv)). e \<le> h div len)"
proof -
  have i: "clock_inv len (NewEpochClock len iv) 0" by (simp add: clock_inv_def NewEpochClock_def)
  have "sorted (0 # map fst rs)" using assms by simp
  from ec.reports_monotone [OF i this] show ?thesis by fastforce
qed

theorem epoch_reports_monotone_witness:
  "sorted (map snd (readAll Epoch [(100, True, 0), (250, False, 60)] (NewEpochClock 100 30)))
    \<and> readAll Epoch [(100, True, 0), (250, False, 60)] (NewEpochClock 100 30) = [(100, 1), (250, 1)]"
proof -
  have "sorted (map fst [(100 :: nat, True, 0 :: int), (250, False, 60)])" by simp
  from epoch_reports_monotone [OF this, of 100 30] show ?thesis
    by (simp add: Epoch_def refresh_def NewEpochClock_def Let_def)
qed



end
