(* ===== verification/Billing_Config.thy ===== *)
theory Billing_Config
  imports Epoch_Balance
begin

text \<open>
  \<open>pkg/acp/config.go\<close>: the configuration of the billing gate, read from the environment
  (\<open>getenv\<close>, empty when unset) and validated. \<open>strconv.ParseBool\<close>, \<open>strconv.ParseUint\<close> and
  \<open>big.Int.SetString\<close> in base 10 are written out; \<open>time.ParseDuration\<close> is an argument.
\<close>

subsection \<open>Numbers\<close>

definition digitValue :: "char \<Rightarrow> nat option" where
  "digitValue c = (let n = of_char c :: nat in if 48 \<le> n \<and> n \<le> 57 then Some (n - 48) else None)"

fun digitsFrom :: "nat \<Rightarrow> string \<Rightarrow> nat option" where
  "digitsFrom acc [] = Some acc"
| "digitsFrom acc (c # cs) = (case digitValue c of None \<Rightarrow> None | Some d \<Rightarrow> digitsFrom (acc * 10 + d) cs)"

definition parseDigits :: "string \<Rightarrow> nat option" where
  "parseDigits s = (if s = [] then None else digitsFrom 0 s)"

text \<open>\<open>ParseUint(s, 10, 64)\<close>: digits only, and in range.\<close>

definition parseUint64 :: "string \<Rightarrow> nat option" where
  "parseUint64 s = (case parseDigits s of None \<Rightarrow> None | Some n \<Rightarrow> if n < 2 ^ 64 then Some n else None)"

text \<open>\<open>SetString(s, 10)\<close>: an optional sign and digits.\<close>

definition setString10 :: "string \<Rightarrow> int option" where
  "setString10 s =
     (case s of
        [] \<Rightarrow> None
      | c # cs \<Rightarrow>
          if c = CHR ''-'' then map_option (\<lambda>n. - int n) (parseDigits cs)
          else if c = CHR ''+'' then map_option int (parseDigits cs)
          else map_option int (parseDigits s))"

subsection \<open>Configuration\<close>

record Config =
  Enabled :: bool
  ChainID :: nat
  MinQueryBalance :: string
  EpochLength :: nat
  ASBaseURL :: string
  AttesterWindow :: int

datatype config_error =
    ChainIDRequired | EpochLengthRequired | MinBalanceMalformed string
  | NotUint string | NotDuration string

definition parseBool :: "string \<Rightarrow> bool" where
  "parseBool s \<longleftrightarrow> s \<in> {''1'', ''t'', ''T'', ''TRUE'', ''true'', ''True''}"

definition parseUintEnv :: "(string \<Rightarrow> string) \<Rightarrow> string \<Rightarrow> config_error + nat" where
  "parseUintEnv getenv name =
     (let raw = getenv name in
      if raw = [] then Inr 0
      else (case parseUint64 raw of None \<Rightarrow> Inl (NotUint name) | Some v \<Rightarrow> Inr v))"

definition parseDurationEnv :: "(string \<Rightarrow> int option) \<Rightarrow> (string \<Rightarrow> string) \<Rightarrow> string \<Rightarrow> config_error + int" where
  "parseDurationEnv parseDuration getenv name =
     (let raw = getenv name in
      if raw = [] then Inr 0
      else (case parseDuration raw of None \<Rightarrow> Inl (NotDuration name) | Some d \<Rightarrow> Inr d))"

definition ConfigValidate :: "Config \<Rightarrow> config_error option" where
  "ConfigValidate c =
     (if \<not> Enabled c then None
      else if ChainID c = 0 then Some ChainIDRequired
      else if EpochLength c = 0 then Some EpochLengthRequired
      else (case setString10 (MinQueryBalance c) of
          None \<Rightarrow> Some (MinBalanceMalformed (MinQueryBalance c)) | Some n \<Rightarrow> None))"

text \<open>\<open>None\<close> is the nil pointer of a value that was not validated.\<close>

definition MinBalance :: "Config \<Rightarrow> int option" where
  "MinBalance c = setString10 (MinQueryBalance c)"

definition LoadConfigFromEnv :: "(string \<Rightarrow> int option) \<Rightarrow> (string \<Rightarrow> string) \<Rightarrow> config_error option \<times> Config" where
  "LoadConfigFromEnv parseDuration getenv =
     (let cfg = \<lparr>Enabled = parseBool (getenv ''ACP_MIDDLEWARE_ENABLED''), ChainID = 0,
                 MinQueryBalance = getenv ''SHINZO_MIN_QUERY_BALANCE'', EpochLength = 0,
                 ASBaseURL = getenv ''SHINZO_AS_BASE_URL'', AttesterWindow = 0\<rparr> in
      case parseUintEnv getenv ''SHINZO_CHAIN_ID'' of
        Inl e \<Rightarrow> (Some e, cfg)
      | Inr id' \<Rightarrow>
          (let cfg1 = cfg\<lparr>ChainID := id'\<rparr> in
           case parseUintEnv getenv ''SHINZO_EPOCH_LENGTH'' of
             Inl e \<Rightarrow> (Some e, cfg1)
           | Inr len \<Rightarrow>
               (let cfg2 = cfg1\<lparr>EpochLength := len\<rparr> in
                case parseDurationEnv parseDuration getenv ''SHINZO_ATTESTER_WINDOW'' of
                  Inl e \<Rightarrow> (Some e, cfg2)
                | Inr window \<Rightarrow>
                    (let cfg3 = cfg2\<lparr>AttesterWindow := window\<rparr> in (ConfigValidate cfg3, cfg3)))))"

subsection \<open>Decimal round trip\<close>

lemma digitValue_digitChar: "n < 10 \<Longrightarrow> digitValue (digitChar n) = Some n"
  by (simp add: digitValue_def of_char_digitChar Let_def)

lemma digitsFrom_append:
  "digitsFrom acc (s @ t) = (case digitsFrom acc s of None \<Rightarrow> None | Some n \<Rightarrow> digitsFrom n t)"
  by (induction s arbitrary: acc) (simp_all split: option.splits)

lemma digitsFrom_showNat: "digitsFrom 0 (showNat n) = Some n"
proof (induction n rule: less_induct)
  case (less n)
  show ?case
  proof (cases "n < 10")
    case True
    then show ?thesis by (subst showNat.simps) (simp add: digitValue_digitChar)
  next
    case False
    then have "digitsFrom 0 (showNat (n div 10)) = Some (n div 10)" using less by simp
    with False show ?thesis
      by (subst showNat.simps) (simp add: digitsFrom_append digitValue_digitChar mult.commute)
  qed
qed

lemma parseUint64_showNat: "n < 2 ^ 64 \<Longrightarrow> parseUint64 (showNat n) = Some n"
  by (simp add: parseUint64_def parseDigits_def digitsFrom_showNat)

lemma parseUint64_bound: "parseUint64 s = Some n \<Longrightarrow> n < 2 ^ 64"
  by (auto simp: parseUint64_def split: option.splits if_splits)

lemma parseUintEnv_bound: "parseUintEnv getenv name = Inr n \<Longrightarrow> n < 2 ^ 64"
  using parseUint64_bound by (auto simp: parseUintEnv_def Let_def split: if_splits option.splits)

subsection \<open>Property\<close>

text \<open>
  A host that starts with the gate enabled has usable bounds: chain id and epoch length are
  non-zero 64-bit numbers, the minimum balance is an integer, and no epoch read by a clock of
  that length can divide by zero.
\<close>

theorem loaded_config_safe:
  assumes "LoadConfigFromEnv parseDuration getenv = (None, cfg)" "Enabled cfg"
  shows "0 < ChainID cfg \<and> ChainID cfg < 2 ^ 64 \<and> 0 < EpochLength cfg \<and> EpochLength cfg < 2 ^ 64
    \<and> (\<exists>b. MinBalance cfg = Some b)
    \<and> (\<forall>height now c. epochLength c = EpochLength cfg \<longrightarrow> fst (Epoch height now c) \<noteq> Inl DivideByZero)"
proof -
  from assms(1) have v: "ConfigValidate cfg = None"
    by (auto simp: LoadConfigFromEnv_def Let_def split: sum.splits)
  obtain i l where "parseUintEnv getenv ''SHINZO_CHAIN_ID'' = Inr i" "parseUintEnv getenv ''SHINZO_EPOCH_LENGTH'' = Inr l"
    "ChainID cfg = i" "EpochLength cfg = l"
    using assms(1) by (auto simp: LoadConfigFromEnv_def Let_def split: sum.splits)
  with parseUintEnv_bound have b: "ChainID cfg < 2 ^ 64" "EpochLength cfg < 2 ^ 64" by blast+
  from v assms(2) have p: "0 < ChainID cfg" "0 < EpochLength cfg" "\<exists>b. MinBalance cfg = Some b"
    by (auto simp: ConfigValidate_def MinBalance_def split: if_splits option.splits)
  have "fst (Epoch height now c) \<noteq> Inl DivideByZero" if "epochLength c = EpochLength cfg" for height now c
    using that p(2) by (auto simp: Epoch_def refresh_def Let_def split: option.splits)
  with b p show ?thesis by simp
qed

definition demoGetenv :: "string \<Rightarrow> string" where
  "demoGetenv n =
     (if n = ''ACP_MIDDLEWARE_ENABLED'' then ''true'' else if n = ''SHINZO_CHAIN_ID'' then ''9001''
      else if n = ''SHINZO_EPOCH_LENGTH'' then ''100'' else if n = ''SHINZO_MIN_QUERY_BALANCE'' then ''250'' else [])"

theorem loaded_config_safe_witness:
  "\<exists>cfg. LoadConfigFromEnv (\<lambda>s. None) demoGetenv = (None, cfg) \<and> Enabled cfg \<and> 0 < EpochLength cfg \<and> EpochLength cfg < 2 ^ 64"
proof -
  have n: "parseUint64 ''9001'' = Some 9001" "parseUint64 ''100'' = Some 100" "setString10 ''250'' = Some 250"
    by (simp_all add: parseUint64_def setString10_def parseDigits_def digitValue_def)
  have "fst (LoadConfigFromEnv (\<lambda>s. None) demoGetenv) = None" "Enabled (snd (LoadConfigFromEnv (\<lambda>s. None) demoGetenv))"
    by (simp_all add: LoadConfigFromEnv_def parseUintEnv_def parseDurationEnv_def ConfigValidate_def parseBool_def demoGetenv_def Let_def n)
  then obtain cfg where c: "LoadConfigFromEnv (\<lambda>s. None) demoGetenv = (None, cfg)" "Enabled cfg" by (metis prod.collapse)
  from loaded_config_safe [OF this] have "0 < EpochLength cfg" "EpochLength cfg < 2 ^ 64" by simp_all
  with c show ?thesis by (intro exI [of _ cfg]) simp
qed

end
