(* ===== verification/Peer_Network.thy ===== *)
theory Peer_Network
  imports Host_Prelude "HOL-Library.AList"
begin

text \<open>
  \<open>pkg/defradb/network_handler.go\<close>, \<open>network_state.go\<close> and \<open>peers.go\<close>: the peers of the host
  and their connection states. The map of peers holds pointers: a state object lives in the list
  \<open>objects\<close> and a peer is its index, because a goroutine keeps its pointer while the map changes.
  The lock is dropped around every connection attempt and every delay, so the retry loop is cut
  into its locked sections (\<open>retryResult\<close>, \<open>retryDelay\<close>), and \<open>netStep\<close> interleaves the sections
  of all goroutines. DefraDB's answers and the clock are arguments. Times are nanoseconds, the
  zero time is 0.
\<close>

datatype ConnectionState = StateDisconnected | StateConnecting | StateConnected | StateReconnecting | StateFailed

fun stateString :: "ConnectionState \<Rightarrow> string" where
  "stateString StateDisconnected = ''DISCONNECTED''"
| "stateString StateConnecting = ''CONNECTING''"
| "stateString StateConnected = ''CONNECTED''"
| "stateString StateReconnecting = ''RECONNECTING''"
| "stateString StateFailed = ''FAILED''"

datatype net_error = ErrConnect string | ErrNoP2PMesh | ErrPeerDisconnected | ErrNoPeerFound | ErrPeerAlreadyAdded | ErrCanceled

record PeerState =
  psAddress :: string
  psState :: ConnectionState
  LastAttempt :: int
  RetryCount :: int
  LastError :: "net_error option"
  ConnectedAt :: int

definition newPeer :: "string \<Rightarrow> PeerState" where
  "newPeer addr = \<lparr>psAddress = addr, psState = StateDisconnected, LastAttempt = 0, RetryCount = 0, LastError = None, ConnectedAt = 0\<rparr>"

definition IsConnected :: "PeerState \<Rightarrow> bool" where
  "IsConnected p \<longleftrightarrow> psState p = StateConnected"

definition IsReachable :: "PeerState \<Rightarrow> bool" where
  "IsReachable p \<longleftrightarrow> psState p \<noteq> StateFailed"

subsection \<open>Peer addresses (\<open>peers.go\<close>)\<close>

abbreviation p2pPrefix :: string where "p2pPrefix \<equiv> ''/p2p/''"

text \<open>The search of \<open>extractPeerID\<close> from position \<open>i\<close> downwards.\<close>

fun extractFrom :: "string \<Rightarrow> nat \<Rightarrow> string" where
  "extractFrom s 0 = (if hasPrefix s p2pPrefix then drop (length p2pPrefix) s else [])"
| "extractFrom s (Suc i) =
     (if take (length p2pPrefix) (drop (Suc i) s) = p2pPrefix then drop (Suc i + length p2pPrefix) s else extractFrom s i)"

definition extractPeerID :: "string \<Rightarrow> string" where
  "extractPeerID multiaddr =
     (if length multiaddr < length p2pPrefix then [] else extractFrom multiaddr (length multiaddr - length p2pPrefix))"

text \<open>\<open>strings.Split\<close> by the separator \<open>/p2p/\<close>.\<close>

function splitStr :: "string \<Rightarrow> string \<Rightarrow> string list" where
  "splitStr s sep =
     (case indexStr s sep of
        None \<Rightarrow> [s]
      | Some i \<Rightarrow> if sep = [] then [s] else take i s # splitStr (drop (i + length sep) s) sep)"
  by pat_completeness auto
termination
proof (relation "measure (\<lambda>(s, sep). length s)", goal_cases)
  case (2 s sep i)
  then have "s = take i s @ sep @ drop (i + length sep) s" using indexStr_SomeD by blast
  then have "length s \<ge> length sep + length (drop (i + length sep) s)" by (metis length_append le_add2)
  with 2 show ?case by (cases sep) auto
qed simp

declare splitStr.simps [simp del]

record PeerInfo =
  piAddresses :: "string list"
  piID :: string

definition BootstrapIntoPeers :: "string list \<Rightarrow> PeerInfo list \<times> nat" where
  "BootstrapIntoPeers configured =
     (let parts = map (\<lambda>p. splitStr p p2pPrefix) configured in
      (map (\<lambda>ps. \<lparr>piAddresses = [ps ! 0], piID = ps ! 1\<rparr>) (filter (\<lambda>ps. length ps = 2) parts),
       length (filter (\<lambda>ps. length ps \<noteq> 2) parts)))"

datatype peer_error = ErrPeerEmptyID | ErrPeerNoAddresses

fun PeersIntoBootstrap :: "PeerInfo list \<Rightarrow> string list \<times> peer_error list" where
  "PeersIntoBootstrap [] = ([], [])"
| "PeersIntoBootstrap (p # ps) =
     (case PeersIntoBootstrap ps of (bs, es) \<Rightarrow>
        if piID p = [] then (bs, ErrPeerEmptyID # es)
        else (case piAddresses p of
            [] \<Rightarrow> (bs, ErrPeerNoAddresses # es)
          | address # _ \<Rightarrow> ((address @ p2pPrefix @ piID p) # bs, es)))"

text \<open>\<open>connect\<close> is \<open>DB.Connect\<close>: the error text of a failed attempt.\<close>

definition connectToPeers :: "(string list \<Rightarrow> string option) \<Rightarrow> string list \<Rightarrow> net_error option" where
  "connectToPeers connect peers = (if peers = [] then None else map_option ErrConnect (connect peers))"

subsection \<open>The handler\<close>

record P2PConfig =
  MaxRetries :: int
  RetryBaseDelayMs :: int
  ReconnectIntervalMs :: int
  EnableAutoReconnect :: bool

text \<open>
  A goroutine inside \<open>connectWithRetryLocked\<close>: the object it updates, its address, the attempt,
  whether it waits between attempts, and for \<open>StartNetwork\<close> the peers still to do.
\<close>

record retryThread =
  rtObject :: nat
  rtAddr :: string
  rtAttempt :: nat
  rtWaiting :: bool
  rtRest :: "string list option"

record NetworkHandler =
  p2pcfg :: P2PConfig
  hostRunning :: bool
  networkActive :: bool
  peers :: "(string \<times> nat) list"
  objects :: "PeerState list"
  ctxDone :: bool
  stopping :: bool
  loopRunning :: bool
  threads :: "retryThread list"

abbreviation BaseDelay :: int where "BaseDelay \<equiv> 30 * 10 ^ 9"

definition withDefaults :: "P2PConfig \<Rightarrow> P2PConfig" where
  "withDefaults c =
     c\<lparr>MaxRetries := (if MaxRetries c = 0 then 5 else MaxRetries c),
       RetryBaseDelayMs := (if RetryBaseDelayMs c = 0 then 1000 else RetryBaseDelayMs c),
       ReconnectIntervalMs := (if ReconnectIntervalMs c = 0 then 60000 else ReconnectIntervalMs c)\<rparr>"

definition NewNetworkHandler :: "string list \<Rightarrow> P2PConfig \<Rightarrow> NetworkHandler" where
  "NewNetworkHandler bootstrapPeers cfg =
     (let addrs = remdups bootstrapPeers in
      \<lparr>p2pcfg = withDefaults cfg, hostRunning = True, networkActive = False,
       peers = zip addrs [0 ..< length addrs], objects = map newPeer addrs,
       ctxDone = False, stopping = False, loopRunning = False, threads = []\<rparr>)"

definition updObject :: "nat \<Rightarrow> (PeerState \<Rightarrow> PeerState) \<Rightarrow> NetworkHandler \<Rightarrow> NetworkHandler" where
  "updObject i f nh = nh\<lparr>objects := (objects nh)[i := f (objects nh ! i)]\<rparr>"

definition updPeers :: "(PeerState \<Rightarrow> PeerState) \<Rightarrow> NetworkHandler \<Rightarrow> NetworkHandler" where
  "updPeers f nh = fold (\<lambda>(addr, i). updObject i f) (peers nh) nh"

definition IsNetworkActive :: "NetworkHandler \<Rightarrow> bool" where
  "IsNetworkActive nh = networkActive nh"

definition IsHostRunning :: "NetworkHandler \<Rightarrow> bool" where
  "IsHostRunning nh = hostRunning nh"

definition SetHostRunning :: "bool \<Rightarrow> NetworkHandler \<Rightarrow> NetworkHandler" where
  "SetHostRunning r nh = nh\<lparr>hostRunning := r\<rparr>"

subsection \<open>Connecting with retries\<close>

text \<open>The delay after a failed attempt, in 64-bit nanoseconds.\<close>

definition backoff :: "P2PConfig \<Rightarrow> nat \<Rightarrow> int" where
  "backoff cfg attempt =
     (let baseDelay = wrap64 (RetryBaseDelayMs cfg * 10 ^ 6) in
      min (wrap64 (baseDelay * wrap64 (2 ^ attempt))) BaseDelay)"

text \<open>The start of an attempt, with the lock held.\<close>

definition attemptBegin :: "int \<Rightarrow> nat \<Rightarrow> PeerState \<Rightarrow> PeerState" where
  "attemptBegin now attempt p = p\<lparr>LastAttempt := now, RetryCount := int attempt + 1\<rparr>"

text \<open>
  The entry of \<open>connectWithRetryLocked\<close>: a new goroutine in its first attempt, none when the
  peer is unknown, and the failed state at once when no attempt is allowed.
\<close>

definition retryEnter :: "int \<Rightarrow> string \<Rightarrow> string list option \<Rightarrow> NetworkHandler \<Rightarrow> NetworkHandler" where
  "retryEnter now addr rest nh =
     (case map_of (peers nh) addr of
        None \<Rightarrow> nh
      | Some i \<Rightarrow>
          (let nh1 = updObject i (\<lambda>p. p\<lparr>psState := StateConnecting, RetryCount := 0\<rparr>) nh in
           if MaxRetries (p2pcfg nh) \<le> 0 then updObject i (\<lambda>p. p\<lparr>psState := StateFailed\<rparr>) nh1
           else (updObject i (attemptBegin now 0) nh1)\<lparr>threads :=
                  \<lparr>rtObject = i, rtAddr = addr, rtAttempt = 0, rtWaiting = False, rtRest = rest\<rparr> # threads nh\<rparr>))"

text \<open>What \<open>StartNetwork\<close> does when it is done with one peer: the next one, or the activation.\<close>

fun startNext :: "int \<Rightarrow> string list option \<Rightarrow> NetworkHandler \<Rightarrow> NetworkHandler" where
  "startNext now None nh = nh"
| "startNext now (Some []) nh = nh\<lparr>networkActive := True, loopRunning := EnableAutoReconnect (p2pcfg nh) \<or> loopRunning nh\<rparr>"
| "startNext now (Some (addr # rest)) nh =
     (let nh1 = retryEnter now addr (Some rest) nh in
      if length (threads nh1) > length (threads nh) then nh1 else startNext now (Some rest) nh1)"

definition dropThread :: "retryThread \<Rightarrow> NetworkHandler \<Rightarrow> NetworkHandler" where
  "dropThread t nh = nh\<lparr>threads := remove1 t (threads nh)\<rparr>"

text \<open>The section after an attempt: \<open>res\<close> is the answer of \<open>connectToPeers\<close>.\<close>

definition retryResult :: "int \<Rightarrow> net_error option \<Rightarrow> retryThread \<Rightarrow> NetworkHandler \<Rightarrow> NetworkHandler" where
  "retryResult now res t nh =
     (case res of
        None \<Rightarrow>
          startNext now (rtRest t) (dropThread t
            (updObject (rtObject t) (\<lambda>p. p\<lparr>psState := StateConnected, ConnectedAt := now, LastError := None\<rparr>) nh))
      | Some e \<Rightarrow>
          (let nh1 = updObject (rtObject t) (\<lambda>p. p\<lparr>LastError := Some e\<rparr>) nh in
           if ctxDone nh
           then startNext now (rtRest t) (dropThread t (updObject (rtObject t) (\<lambda>p. p\<lparr>psState := StateDisconnected\<rparr>) nh1))
           else nh1\<lparr>threads := t\<lparr>rtWaiting := True\<rparr> # remove1 t (threads nh1)\<rparr>))"

text \<open>
  The end of the delay: the timer fired and the next attempt starts, or the end of the context was
  seen first (when both are ready Go picks either).
\<close>

definition retryDelay :: "int \<Rightarrow> bool \<Rightarrow> retryThread \<Rightarrow> NetworkHandler \<Rightarrow> NetworkHandler" where
  "retryDelay now timer t nh =
     (if \<not> timer
      then startNext now (rtRest t) (dropThread t (updObject (rtObject t) (\<lambda>p. p\<lparr>psState := StateDisconnected\<rparr>) nh))
      else
        (let a = rtAttempt t + 1 in
         if int a < MaxRetries (p2pcfg nh)
         then (updObject (rtObject t) (attemptBegin now a) nh)\<lparr>threads := t\<lparr>rtAttempt := a, rtWaiting := False\<rparr> # remove1 t (threads nh)\<rparr>
         else startNext now (rtRest t) (dropThread t (updObject (rtObject t) (\<lambda>p. p\<lparr>psState := StateFailed\<rparr>) nh))))"

definition attemptReconnect :: "int \<Rightarrow> string \<Rightarrow> NetworkHandler \<Rightarrow> NetworkHandler" where
  "attemptReconnect now addr nh =
     (case map_of (peers nh) addr of
        None \<Rightarrow> nh
      | Some i \<Rightarrow>
          if psState (objects nh ! i) \<in> {StateConnected, StateConnecting, StateReconnecting} then nh
          else retryEnter now addr None (updObject i (\<lambda>p. p\<lparr>psState := StateReconnecting\<rparr>) nh))"

subsection \<open>Starting, stopping and watching\<close>

definition StartNetwork :: "int \<Rightarrow> string list \<Rightarrow> NetworkHandler \<Rightarrow> NetworkHandler" where
  "StartNetwork now order nh = (if networkActive nh then nh else startNext now (Some order) nh)"

text \<open>The locked part of \<open>StopNetwork\<close>, and its end once the goroutines of the wait group ended.\<close>

definition stopBegin :: "NetworkHandler \<Rightarrow> NetworkHandler" where
  "stopBegin nh =
     (if \<not> networkActive nh then nh
      else updPeers (\<lambda>p. p\<lparr>psState := StateDisconnected, ConnectedAt := 0\<rparr>)
             (nh\<lparr>ctxDone := True, networkActive := False, stopping := True\<rparr>))"

definition stopEnd :: "NetworkHandler \<Rightarrow> NetworkHandler" where
  "stopEnd nh = nh\<lparr>ctxDone := False, stopping := False\<rparr>"

definition ToggleNetwork :: "int \<Rightarrow> string list \<Rightarrow> NetworkHandler \<Rightarrow> NetworkHandler" where
  "ToggleNetwork now order nh = (if IsNetworkActive nh then stopBegin nh else StartNetwork now order nh)"

definition forceReconnectAll :: "NetworkHandler \<Rightarrow> NetworkHandler" where
  "forceReconnectAll nh =
     updPeers (\<lambda>p. if psState p = StateConnected
                   then p\<lparr>psState := StateDisconnected, ConnectedAt := 0, LastError := Some ErrNoP2PMesh\<rparr> else p) nh"

definition stillConnected :: "string list \<Rightarrow> string \<Rightarrow> bool" where
  "stillConnected active addr \<longleftrightarrow>
     (let connectedPeers = set active \<union> {extractPeerID a |a. a \<in> set active \<and> extractPeerID a \<noteq> []} in
      addr \<in> connectedPeers \<or> (extractPeerID addr \<noteq> [] \<and> extractPeerID addr \<in> connectedPeers))"

text \<open>\<open>active\<close> is the answer of \<open>ActivePeers\<close>.\<close>

definition checkPeerHealth :: "string list option \<Rightarrow> NetworkHandler \<Rightarrow> NetworkHandler" where
  "checkPeerHealth active nh =
     (case active of
        None \<Rightarrow> nh
      | Some as \<Rightarrow>
          fold (\<lambda>(addr, i). updObject i (\<lambda>p.
              if psState p \<noteq> StateConnected then p
              else if stillConnected as addr then p
              else p\<lparr>psState := StateDisconnected, ConnectedAt := 0, LastError := Some ErrPeerDisconnected\<rparr>)) (peers nh) nh)"

definition disconnectedPeers :: "NetworkHandler \<Rightarrow> string list" where
  "disconnectedPeers nh =
     map fst (filter (\<lambda>(addr, i). psState (objects nh ! i) \<in> {StateDisconnected, StateFailed}) (peers nh))"

definition AddPeer :: "string \<Rightarrow> NetworkHandler \<Rightarrow> net_error option \<times> NetworkHandler" where
  "AddPeer addr nh =
     (if map_of (peers nh) addr \<noteq> None then (Some ErrPeerAlreadyAdded, nh)
      else (None, nh\<lparr>peers := AList.update addr (length (objects nh)) (peers nh), objects := objects nh @ [newPeer addr]\<rparr>))"

definition RemovePeer :: "string \<Rightarrow> NetworkHandler \<Rightarrow> net_error option \<times> NetworkHandler" where
  "RemovePeer addr nh =
     (if map_of (peers nh) addr = None then (Some ErrNoPeerFound, nh)
      else (None, nh\<lparr>peers := AList.delete addr (peers nh)\<rparr>))"

definition GetPeers :: "NetworkHandler \<Rightarrow> (string \<times> PeerState) list" where
  "GetPeers nh = map (\<lambda>(addr, i). (addr, objects nh ! i)) (peers nh)"

definition GetConnectedPeers :: "NetworkHandler \<Rightarrow> string list" where
  "GetConnectedPeers nh = map fst (filter (\<lambda>(addr, p). psState p = StateConnected) (GetPeers nh))"

definition GetPeerState :: "string \<Rightarrow> NetworkHandler \<Rightarrow> PeerState option" where
  "GetPeerState addr nh = map_option (\<lambda>i. objects nh ! i) (map_of (peers nh) addr)"

record ConnectionStats =
  TotalPeers :: nat
  ConnectedPeers :: nat
  ConnectingPeers :: nat
  DisconnectedPeers :: nat
  FailedPeers :: nat
  statsActive :: bool
  statsRunning :: bool

definition countStats :: "PeerState \<Rightarrow> ConnectionStats \<Rightarrow> ConnectionStats" where
  "countStats p s =
     (case psState p of
        StateConnected \<Rightarrow> s\<lparr>ConnectedPeers := ConnectedPeers s + 1\<rparr>
      | StateConnecting \<Rightarrow> s\<lparr>ConnectingPeers := ConnectingPeers s + 1\<rparr>
      | StateReconnecting \<Rightarrow> s\<lparr>ConnectingPeers := ConnectingPeers s + 1\<rparr>
      | StateFailed \<Rightarrow> s\<lparr>FailedPeers := FailedPeers s + 1\<rparr>
      | StateDisconnected \<Rightarrow> s\<lparr>DisconnectedPeers := DisconnectedPeers s + 1\<rparr>)"

definition GetConnectionStats :: "NetworkHandler \<Rightarrow> ConnectionStats" where
  "GetConnectionStats nh =
     fold countStats (map snd (GetPeers nh))
       \<lparr>TotalPeers = length (peers nh), ConnectedPeers = 0, ConnectingPeers = 0, DisconnectedPeers = 0, FailedPeers = 0,
        statsActive = networkActive nh, statsRunning = hostRunning nh\<rparr>"

subsection \<open>Interleavings\<close>

text \<open>
  The locked sections in any order. A goroutine started by \<open>reconnectDisconnectedPeers\<close> or
  \<open>AddPeer\<close> may enter \<open>attemptReconnect\<close> at any later time, also while the network stops. The
  wait group covers those goroutines and the loops, but not the caller of \<open>StartNetwork\<close>.
\<close>

inductive netStep :: "NetworkHandler \<Rightarrow> NetworkHandler \<Rightarrow> bool" where
  add: "netStep nh (snd (AddPeer addr nh))"
| remove: "netStep nh (snd (RemovePeer addr nh))"
| running: "netStep nh (SetHostRunning r nh)"
| start: "fst ` set (peers nh) \<subseteq> set order \<Longrightarrow> netStep nh (StartNetwork now order nh)"
| stop: "\<not> stopping nh \<Longrightarrow> netStep nh (stopBegin nh)"
| loopExit: "ctxDone nh \<Longrightarrow> netStep nh (nh\<lparr>loopRunning := False\<rparr>)"
| stopped: "stopping nh \<Longrightarrow> \<not> loopRunning nh \<Longrightarrow> \<forall>t \<in> set (threads nh). rtRest t \<noteq> None \<Longrightarrow> netStep nh (stopEnd nh)"
| health: "loopRunning nh \<Longrightarrow> netStep nh (checkPeerHealth active nh)"
| meshLost: "loopRunning nh \<Longrightarrow> netStep nh (forceReconnectAll nh)"
| reconnect: "networkActive nh \<or> stopping nh \<Longrightarrow> netStep nh (attemptReconnect now addr nh)"
| result: "t \<in> set (threads nh) \<Longrightarrow> \<not> rtWaiting t \<Longrightarrow> netStep nh (retryResult now (connectToPeers connect [rtAddr t]) t nh)"
| delay: "t \<in> set (threads nh) \<Longrightarrow> rtWaiting t \<Longrightarrow> timer \<or> ctxDone nh \<Longrightarrow> netStep nh (retryDelay now timer t nh)"

inductive netReach :: "NetworkHandler \<Rightarrow> bool" where
  new: "netReach (NewNetworkHandler bootstrap cfg)"
| step: "netReach nh \<Longrightarrow> netStep nh nh' \<Longrightarrow> netReach nh'"

subsection \<open>The invariant\<close>

definition objOk :: "P2PConfig \<Rightarrow> PeerState \<Rightarrow> bool" where
  "objOk cfg p \<longleftrightarrow> psState p \<noteq> StateReconnecting \<and> 0 \<le> RetryCount p \<and> RetryCount p \<le> max 0 (MaxRetries cfg)"

definition netInv :: "NetworkHandler \<Rightarrow> bool" where
  "netInv nh \<longleftrightarrow>
     distinct (map fst (peers nh)) \<and> distinct (map snd (peers nh))
     \<and> (\<forall>(a, i) \<in> set (peers nh). i < length (objects nh) \<and> psAddress (objects nh ! i) = a)
     \<and> (\<forall>i < length (objects nh). objOk (p2pcfg nh) (objects nh ! i))
     \<and> (\<forall>t \<in> set (threads nh). rtObject t < length (objects nh) \<and> int (rtAttempt t) < MaxRetries (p2pcfg nh))
     \<and> (\<forall>i < length (objects nh). psState (objects nh ! i) = StateConnecting \<longrightarrow> (\<exists>t \<in> set (threads nh). rtObject t = i))"

lemma netInvD:
  assumes "netInv nh"
  shows "distinct (map fst (peers nh))" "distinct (map snd (peers nh))"
    "(a, i) \<in> set (peers nh) \<Longrightarrow> i < length (objects nh)" "(a, i) \<in> set (peers nh) \<Longrightarrow> psAddress (objects nh ! i) = a"
    "j < length (objects nh) \<Longrightarrow> objOk (p2pcfg nh) (objects nh ! j)"
    "t \<in> set (threads nh) \<Longrightarrow> rtObject t < length (objects nh)" "t \<in> set (threads nh) \<Longrightarrow> int (rtAttempt t) < MaxRetries (p2pcfg nh)"
    "j < length (objects nh) \<Longrightarrow> psState (objects nh ! j) = StateConnecting \<Longrightarrow> \<exists>t \<in> set (threads nh). rtObject t = j"
  using assms by (auto simp: netInv_def)

lemma netInvI:
  assumes "distinct (map fst (peers nh))" "distinct (map snd (peers nh))"
    "\<And>a i. (a, i) \<in> set (peers nh) \<Longrightarrow> i < length (objects nh) \<and> psAddress (objects nh ! i) = a"
    "\<And>j. j < length (objects nh) \<Longrightarrow> objOk (p2pcfg nh) (objects nh ! j)"
    "\<And>t. t \<in> set (threads nh) \<Longrightarrow> rtObject t < length (objects nh) \<and> int (rtAttempt t) < MaxRetries (p2pcfg nh)"
    "\<And>j. j < length (objects nh) \<Longrightarrow> psState (objects nh ! j) = StateConnecting \<Longrightarrow> \<exists>t \<in> set (threads nh). rtObject t = j"
  shows "netInv nh"
  unfolding netInv_def using assms by (intro conjI ballI allI impI) auto

text \<open>An update of one object that cannot hurt the invariant.\<close>

definition calm :: "P2PConfig \<Rightarrow> (PeerState \<Rightarrow> PeerState) \<Rightarrow> bool" where
  "calm cfg f \<longleftrightarrow> (\<forall>p. psAddress (f p) = psAddress p \<and> (psState (f p) = StateConnecting \<longrightarrow> psState p = StateConnecting)
     \<and> (objOk cfg p \<longrightarrow> objOk cfg (f p)))"

lemma updObject_sel [simp]:
  "peers (updObject i f nh) = peers nh" "p2pcfg (updObject i f nh) = p2pcfg nh" "threads (updObject i f nh) = threads nh"
  "length (objects (updObject i f nh)) = length (objects nh)" "ctxDone (updObject i f nh) = ctxDone nh"
  "networkActive (updObject i f nh) = networkActive nh"
  by (simp_all add: updObject_def)

lemma updObject_nth: "j < length (objects nh) \<Longrightarrow> objects (updObject i f nh) ! j = (if i = j then f (objects nh ! j) else objects nh ! j)"
  by (auto simp: updObject_def nth_list_update)

lemma updObject_inv:
  assumes "netInv nh" "calm (p2pcfg nh) f"
  shows "netInv (updObject i f nh)"
proof (rule netInvI)
  note D = netInvD [OF assms(1)]
  have c: "psAddress (f p) = psAddress p" "psState (f p) = StateConnecting \<Longrightarrow> psState p = StateConnecting"
    "objOk (p2pcfg nh) p \<Longrightarrow> objOk (p2pcfg nh) (f p)" for p using assms(2) by (auto simp: calm_def)
  fix a j t
  show "distinct (map fst (peers (updObject i f nh)))" "distinct (map snd (peers (updObject i f nh)))" using D(1,2) by simp_all
  show "j < length (objects (updObject i f nh)) \<and> psAddress (objects (updObject i f nh) ! j) = a" if "(a, j) \<in> set (peers (updObject i f nh))"
    using D(3,4) [of a j] that c(1) by (simp add: updObject_nth)
  show "objOk (p2pcfg (updObject i f nh)) (objects (updObject i f nh) ! j)" if "j < length (objects (updObject i f nh))"
    using D(5) [of j] that c(3) by (simp add: updObject_nth)
  show "rtObject t < length (objects (updObject i f nh)) \<and> int (rtAttempt t) < MaxRetries (p2pcfg (updObject i f nh))" if "t \<in> set (threads (updObject i f nh))"
    using D(6,7) [of t] that by simp
  show "\<exists>t \<in> set (threads (updObject i f nh)). rtObject t = j"
    if "j < length (objects (updObject i f nh))" "psState (objects (updObject i f nh) ! j) = StateConnecting"
    using D(8) [of j] that c(2) [of "objects nh ! j"] by (auto simp: updObject_nth split: if_splits)
qed

lemma updPeers_fold_inv:
  "netInv nh \<Longrightarrow> (\<And>x. calm (p2pcfg nh) (g x)) \<Longrightarrow> netInv (fold (\<lambda>(a, i). updObject i (g a)) ps nh)"
  by (induction ps arbitrary: nh) (auto simp: updObject_inv)

lemma updPeers_inv: "netInv nh \<Longrightarrow> calm (p2pcfg nh) f \<Longrightarrow> netInv (updPeers f nh)"
  unfolding updPeers_def using updPeers_fold_inv [of nh "\<lambda>_. f"] by simp

text \<open>A section that ends a goroutine leaves its object in a state other than connecting.\<close>

lemma dropThread_inv:
  assumes "netInv nh" "psState (objects nh ! rtObject t) \<noteq> StateConnecting"
  shows "netInv (dropThread t nh)"
proof -
  have "\<exists>u \<in> set (remove1 t (threads nh)). rtObject u = i"
    if i: "i < length (objects nh)" "psState (objects nh ! i) = StateConnecting" for i
  proof -
    obtain u where u: "u \<in> set (threads nh)" "rtObject u = i" using assms(1) i by (auto simp: netInv_def)
    then have "u \<noteq> t" using assms(2) i by auto
    with u show ?thesis by (auto simp: in_set_remove1)
  qed
  then show ?thesis using netInvD [OF assms(1)]
    by (intro netInvI) (auto simp: dropThread_def dest: set_remove1_subset [THEN subsetD])
qed

lemma retryEnter_effect:
  fixes now addr rest nh i
  assumes "map_of (peers nh) addr = Some i" "i < length (objects nh)"
  defines "res \<equiv> retryEnter now addr rest nh" and "k \<equiv> MaxRetries (p2pcfg nh)"
  shows "peers res = peers nh" "p2pcfg res = p2pcfg nh" "length (objects res) = length (objects nh)"
    "\<And>j. j < length (objects nh) \<Longrightarrow> j \<noteq> i \<Longrightarrow> objects res ! j = objects nh ! j"
    "psAddress (objects res ! i) = psAddress (objects nh ! i)"
    "threads res = (if k \<le> 0 then threads nh else \<lparr>rtObject = i, rtAddr = addr, rtAttempt = 0, rtWaiting = False, rtRest = rest\<rparr> # threads nh)"
    "psState (objects res ! i) = (if k \<le> 0 then StateFailed else StateConnecting)"
    "RetryCount (objects res ! i) = (if k \<le> 0 then 0 else 1)"
  using assms(1,2) by (simp_all add: res_def k_def retryEnter_def Let_def updObject_nth attemptBegin_def)

lemma retryEnter_inv:
  assumes "netInv nh'" "nh = nh' \<or> (\<exists>i. map_of (peers nh') addr = Some i \<and> nh = updObject i (\<lambda>p. p\<lparr>psState := StateReconnecting\<rparr>) nh')"
  shows "netInv (retryEnter now addr rest nh)"
proof (cases "map_of (peers nh) addr")
  case None
  with assms have "nh = nh'" by auto
  with None assms(1) show ?thesis by (simp add: retryEnter_def)
next
  case (Some i)
  have same: "peers nh = peers nh'" "p2pcfg nh = p2pcfg nh'" "threads nh = threads nh'" "length (objects nh) = length (objects nh')"
    using assms(2) by auto
  have other: "objects nh ! j = objects nh' ! j" if "j \<noteq> i" "j < length (objects nh)" for j
    using assms(2) that Some same by (auto simp: updObject_nth)
  have il: "i < length (objects nh')" using assms(1) Some same map_of_SomeD unfolding netInv_def by fastforce
  have addr: "psAddress (objects nh ! i) = psAddress (objects nh' ! i)" using assms(2) il Some same by (auto simp: updObject_nth)
  define k where "k = MaxRetries (p2pcfg nh)"
  define res where "res = retryEnter now addr rest nh"
  have "i < length (objects nh)" using il same by simp
  note e = retryEnter_effect [where now = now and rest = rest, OF Some this, folded k_def res_def]
  have keep: "objects res ! j = objects nh' ! j" if "j < length (objects nh')" "j \<noteq> i" for j
    using e(4) [of j] other [of j] that same by simp
  note r = e(1) [unfolded same] e(2) [unfolded same] e(3) [unfolded same] keep e(5) [unfolded addr] e(6) [unfolded same] e(7,8)
  note D = netInvD [OF assms(1)]
  show ?thesis unfolding res_def [symmetric]
  proof (rule netInvI)
    fix a j t
    show "distinct (map fst (peers res))" "distinct (map snd (peers res))" using D(1,2) r(1) by simp_all
    show "j < length (objects res) \<and> psAddress (objects res ! j) = a" if "(a, j) \<in> set (peers res)"
      using that D(3,4) [of a j] r(1,3,4,5) by (cases "j = i") auto
    show "objOk (p2pcfg res) (objects res ! j)" if "j < length (objects res)"
    proof (cases "j = i")
      case True
      with r(2,7,8) same show ?thesis by (auto simp: objOk_def k_def)
    next
      case False
      with that D(5) [of j] r(2,3,4) show ?thesis by simp
    qed
    show "rtObject t < length (objects res) \<and> int (rtAttempt t) < MaxRetries (p2pcfg res)" if "t \<in> set (threads res)"
      using that D(6,7) [of t] r(2,3,6) il same by (auto simp: k_def split: if_splits)
    show "\<exists>t \<in> set (threads res). rtObject t = j" if "j < length (objects res)" "psState (objects res ! j) = StateConnecting"
    proof (cases "j = i")
      case True
      with that(2) r(6,7) show ?thesis by (auto split: if_splits)
    next
      case False
      with that r(3,4) have "j < length (objects nh')" "psState (objects nh' ! j) = StateConnecting" by auto
      from D(8) [OF this] r(6) show ?thesis by auto
    qed
  qed
qed

lemma startNext_inv: "netInv nh \<Longrightarrow> netInv (startNext now rest nh)"
proof (induction now rest nh rule: startNext.induct)
  case (2 now nh)
  then show ?case by (simp add: netInv_def)
next
  case (3 now addr rest nh)
  have "netInv (retryEnter now addr (Some rest) nh)" using 3(2) by (rule retryEnter_inv) simp
  with 3(1) show ?case by (simp add: Let_def)
qed simp

lemma replaceThread_inv:
  assumes "netInv nh" "t \<in> set (threads nh)" "rtObject t' = rtObject t" "int (rtAttempt t') < MaxRetries (p2pcfg nh)"
  shows "netInv (nh\<lparr>threads := t' # remove1 t (threads nh)\<rparr>)"
proof (rule netInvI)
  note D = netInvD [OF assms(1)]
  let ?n = "nh\<lparr>threads := t' # remove1 t (threads nh)\<rparr>"
  fix a j u
  show "distinct (map fst (peers ?n))" "distinct (map snd (peers ?n))" using D(1,2) by simp_all
  show "j < length (objects ?n) \<and> psAddress (objects ?n ! j) = a" if "(a, j) \<in> set (peers ?n)" using D(3,4) [of a j] that by simp
  show "objOk (p2pcfg ?n) (objects ?n ! j)" if "j < length (objects ?n)" using D(5) [of j] that by simp
  show "rtObject u < length (objects ?n) \<and> int (rtAttempt u) < MaxRetries (p2pcfg ?n)" if "u \<in> set (threads ?n)"
    using that D(6,7) [of u] D(6) [OF assms(2)] assms(3,4) set_remove1_subset [of t "threads nh"] by auto
  show "\<exists>u \<in> set (threads ?n). rtObject u = j" if con: "j < length (objects ?n)" "psState (objects ?n ! j) = StateConnecting"
  proof -
    obtain u where "u \<in> set (threads nh)" "rtObject u = j" using D(8) [of j] con by auto
    then show ?thesis using assms(3) by (cases "u = t") (auto simp: in_set_remove1)
  qed
qed

lemma calm_simps:
  "calm cfg (\<lambda>p. p\<lparr>LastError := e\<rparr>)"
  "calm cfg (\<lambda>p. p\<lparr>psState := StateConnected, ConnectedAt := now, LastError := e\<rparr>)"
  "calm cfg (\<lambda>p. p\<lparr>psState := StateDisconnected\<rparr>)"
  "calm cfg (\<lambda>p. p\<lparr>psState := StateFailed\<rparr>)"
  "calm cfg (\<lambda>p. p\<lparr>psState := StateDisconnected, ConnectedAt := c\<rparr>)"
  "calm cfg (\<lambda>p. if b p then p\<lparr>psState := StateDisconnected, ConnectedAt := c, LastError := e\<rparr> else p)"
  "calm cfg (\<lambda>p. if b' p then p else if b2 then p else p\<lparr>psState := StateDisconnected, ConnectedAt := c, LastError := e\<rparr>)"
  "int a < MaxRetries cfg \<Longrightarrow> calm cfg (attemptBegin now a)"
  by (simp_all add: calm_def objOk_def attemptBegin_def)

text \<open>A goroutine that ends with its object in a final state.\<close>

lemma endThread_inv:
  assumes "netInv nh" "t \<in> set (threads nh)" "calm (p2pcfg nh) f" "\<And>p. psState (f p) \<noteq> StateConnecting"
  shows "netInv (startNext now rest (dropThread t (updObject (rtObject t) f nh)))"
proof -
  have "rtObject t < length (objects nh)" using netInvD(6) [OF assms(1,2)] .
  then have "psState (objects (updObject (rtObject t) f nh) ! rtObject t) \<noteq> StateConnecting" using assms(4) by (simp add: updObject_nth)
  from dropThread_inv [OF updObject_inv [OF assms(1,3)] this] show ?thesis by (rule startNext_inv)
qed

lemma retryResult_inv:
  assumes "netInv nh" "t \<in> set (threads nh)"
  shows "netInv (retryResult now res t nh)"
proof (cases res)
  case None
  with assms show ?thesis by (simp add: retryResult_def endThread_inv calm_simps)
next
  case (Some e)
  let ?n = "updObject (rtObject t) (\<lambda>p. p\<lparr>LastError := Some e\<rparr>) nh"
  have n: "netInv ?n" by (simp add: updObject_inv assms calm_simps)
  have t: "t \<in> set (threads ?n)" using assms(2) by simp
  show ?thesis
  proof (cases "ctxDone nh")
    case True
    with Some n t show ?thesis by (simp add: retryResult_def Let_def endThread_inv calm_simps)
  next
    case False
    have "netInv (?n\<lparr>threads := t\<lparr>rtWaiting := True\<rparr> # remove1 t (threads ?n)\<rparr>)"
      using netInvD(7) [OF n t] by (intro replaceThread_inv [OF n t]) simp_all
    with Some False show ?thesis by (simp add: retryResult_def Let_def)
  qed
qed

lemma retryDelay_inv:
  assumes "netInv nh" "t \<in> set (threads nh)"
  shows "netInv (retryDelay now timer t nh)"
proof (cases "timer \<and> int (rtAttempt t + 1) < MaxRetries (p2pcfg nh)")
  case True
  let ?n = "updObject (rtObject t) (attemptBegin now (rtAttempt t + 1)) nh"
  have n: "netInv ?n" using True by (intro updObject_inv assms calm_simps) simp
  have "netInv (?n\<lparr>threads := t\<lparr>rtAttempt := rtAttempt t + 1, rtWaiting := False\<rparr> # remove1 t (threads ?n)\<rparr>)"
    using assms(2) True by (intro replaceThread_inv [OF n]) simp_all
  with True show ?thesis by (simp add: retryDelay_def Let_def)
next
  case False
  with assms show ?thesis by (auto simp: retryDelay_def Let_def endThread_inv calm_simps)
qed

lemma AddPeer_inv:
  assumes "netInv nh"
  shows "netInv (snd (AddPeer addr nh))"
proof (cases "map_of (peers nh) addr")
  case None
  note D = netInvD [OF assms]
  let ?n = "nh\<lparr>peers := peers nh @ [(addr, length (objects nh))], objects := objects nh @ [newPeer addr]\<rparr>"
  have new: "addr \<notin> fst ` set (peers nh)" using None by (simp add: map_of_eq_None_iff)
  have fresh: "length (objects nh) \<notin> snd ` set (peers nh)" using D(3) by fastforce
  have "netInv ?n"
  proof (rule netInvI)
    fix a j t
    show "distinct (map fst (peers ?n))" "distinct (map snd (peers ?n))" using D(1,2) new fresh by simp_all
    show "j < length (objects ?n) \<and> psAddress (objects ?n ! j) = a" if "(a, j) \<in> set (peers ?n)"
      using that D(3,4) [of a j] by (auto simp: nth_append newPeer_def)
    show "objOk (p2pcfg ?n) (objects ?n ! j)" if "j < length (objects ?n)"
      using that D(5) [of j] by (auto simp: nth_append newPeer_def objOk_def less_Suc_eq)
    show "rtObject t < length (objects ?n) \<and> int (rtAttempt t) < MaxRetries (p2pcfg ?n)" if "t \<in> set (threads ?n)"
      using that D(6,7) [of t] by simp
    show "\<exists>t \<in> set (threads ?n). rtObject t = j" if "j < length (objects ?n)" "psState (objects ?n ! j) = StateConnecting"
      using that D(8) [of j] by (auto simp: nth_append newPeer_def split: if_splits)
  qed
  with None show ?thesis by (simp add: AddPeer_def alist_update_new)
qed (simp add: AddPeer_def assms)

lemma RemovePeer_inv:
  assumes "netInv nh"
  shows "netInv (snd (RemovePeer addr nh))"
proof -
  note D = netInvD [OF assms]
  have del: "AList.delete addr xs = filter (\<lambda>x. fst x \<noteq> addr) xs" for xs :: "(string \<times> nat) list"
    by (induction xs) (auto simp: AList.delete_eq)
  have "netInv (nh\<lparr>peers := AList.delete addr (peers nh)\<rparr>)"
    using D by (intro netInvI) (auto simp: del distinct_map_filter)
  with assms show ?thesis by (simp add: RemovePeer_def)
qed

lemma attemptReconnect_inv:
  assumes "netInv nh"
  shows "netInv (attemptReconnect now addr nh)"
proof (cases "map_of (peers nh) addr")
  case (Some i)
  have "netInv (retryEnter now addr None (updObject i (\<lambda>p. p\<lparr>psState := StateReconnecting\<rparr>) nh))"
    using assms by (rule retryEnter_inv) (use Some in blast)
  with Some assms show ?thesis by (simp add: attemptReconnect_def)
qed (simp add: attemptReconnect_def assms)

lemma netInv_flags:
  "netInv (nh\<lparr>ctxDone := c, networkActive := n, stopping := s\<rparr>) = netInv nh"
  "netInv (nh\<lparr>ctxDone := c, stopping := s\<rparr>) = netInv nh"
  "netInv (nh\<lparr>loopRunning := l\<rparr>) = netInv nh"
  "netInv (nh\<lparr>hostRunning := h\<rparr>) = netInv nh"
  by (simp_all add: netInv_def)

lemma new_inv: "netInv (NewNetworkHandler bootstrap cfg)"
  by (intro netInvI) (auto simp: NewNetworkHandler_def Let_def newPeer_def objOk_def set_zip)

lemma netStep_inv: "netStep nh nh' \<Longrightarrow> netInv nh \<Longrightarrow> netInv nh'"
proof (induction rule: netStep.induct)
  case (start order nh now)
  then show ?case by (simp add: StartNetwork_def startNext_inv)
next
  case (stop nh)
  then show ?case by (simp add: stopBegin_def updPeers_inv calm_simps netInv_flags)
next
  case (health nh active)
  then show ?case
    by (auto simp: checkPeerHealth_def intro!: updPeers_fold_inv calm_simps split: option.split)
next
  case (meshLost nh)
  then show ?case by (simp add: forceReconnectAll_def updPeers_inv calm_simps)
qed (simp_all add: AddPeer_inv RemovePeer_inv SetHostRunning_def stopEnd_def netInv_flags attemptReconnect_inv retryResult_inv retryDelay_inv)

lemma netReach_inv: "netReach nh \<Longrightarrow> netInv nh"
  by (induction rule: netReach.induct) (auto intro: new_inv netStep_inv)

subsection \<open>The backoff\<close>

lemma small_int64: "0 \<le> p \<Longrightarrow> p \<le> 2 ^ 33 \<Longrightarrow> int64_range p \<and> int64_range (10 ^ 9 * p)" for p :: int
  by (simp add: int64_range_def)

lemma backoff_default:
  assumes "attempt < 34"
  shows "backoff (cfg\<lparr>RetryBaseDelayMs := 1000\<rparr>) attempt = min (10 ^ 9 * 2 ^ attempt) BaseDelay"
proof -
  have "(2 :: int) ^ attempt \<le> 2 ^ 33" using assms by (intro power_increasing) simp_all
  then have "int64_range (2 ^ attempt)" "int64_range (10 ^ 9 * 2 ^ attempt)" using small_int64 [of "2 ^ attempt"] by simp_all
  moreover have "wrap64 (10 ^ 9) = 10 ^ 9" by (simp add: int64_range_def)
  ultimately show ?thesis by (simp add: backoff_def)
qed

text \<open>From attempt 34 on the product leaves 64 bits and the delay is no longer a delay.\<close>

lemma backoff_overflows: "backoff (cfg\<lparr>RetryBaseDelayMs := 1000\<rparr>) 34 < 0"
  by (simp add: backoff_def wrap64_def)

subsection \<open>Peer addresses\<close>

lemma hasPrefix_overlap:
  assumes "d \<noteq> []" "\<not> containsStr d ''/p2p''"
  shows "\<not> hasPrefix (d @ p2pPrefix @ x) p2pPrefix"
proof (cases "length d < 4")
  case True
  with assms(1) consider a where "d = [a]" | a b where "d = [a, b]" | a b c where "d = [a, b, c]"
    by (cases d; cases "tl d"; cases "tl (tl d)"; cases "tl (tl (tl d))") auto
  then show ?thesis by cases (auto simp: hasPrefix_def)
next
  case False
  then obtain a b c e d' where d: "d = a # b # c # e # d'"
    by (cases d; cases "tl d"; cases "tl (tl d)"; cases "tl (tl (tl d))") auto
  have "[a, b, c, e] \<noteq> ''/p2p''"
  proof
    assume "[a, b, c, e] = ''/p2p''"
    then have "d = [] @ ''/p2p'' @ d'" using d by simp
    with assms(2) show False unfolding containsStr_iff by blast
  qed
  then show ?thesis by (auto simp: hasPrefix_def d)
qed

lemma containsStr_drop: "containsStr (drop k d) p \<Longrightarrow> containsStr d p"
  unfolding containsStr_iff by (metis append.assoc append_take_drop_id)

lemma indexStr_p2p: "\<not> containsStr a ''/p2p'' \<Longrightarrow> indexStr (a @ p2pPrefix @ x) p2pPrefix = Some (length a)"
proof (induction a)
  case Nil
  then show ?case by (simp add: hasPrefix_def)
next
  case (Cons c a)
  have "\<not> containsStr a ''/p2p''" using Cons.prems containsStr_drop [of 1 "c # a"] by auto
  with Cons.IH have "indexStr (a @ p2pPrefix @ x) p2pPrefix = Some (length a)" by blast
  moreover have "\<not> hasPrefix ((c # a) @ p2pPrefix @ x) p2pPrefix" by (rule hasPrefix_overlap) (use Cons.prems in simp_all)
  ultimately show ?case by simp
qed

lemma no_slash_index: "CHR ''/'' \<notin> set x \<Longrightarrow> indexStr x p2pPrefix = None"
  using containsStr_iff [of x p2pPrefix] by (auto simp: containsStr_def)

lemma split_p2p:
  assumes "\<not> containsStr a ''/p2p''" "CHR ''/'' \<notin> set x"
  shows "splitStr (a @ p2pPrefix @ x) p2pPrefix = [a, x]"
  using indexStr_p2p [OF assms(1), of x] no_slash_index [OF assms(2)]
  by (subst splitStr.simps) (simp, subst splitStr.simps, simp)

lemma extractFrom_last:
  "k \<le> n \<Longrightarrow> hasPrefix (drop k s) p2pPrefix \<Longrightarrow> (\<And>i. k < i \<Longrightarrow> i \<le> n \<Longrightarrow> \<not> hasPrefix (drop i s) p2pPrefix) \<Longrightarrow>
     extractFrom s n = drop (k + length p2pPrefix) s"
proof (induction n)
  case 0
  then show ?case by simp
next
  case (Suc n)
  show ?case
  proof (cases "k = Suc n")
    case True
    with Suc.prems(2) show ?thesis by (simp add: hasPrefix_def)
  next
    case False
    with Suc.prems(1) have "\<not> hasPrefix (drop (Suc n) s) p2pPrefix" by (intro Suc.prems(3)) simp_all
    then have "extractFrom s (Suc n) = extractFrom s n" by (simp add: hasPrefix_def)
    with Suc False show ?thesis by simp
  qed
qed

lemma no_later_p2p:
  assumes "CHR ''/'' \<notin> set x"
  shows "\<not> hasPrefix (drop j (''p2p/'' @ x)) p2pPrefix"
proof
  assume p: "hasPrefix (drop j (''p2p/'' @ x)) p2pPrefix"
  have slash: "CHR ''/'' \<in> set (tl (drop j (''p2p/'' @ x)))" "hd (drop j (''p2p/'' @ x)) = CHR ''/''"
    using hasPrefixD [OF p] by (metis append_Cons list.sel(3) list.set_intros Un_iff set_append, metis append_Cons list.sel(1))
  show False
  proof (cases "j \<le> 3")
    case True
    then have "j \<in> {0, 1, 2, 3}" by auto
    with slash(2) have "j = 3" by auto
    with slash(1) assms show ?thesis by simp
  next
    case False
    then obtain k where "j = Suc (Suc (Suc (Suc k)))" by (metis Suc_le_D not_less_eq_eq numeral_3_eq_3)
    then have "drop j (''p2p/'' @ x) = drop (j - 4) x" by simp
    with slash(1) have "CHR ''/'' \<in> set (tl (drop (j - 4) x))" by simp
    then have "CHR ''/'' \<in> set x" by (metis drop_Suc tl_drop in_set_dropD)
    with assms show ?thesis by blast
  qed
qed

lemma extractPeerID_p2p:
  assumes "CHR ''/'' \<notin> set x"
  shows "extractPeerID (a @ p2pPrefix @ x) = x"
proof -
  let ?s = "a @ p2pPrefix @ x"
  have "extractFrom ?s (length a + length x) = drop (length a + length p2pPrefix) ?s"
  proof (rule extractFrom_last)
    show "hasPrefix (drop (length a) ?s) p2pPrefix" by (simp add: hasPrefix_def)
    show "\<not> hasPrefix (drop i ?s) p2pPrefix" if i: "length a < i" for i
    proof -
      obtain j where "i = length a + Suc j" using less_imp_Suc_add [OF i] by auto
      then have "drop i ?s = drop j (''p2p/'' @ x)" by simp
      with no_later_p2p [OF assms] show ?thesis by simp
    qed
  qed simp
  then show ?thesis by (simp add: extractPeerID_def)
qed

subsection \<open>Properties\<close>

lemma stats_sum:
  "(let s = fold countStats ps s0 in ConnectedPeers s + ConnectingPeers s + DisconnectedPeers s + FailedPeers s)
     = ConnectedPeers s0 + ConnectingPeers s0 + DisconnectedPeers s0 + FailedPeers s0 + length ps
   \<and> TotalPeers (fold countStats ps s0) = TotalPeers s0"
  by (induction ps arbitrary: s0) (auto simp: countStats_def Let_def split: ConnectionState.splits)

text \<open>
  C23. The peer table stays consistent under every interleaving of the handler's goroutines: each
  entry's state carries its own address, the retry counter never exceeds the configured maximum, no
  peer is ever seen reconnecting, a peer shown as connecting has a goroutine at work on it, and the
  statistics add up to the number of peers.
\<close>

theorem network_reachable_sound:
  assumes "netReach nh"
  shows "(\<forall>addr p. GetPeerState addr nh = Some p \<longrightarrow> psAddress p = addr \<and> psState p \<noteq> StateReconnecting
      \<and> 0 \<le> RetryCount p \<and> RetryCount p \<le> max 0 (MaxRetries (p2pcfg nh))
      \<and> (psState p = StateConnecting \<longrightarrow> (\<exists>t \<in> set (threads nh). map_of (peers nh) addr = Some (rtObject t))))
    \<and> (let s = GetConnectionStats nh in
        ConnectedPeers s + ConnectingPeers s + DisconnectedPeers s + FailedPeers s = TotalPeers s \<and> TotalPeers s = length (peers nh))"
proof (intro conjI allI impI)
  note D = netInvD [OF netReach_inv [OF assms]]
  fix addr p assume g: "GetPeerState addr nh = Some p"
  then obtain i where i: "map_of (peers nh) addr = Some i" "p = objects nh ! i" by (auto simp: GetPeerState_def)
  have m: "(addr, i) \<in> set (peers nh)" using i(1) by (rule map_of_SomeD)
  have "objOk (p2pcfg nh) p" using D(5) [OF D(3) [OF m]] i(2) by simp
  then show "psState p \<noteq> StateReconnecting" "0 \<le> RetryCount p" "RetryCount p \<le> max 0 (MaxRetries (p2pcfg nh))"
    by (simp_all add: objOk_def)
  show "psAddress p = addr" using D(4) [OF m] i(2) by simp
  show "\<exists>t \<in> set (threads nh). map_of (peers nh) addr = Some (rtObject t)" if "psState p = StateConnecting"
    using D(8) [OF D(3) [OF m]] that i by auto
next
  show "let s = GetConnectionStats nh in
        ConnectedPeers s + ConnectingPeers s + DisconnectedPeers s + FailedPeers s = TotalPeers s \<and> TotalPeers s = length (peers nh)"
    using stats_sum [of "map snd (GetPeers nh)"] by (simp add: GetConnectionStats_def GetPeers_def Let_def)
qed

definition demoP2P :: P2PConfig where
  "demoP2P = \<lparr>MaxRetries = 5, RetryBaseDelayMs = 1000, ReconnectIntervalMs = 60000, EnableAutoReconnect = False\<rparr>"

definition demoNet :: NetworkHandler where
  "demoNet = attemptReconnect 7 ''a'' (snd (AddPeer ''a'' (StartNetwork 0 [] (NewNetworkHandler [] demoP2P))))"

lemma demoNet_reach: "netReach demoNet"
proof -
  let ?s0 = "NewNetworkHandler [] demoP2P"
  let ?s1 = "StartNetwork 0 [] ?s0" and ?s2 = "snd (AddPeer ''a'' (StartNetwork 0 [] ?s0))"
  have "netReach ?s0" by (rule netReach.new)
  then have "netReach ?s1" by (rule netReach.step) (rule netStep.start, simp add: NewNetworkHandler_def)
  then have "netReach ?s2" by (rule netReach.step) (rule netStep.add)
  moreover have "networkActive ?s2" by code_simp
  ultimately show ?thesis unfolding demoNet_def by (intro netReach.step [OF _ netStep.reconnect]) simp_all
qed

theorem network_reachable_sound_witness:
  "netReach demoNet \<and> (\<exists>p. GetPeerState ''a'' demoNet = Some p \<and> psAddress p = ''a'' \<and> psState p = StateConnecting \<and> RetryCount p \<le> 5)
     \<and> TotalPeers (GetConnectionStats demoNet) = 1"
proof -
  have c: "map_option psState (GetPeerState ''a'' demoNet) = Some StateConnecting" "length (peers demoNet) = 1"
    "MaxRetries (p2pcfg demoNet) = 5" by code_simp+
  then obtain p where p: "GetPeerState ''a'' demoNet = Some p" "psState p = StateConnecting" by auto
  from network_reachable_sound [OF demoNet_reach] p c
  have "psAddress p = ''a''" "RetryCount p \<le> 5" "TotalPeers (GetConnectionStats demoNet) = 1" by (auto simp: Let_def)
  with p demoNet_reach show ?thesis by blast
qed

text \<open>
  Stopping the network can leave a peer shown as connected: a connection that succeeds while
  \<open>StopNetwork\<close> holds the lock overwrites the disconnected state it has just set, and nothing
  resets it once the network has stopped and all goroutines have ended.
\<close>

theorem stopped_network_shows_connected:
  "\<exists>nh. netReach nh \<and> \<not> networkActive nh \<and> \<not> stopping nh \<and> threads nh = [] \<and> GetConnectedPeers nh = [''a'']"
proof -
  let ?s4 = "stopBegin demoNet" and ?t = "\<lparr>rtObject = 0, rtAddr = ''a'', rtAttempt = 0, rtWaiting = False, rtRest = None\<rparr>"
  let ?s5 = "retryResult 9 (connectToPeers (\<lambda>ps. None) [rtAddr ?t]) ?t ?s4"
  have t: "threads ?s4 = [?t]" "\<not> stopping demoNet" by code_simp+
  have "netReach ?s4" using t(2) by (intro netReach.step [OF demoNet_reach netStep.stop])
  then have r: "netReach ?s5" by (rule netReach.step) (rule netStep.result, simp_all add: t)
  have e: "stopping ?s5" "\<not> loopRunning ?s5" "threads ?s5 = []" "\<not> networkActive (stopEnd ?s5)" "\<not> stopping (stopEnd ?s5)"
    "threads (stopEnd ?s5) = []" "GetConnectedPeers (stopEnd ?s5) = [''a'']" by code_simp+
  have "netReach (stopEnd ?s5)" using e by (intro netReach.step [OF r netStep.stopped]) simp_all
  with e show ?thesis by blast
qed

text \<open>
  Peers survive the round trip through bootstrap strings: peers with one address and an
  identifier without slashes are written without error, read back as the same peers, and the
  identifier extracted from each string is the peer's.
\<close>

theorem bootstrap_round_trip:
  assumes "\<forall>p \<in> set ps. \<exists>a. piAddresses p = [a] \<and> \<not> containsStr a ''/p2p'' \<and> piID p \<noteq> [] \<and> CHR ''/'' \<notin> set (piID p)"
  shows "\<exists>bs. PeersIntoBootstrap ps = (bs, []) \<and> BootstrapIntoPeers bs = (ps, 0) \<and> map extractPeerID bs = map piID ps"
  using assms
proof (induction ps)
  case Nil
  then show ?case by (simp add: BootstrapIntoPeers_def)
next
  case (Cons p ps)
  then obtain bs where bs: "PeersIntoBootstrap ps = (bs, [])" "BootstrapIntoPeers bs = (ps, 0)" "map extractPeerID bs = map piID ps" by auto
  obtain a where a: "piAddresses p = [a]" "\<not> containsStr a ''/p2p''" "piID p \<noteq> []" "CHR ''/'' \<notin> set (piID p)" using Cons.prems by auto
  let ?b = "a @ p2pPrefix @ piID p"
  have "PeersIntoBootstrap (p # ps) = (?b # bs, [])" using bs a by simp
  moreover have "BootstrapIntoPeers (?b # bs) = (p # ps, 0)"
    using bs(2) split_p2p [OF a(2,4)] a(1) by (simp add: BootstrapIntoPeers_def Let_def)
  moreover have "map extractPeerID (?b # bs) = map piID (p # ps)" using bs(3) extractPeerID_p2p [OF a(4)] by simp
  ultimately show ?case by blast
qed

theorem bootstrap_round_trip_witness:
  "\<exists>bs. PeersIntoBootstrap [\<lparr>piAddresses = [''/ip4/10.0.0.1/tcp/9171''], piID = ''12D3''\<rparr>] = (bs, [])
     \<and> BootstrapIntoPeers bs = ([\<lparr>piAddresses = [''/ip4/10.0.0.1/tcp/9171''], piID = ''12D3''\<rparr>], 0)"
proof -
  have "\<not> containsStr ''/ip4/10.0.0.1/tcp/9171'' ''/p2p''" by code_simp
  then have "\<forall>p \<in> set [\<lparr>piAddresses = [''/ip4/10.0.0.1/tcp/9171''], piID = ''12D3''\<rparr>].
      \<exists>a. piAddresses p = [a] \<and> \<not> containsStr a ''/p2p'' \<and> piID p \<noteq> [] \<and> CHR ''/'' \<notin> set (piID p)" by simp
  from bootstrap_round_trip [OF this] show ?thesis by blast
qed

end
