(* ===== verification/Host_Config.thy ===== *)
theory Host_Config
  imports Replication_Filter Snapshot_Import Pruner Billing_Config Peer_Network
begin

text \<open>
  \<open>config/config.go\<close> and \<open>pkg/defradb/config.go\<close>: the configuration of the host, read from a YAML
  file, overridden from the environment and checked, and its conversion to the configuration of the
  database node. The file system (\<open>readFile\<close>, by cleaned path) and the YAML decoder are arguments;
  the decoder never sees the schema token (\<open>yaml:"-"\<close>). \<open>getenv\<close> is empty when a variable is unset.
\<close>

subsection \<open>The host's configuration\<close>

record DefraDBP2PConfig =
  p2pEnabled :: bool
  p2pBootstrapPeers :: "string list"
  p2pListenAddr :: string
  p2pMaxRetries :: int
  p2pRetryBaseDelayMs :: int
  p2pReconnectIntervalMs :: int
  p2pEnableAutoReconnect :: bool
  p2pPeerDiscoveryTimeoutMs :: int

record DefraDBStoreConfig =
  storePath :: string
  storeBlockCacheMB :: int
  storeMemTableMB :: int
  storeIndexCacheMB :: int
  storeNumCompactors :: int
  storeNumLevelZeroTables :: int
  storeNumLevelZeroTablesStall :: int
  storeValueLogFileSizeMB :: int

record DefraDBConfig =
  dbURL :: string
  dbKeyringSecret :: string
  dbP2P :: DefraDBP2PConfig
  dbStore :: DefraDBStoreConfig

record LoggerConfig =
  logDevelopment :: bool

record SchemaConfig =
  IndexerSchemaEndpoint :: string
  HTTPClientTimeoutSecs :: int
  AuthToken :: string

record ShinzoConfig =
  MinimumAttestations :: int
  HubBaseURL :: string
  StartHeight :: nat
  P2PEnabled :: bool
  ViewInactivityTimeout :: string
  ViewCleanupInterval :: string
  ViewWorkerCount :: int
  ViewQueueSize :: int
  CacheQueueSize :: int
  BatchWriterCount :: int
  BatchSize :: int
  BatchFlushInterval :: int
  MaxConcurrentVerifications :: int
  UseBlockSignatures :: bool
  DocWorkerCount :: int
  DocQueueSize :: int
  EventFilter :: EventFilterConfig

record SnapshotConfig =
  snapEnabled :: bool
  IndexerURL :: string
  HistoricalRanges :: "BlockRange list"

record HostConfig =
  LensRegistryPath :: string
  HealthServerPort :: int
  OpenBrowserOnStart :: bool
  hostSnapshot :: SnapshotConfig

record hostConfig =
  hcDefraDB :: DefraDBConfig
  hcShinzo :: ShinzoConfig
  hcSchema :: SchemaConfig
  hcLogger :: LoggerConfig
  hcHost :: HostConfig
  hcPruner :: prunerConfig

abbreviation DefaultIndexerSchemaEndpoint :: string where "DefaultIndexerSchemaEndpoint \<equiv> ''/api/v1/schema''"
abbreviation DefaultSchemaHTTPClientTimeout :: int where "DefaultSchemaHTTPClientTimeout \<equiv> 30"
abbreviation MaxSchemaHTTPClientTimeout :: int where "MaxSchemaHTTPClientTimeout \<equiv> 300"

subsection \<open>Loading\<close>

datatype load_error =
    ErrReadFile | ErrParseFile | ErrStartHeight string
  | ErrNegativeSchemaTimeout int | ErrExcessiveSchemaTimeout int

text \<open>\<open>filepath.Clean\<close> is left to \<open>readFile\<close>: it is applied to the path only.\<close>

definition envStartHeight :: "(string \<Rightarrow> string) \<Rightarrow> hostConfig \<Rightarrow> load_error + hostConfig" where
  "envStartHeight getenv hc =
     (let v = getenv ''START_HEIGHT'' in
      if v = [] then Inr hc
      else (case parseUint64 v of
          None \<Rightarrow> Inl (ErrStartHeight v)
        | Some height \<Rightarrow> Inr (hc\<lparr>hcShinzo := (hcShinzo hc)\<lparr>StartHeight := height\<rparr>\<rparr>)))"

definition envBootstrapPeers :: "(string \<Rightarrow> string) \<Rightarrow> hostConfig \<Rightarrow> hostConfig" where
  "envBootstrapPeers getenv hc =
     (let v = getenv ''BOOTSTRAP_PEERS'' in
      if v = [] then hc
      else (let db = hcDefraDB hc in
            hc\<lparr>hcDefraDB := db\<lparr>dbP2P := (dbP2P db)\<lparr>p2pBootstrapPeers := splitByte (CHR '','') v\<rparr>\<rparr>\<rparr>))"

definition envDefraURL :: "(string \<Rightarrow> string) \<Rightarrow> hostConfig \<Rightarrow> hostConfig" where
  "envDefraURL getenv hc =
     (let v = getenv ''DEFRA_URL'' in
      if v = [] then hc else hc\<lparr>hcDefraDB := (hcDefraDB hc)\<lparr>dbURL := v\<rparr>\<rparr>)"

definition envSchema :: "(string \<Rightarrow> string) \<Rightarrow> SchemaConfig \<Rightarrow> SchemaConfig" where
  "envSchema getenv sc =
     (let v = getenv ''INDEXER_SCHEMA_ENDPOINT'';
          sc1 = (if v = [] then sc else sc\<lparr>IndexerSchemaEndpoint := v\<rparr>);
          t = getenv ''INDEXER_SCHEMA_ENDPOINT_AUTH_TOKEN'';
          sc2 = (if t = [] then sc1 else sc1\<lparr>AuthToken := t\<rparr>) in
      if IndexerSchemaEndpoint sc2 = [] then sc2\<lparr>IndexerSchemaEndpoint := DefaultIndexerSchemaEndpoint\<rparr> else sc2)"

definition checkSchemaTimeout :: "SchemaConfig \<Rightarrow> load_error + SchemaConfig" where
  "checkSchemaTimeout sc =
     (if HTTPClientTimeoutSecs sc < 0 then Inl (ErrNegativeSchemaTimeout (HTTPClientTimeoutSecs sc))
      else if HTTPClientTimeoutSecs sc > MaxSchemaHTTPClientTimeout
      then Inl (ErrExcessiveSchemaTimeout (HTTPClientTimeoutSecs sc))
      else if HTTPClientTimeoutSecs sc = 0
      then Inr (sc\<lparr>HTTPClientTimeoutSecs := DefaultSchemaHTTPClientTimeout\<rparr>)
      else Inr sc)"

definition LoadConfig ::
  "(string \<Rightarrow> 'raw option) \<Rightarrow> ('raw \<Rightarrow> hostConfig option) \<Rightarrow> (string \<Rightarrow> string) \<Rightarrow> string \<Rightarrow> load_error + hostConfig" where
  "LoadConfig readFile unmarshal getenv path =
     (case readFile path of
        None \<Rightarrow> Inl ErrReadFile
      | Some data \<Rightarrow>
          (case unmarshal data of
             None \<Rightarrow> Inl ErrParseFile
           | Some cfg0 \<Rightarrow>
               (case envStartHeight getenv cfg0 of
                  Inl e \<Rightarrow> Inl e
                | Inr cfg1 \<Rightarrow>
                    (let cfg2 = envDefraURL getenv (envBootstrapPeers getenv cfg1) in
                     case checkSchemaTimeout (envSchema getenv (hcSchema cfg2)) of
                       Inl e \<Rightarrow> Inl e
                     | Inr sc \<Rightarrow> Inr (cfg2\<lparr>hcSchema := sc\<rparr>)))))"

subsection \<open>The node's configuration\<close>

text \<open>\<open>DefraP2PConfig\<close> has the fields of the host's, less the discovery timeout.\<close>

record DefraP2PConfig =
  inEnabled :: bool
  inBootstrapPeers :: "string list"
  inListenAddr :: string
  inRetry :: P2PConfig

record internalConfig =
  icURL :: string
  icKeyringSecret :: string
  icP2P :: DefraP2PConfig
  icStore :: DefraDBStoreConfig
  icDevelopment :: bool
  icLogsDir :: string

definition ToInternalConfig :: "hostConfig option \<Rightarrow> internalConfig option" where
  "ToInternalConfig c =
     map_option (\<lambda>c. let db = hcDefraDB c; p = dbP2P db in
       \<lparr>icURL = dbURL db, icKeyringSecret = dbKeyringSecret db,
        icP2P = \<lparr>inEnabled = p2pEnabled p, inBootstrapPeers = [], inListenAddr = p2pListenAddr p,
                 inRetry = \<lparr>MaxRetries = p2pMaxRetries p, RetryBaseDelayMs = p2pRetryBaseDelayMs p,
                            ReconnectIntervalMs = p2pReconnectIntervalMs p,
                            EnableAutoReconnect = p2pEnableAutoReconnect p\<rparr>\<rparr>,
        icStore = dbStore db, icDevelopment = logDevelopment (hcLogger c), icLogsDir = []\<rparr>) c"

subsection \<open>The entry point's choice of file\<close>

definition findConfigFile :: "(string \<Rightarrow> bool) \<Rightarrow> string" where
  "findConfigFile exists =
     (case find exists [''./config/config.yaml'', ''./config.yaml'', ''../config.yaml''] of
        Some path \<Rightarrow> path
      | None \<Rightarrow> ''config.yaml'')"

subsection \<open>Properties\<close>

text \<open>The value of a setting: the environment's if it has one, else the file's.\<close>

definition orEnv :: "(string \<Rightarrow> string) \<Rightarrow> string \<Rightarrow> string \<Rightarrow> string" where
  "orEnv getenv name v = (if getenv name = [] then v else getenv name)"

lemma schemaConfig_eqI:
  "IndexerSchemaEndpoint x = IndexerSchemaEndpoint y \<Longrightarrow> HTTPClientTimeoutSecs x = HTTPClientTimeoutSecs y \<Longrightarrow>
   AuthToken x = AuthToken y \<Longrightarrow> x = (y :: SchemaConfig)"
  by (cases x; cases y) auto

text \<open>The schema settings that load, and the ones they come from.\<close>

definition loadedSchema :: "(string \<Rightarrow> string) \<Rightarrow> SchemaConfig \<Rightarrow> SchemaConfig" where
  "loadedSchema getenv sc =
     \<lparr>IndexerSchemaEndpoint =
        (let e = orEnv getenv ''INDEXER_SCHEMA_ENDPOINT'' (IndexerSchemaEndpoint sc) in
         if e = [] then DefaultIndexerSchemaEndpoint else e),
      HTTPClientTimeoutSecs = (if HTTPClientTimeoutSecs sc = 0 then 30 else HTTPClientTimeoutSecs sc),
      AuthToken = orEnv getenv ''INDEXER_SCHEMA_ENDPOINT_AUTH_TOKEN'' (AuthToken sc)\<rparr>"

lemma envSchema_timeout [simp]: "HTTPClientTimeoutSecs (envSchema getenv sc) = HTTPClientTimeoutSecs sc"
  by (simp add: envSchema_def Let_def)

lemma envSchema_loaded:
  "(envSchema getenv sc)\<lparr>HTTPClientTimeoutSecs := (if HTTPClientTimeoutSecs sc = 0 then 30 else HTTPClientTimeoutSecs sc)\<rparr>
     = loadedSchema getenv sc"
  by (rule schemaConfig_eqI) (simp_all add: loadedSchema_def envSchema_def orEnv_def Let_def)

lemma checkSchemaTimeout_ok:
  "checkSchemaTimeout (envSchema getenv sc) =
     (let t = HTTPClientTimeoutSecs sc in
      if t < 0 then Inl (ErrNegativeSchemaTimeout t)
      else if t > 300 then Inl (ErrExcessiveSchemaTimeout t)
      else Inr (loadedSchema getenv sc))"
  unfolding envSchema_loaded [symmetric] by (simp add: checkSchemaTimeout_def Let_def)

lemma envBootstrapPeers_eq:
  "envBootstrapPeers getenv hc = hc\<lparr>hcDefraDB := (hcDefraDB hc)\<lparr>dbP2P := (dbP2P (hcDefraDB hc))\<lparr>p2pBootstrapPeers :=
      (if getenv ''BOOTSTRAP_PEERS'' = [] then p2pBootstrapPeers (dbP2P (hcDefraDB hc))
       else splitByte (CHR '','') (getenv ''BOOTSTRAP_PEERS''))\<rparr>\<rparr>\<rparr>"
  by (simp add: envBootstrapPeers_def Let_def)

lemma envDefraURL_eq:
  "envDefraURL getenv hc = hc\<lparr>hcDefraDB := (hcDefraDB hc)\<lparr>dbURL := orEnv getenv ''DEFRA_URL'' (dbURL (hcDefraDB hc))\<rparr>\<rparr>"
  by (simp add: envDefraURL_def orEnv_def Let_def)

text \<open>What a file with start height \<open>h\<close> becomes: the reference for the loader.\<close>

definition loadedConfig :: "(string \<Rightarrow> string) \<Rightarrow> nat \<Rightarrow> hostConfig \<Rightarrow> hostConfig" where
  "loadedConfig getenv h file = file\<lparr>
     hcDefraDB := (hcDefraDB file)\<lparr>
       dbURL := orEnv getenv ''DEFRA_URL'' (dbURL (hcDefraDB file)),
       dbP2P := (dbP2P (hcDefraDB file))\<lparr>p2pBootstrapPeers :=
         (if getenv ''BOOTSTRAP_PEERS'' = [] then p2pBootstrapPeers (dbP2P (hcDefraDB file))
          else splitByte (CHR '','') (getenv ''BOOTSTRAP_PEERS''))\<rparr>\<rparr>,
     hcShinzo := (hcShinzo file)\<lparr>StartHeight := h\<rparr>,
     hcSchema := loadedSchema getenv (hcSchema file)\<rparr>"

definition startHeightOf :: "(string \<Rightarrow> string) \<Rightarrow> hostConfig \<Rightarrow> nat option" where
  "startHeightOf getenv file =
     (if getenv ''START_HEIGHT'' = [] then Some (StartHeight (hcShinzo file)) else parseUint64 (getenv ''START_HEIGHT''))"

lemma envStartHeight_ok:
  "envStartHeight getenv file = (case startHeightOf getenv file of
     None \<Rightarrow> Inl (ErrStartHeight (getenv ''START_HEIGHT''))
   | Some h \<Rightarrow> Inr (file\<lparr>hcShinzo := (hcShinzo file)\<lparr>StartHeight := h\<rparr>\<rparr>))"
  by (simp add: envStartHeight_def startHeightOf_def Let_def split: option.splits)

lemma overridden:
  "hcSchema (envDefraURL getenv (envBootstrapPeers getenv (file\<lparr>hcShinzo := s\<rparr>))) = hcSchema file"
  "(envDefraURL getenv (envBootstrapPeers getenv (file\<lparr>hcShinzo := (hcShinzo file)\<lparr>StartHeight := h\<rparr>\<rparr>)))
     \<lparr>hcSchema := loadedSchema getenv (hcSchema file)\<rparr> = loadedConfig getenv h file"
  by (simp_all add: envBootstrapPeers_eq envDefraURL_eq loadedConfig_def)


end
