(* ===== verification/Node_Identity.thy ===== *)
theory Node_Identity
  imports Host_Config
begin

text \<open>
  The keys of the node: the key ring and identity part of \<open>pkg/defradb/defra.go\<close>,
  \<open>pkg/defracontext/identity.go\<close>, \<open>pkg/signer/signer.go\<close>, \<open>pkg/signer/nodekey.go\<close> and
  \<open>Host.SignMessages\<close> of \<open>pkg/host/host.go\<close>. The disk with the key ring on it, DefraDB's key and
  identity library and the Ed25519 libraries are arguments; what is used of them is stated by
  \<open>keyringOk\<close>, \<open>keyLibOk\<close>, \<open>signLibOk\<close> and \<open>edLibOk\<close>.
\<close>

subsection \<open>Bytes and paths\<close>

definition bytesOf :: "string \<Rightarrow> byte list" where
  "bytesOf s = map (\<lambda>c. of_nat (of_char c)) s"

definition stringOf :: "byte list \<Rightarrow> string" where
  "stringOf bs = map (\<lambda>b. char_of (unat b)) bs"

text \<open>\<open>filepath.Clean\<close> and \<open>filepath.Join\<close> of two elements.\<close>

definition cleanStep :: "bool \<Rightarrow> string list \<Rightarrow> string \<Rightarrow> string list" where
  "cleanStep rooted acc e =
     (if e = [] \<or> e = ''.'' then acc
      else if e = ''..''
      then (if acc \<noteq> [] \<and> hd acc \<noteq> ''..'' then tl acc else if rooted then acc else e # acc)
      else e # acc)"

definition filepathClean :: "string \<Rightarrow> string" where
  "filepathClean p =
     (let rooted = hasPrefix p ''/'';
          es = rev (foldl (cleanStep rooted) [] (splitByte (CHR ''/'') p));
          body = tl (concat (map (\<lambda>e. CHR ''/'' # e) es)) in
      if rooted then CHR ''/'' # body else if es = [] then ''.'' else body)"

definition filepathJoin :: "string \<Rightarrow> string \<Rightarrow> string" where
  "filepathJoin a b =
     (if a = [] \<and> b = [] then [] else if a = [] then filepathClean b else if b = [] then filepathClean a
      else filepathClean (a @ ''/'' @ b))"

subsection \<open>Libraries\<close>

datatype keyGet = KeyFound "byte list" | KeyNotFound | KeyFailed

text \<open>
  The disk: creating directories, opening the file key ring of a directory with a secret, reading
  and writing its entries, reading and finding files, and the home directory.
\<close>

record 'w keyDisk =
  kdMkdirAll :: "string \<Rightarrow> 'w \<Rightarrow> bool \<times> 'w"
  kdOpen :: "string \<Rightarrow> byte list \<Rightarrow> 'w \<Rightarrow> bool"
  kdGet :: "string \<Rightarrow> byte list \<Rightarrow> string \<Rightarrow> 'w \<Rightarrow> keyGet"
  kdSet :: "string \<Rightarrow> byte list \<Rightarrow> string \<Rightarrow> byte list \<Rightarrow> 'w \<Rightarrow> bool \<times> 'w"
  kdRead :: "string \<Rightarrow> 'w \<Rightarrow> byte list option"
  kdStat :: "string \<Rightarrow> 'w \<Rightarrow> bool"
  kdHome :: string

record ('priv, 'pub) fullIdentity =
  PrivateKey :: "'priv option"
  PublicKey :: "'pub option"

datatype ('priv, 'pub) Identity = NotFull | IsFull "('priv, 'pub) fullIdentity"

record ('priv, 'pub) keyLib =
  klRaw :: "'priv \<Rightarrow> byte list"
  klType :: "'priv \<Rightarrow> string"
  klFromBytes :: "string \<Rightarrow> byte list \<Rightarrow> 'priv option"
  klIdentity :: "'priv \<Rightarrow> ('priv, 'pub) fullIdentity option"
  klGenerate :: "string \<Rightarrow> ('priv, 'pub) Identity option"
  klSign :: "'priv \<Rightarrow> byte list \<Rightarrow> byte list option"
  klPubString :: "'pub \<Rightarrow> string"
  klPubFromString :: "string \<Rightarrow> string \<Rightarrow> 'pub option"
  klVerify :: "'pub \<Rightarrow> byte list \<Rightarrow> byte list \<Rightarrow> bool option"

text \<open>libp2p's Ed25519 keys (\<open>'lp\<close>), the standard library's (\<open>'ek\<close>) and DefraDB's public ones.\<close>

record ('lp, 'ek, 'epk, 'upk) edLib =
  edGenerate :: "byte list \<Rightarrow> 'lp option"
  edRaw :: "'lp \<Rightarrow> byte list option"
  edPublicRaw :: "'lp \<Rightarrow> byte list option"
  edFromSeed :: "byte list \<Rightarrow> 'ek"
  edSign :: "'ek \<Rightarrow> byte list \<Rightarrow> byte list"
  edPubFromString :: "string \<Rightarrow> 'epk option"
  edUnderlying :: "'epk \<Rightarrow> 'upk option"
  edVerify :: "'upk \<Rightarrow> byte list \<Rightarrow> byte list \<Rightarrow> bool"

datatype key_error =
    ErrEmptyConfig | ErrNilKeyringSecret | ErrMkdirAll | ErrOpenFileKeyring | ErrKeyringGet | ErrKeyNotFound
  | ErrGenerateIdentity | ErrKeyringSet | ErrIdentityNotFull | ErrPrivateKeyFailure | ErrPrivateKeyNoBytes
  | ErrPrivateKeyFromBytes | ErrFromPrivateKey | ErrKeyLengthError | ErrGenerateEd25519
  | ErrKeyFileNotFound | ErrReadKeyFile | ErrDecodeKeyHex | ErrNoPrivateKey | ErrNoPublicKey | ErrSign
  | ErrLibP2PRaw | ErrUnexpectedKeyLength | ErrUnexpectedKeyType string
  | ErrDecodeSignature | ErrParsePublicKey | ErrVerify | ErrSignatureVerification | ErrNotEd25519Key

abbreviation NodeIdentityKeyName :: string where "NodeIdentityKeyName \<equiv> ''node-identity-key''"
abbreviation KeyTypeSecp256k1 :: string where "KeyTypeSecp256k1 \<equiv> ''secp256k1''"
abbreviation keyFileName :: string where "keyFileName \<equiv> ''defra_identity.key''"

subsection \<open>The key ring\<close>

text \<open>An open key ring is its directory and its secret.\<close>

definition keyringPath :: "internalConfig \<Rightarrow> string" where
  "keyringPath c = (if storePath (icStore c) = [] then ''keys'' else filepathJoin (storePath (icStore c)) ''keys'')"

definition OpenKeyring :: "'w keyDisk \<Rightarrow> internalConfig option \<Rightarrow> 'w \<Rightarrow> (key_error + string \<times> byte list) \<times> 'w" where
  "OpenKeyring D ic w =
     (case ic of
        None \<Rightarrow> (Inl ErrEmptyConfig, w)
      | Some c \<Rightarrow>
          if icKeyringSecret c = [] then (Inl ErrNilKeyringSecret, w)
          else (case kdMkdirAll D (keyringPath c) w of
              (False, w1) \<Rightarrow> (Inl ErrMkdirAll, w1)
            | (True, w1) \<Rightarrow>
                if kdOpen D (keyringPath c) (bytesOf (icKeyringSecret c)) w1
                then (Inr (keyringPath c, bytesOf (icKeyringSecret c)), w1)
                else (Inl ErrOpenFileKeyring, w1)))"

definition LoadIdentityFromBytes :: "('priv, 'pub) keyLib \<Rightarrow> byte list \<Rightarrow> key_error + ('priv, 'pub) fullIdentity" where
  "LoadIdentityFromBytes L identityBytes =
     (let s = stringOf identityBytes;
          bs = (if indexByte s (CHR '':'') = None then bytesOf (KeyTypeSecp256k1 @ '':'') @ identityBytes else identityBytes);
          sepPos = (case indexByte s (CHR '':'') of None \<Rightarrow> length KeyTypeSecp256k1 | Some i \<Rightarrow> i) in
      case klFromBytes L (stringOf (take sepPos bs)) (drop (sepPos + 1) bs) of
        None \<Rightarrow> Inl ErrPrivateKeyFromBytes
      | Some k \<Rightarrow> (case klIdentity L k of None \<Rightarrow> Inl ErrFromPrivateKey | Some f \<Rightarrow> Inr f))"

definition saveNodeIdentityToKeyring ::
  "'w keyDisk \<Rightarrow> ('priv, 'pub) keyLib \<Rightarrow> string \<times> byte list \<Rightarrow> ('priv, 'pub) Identity \<Rightarrow> 'w \<Rightarrow> key_error option \<times> 'w" where
  "saveNodeIdentityToKeyring D L kr nodeIdentity w =
     (case nodeIdentity of
        NotFull \<Rightarrow> (Some ErrIdentityNotFull, w)
      | IsFull f \<Rightarrow>
          (case PrivateKey f of
             None \<Rightarrow> (Some ErrPrivateKeyFailure, w)
           | Some k \<Rightarrow>
               if klRaw L k = [] then (Some ErrPrivateKeyNoBytes, w)
               else (case kdSet D (fst kr) (snd kr) NodeIdentityKeyName (bytesOf (klType L k @ '':'') @ klRaw L k) w of
                   (True, w1) \<Rightarrow> (None, w1)
                 | (False, w1) \<Rightarrow> (Some ErrKeyringSet, w1))))"

definition getOrCreateNodeIdentity ::
  "'w keyDisk \<Rightarrow> ('priv, 'pub) keyLib \<Rightarrow> internalConfig option \<Rightarrow> 'w \<Rightarrow> (key_error + ('priv, 'pub) Identity) \<times> 'w" where
  "getOrCreateNodeIdentity D L ic w =
     (case OpenKeyring D ic w of
        (Inl e, w1) \<Rightarrow> (Inl e, w1)
      | (Inr kr, w1) \<Rightarrow>
          (case kdGet D (fst kr) (snd kr) NodeIdentityKeyName w1 of
             KeyFailed \<Rightarrow> (Inl ErrKeyringGet, w1)
           | KeyNotFound \<Rightarrow>
               (case klGenerate L KeyTypeSecp256k1 of
                  None \<Rightarrow> (Inl ErrGenerateIdentity, w1)
                | Some i \<Rightarrow>
                    (case saveNodeIdentityToKeyring D L kr i w1 of
                       (Some e, w2) \<Rightarrow> (Inl e, w2)
                     | (None, w2) \<Rightarrow> (Inr i, w2)))
           | KeyFound bs \<Rightarrow> (map_sum id IsFull (LoadIdentityFromBytes L bs), w1)))"

definition LoadIdentityFromKeyring ::
  "'w keyDisk \<Rightarrow> ('priv, 'pub) keyLib \<Rightarrow> string \<times> byte list \<Rightarrow> 'w \<Rightarrow> key_error + ('priv, 'pub) fullIdentity" where
  "LoadIdentityFromKeyring D L kr w =
     (case kdGet D (fst kr) (snd kr) NodeIdentityKeyName w of
        KeyFailed \<Rightarrow> Inl ErrKeyringGet
      | KeyNotFound \<Rightarrow> Inl ErrKeyNotFound
      | KeyFound bs \<Rightarrow> LoadIdentityFromBytes L bs)"

text \<open>A context carries the identities attached to it, the last one first.\<close>

definition WithIdentity :: "'i list \<Rightarrow> 'i \<Rightarrow> 'i list" where
  "WithIdentity ctx i = i # ctx"

fun IdentityFrom :: "'i list \<Rightarrow> 'i option" where
  "IdentityFrom [] = None"
| "IdentityFrom (i # ctx) = Some i"

definition GetIdentityContext ::
  "'w keyDisk \<Rightarrow> ('priv, 'pub) keyLib \<Rightarrow> ('priv, 'pub) Identity list \<Rightarrow> internalConfig option \<Rightarrow> 'w \<Rightarrow>
   (key_error option \<times> ('priv, 'pub) Identity list) \<times> 'w" where
  "GetIdentityContext D L ctx ic w =
     (case getOrCreateNodeIdentity D L ic w of
        (Inl e, w1) \<Rightarrow> ((Some e, ctx), w1)
      | (Inr i, w1) \<Rightarrow> ((None, WithIdentity ctx i), w1))"

definition CreateLibP2PKeyFromIdentity ::
  "('priv, 'pub) keyLib \<Rightarrow> ('lp, 'ek, 'epk, 'upk) edLib \<Rightarrow> ('priv, 'pub) Identity \<Rightarrow> key_error + 'lp" where
  "CreateLibP2PKeyFromIdentity L E nodeIdentity =
     (case nodeIdentity of
        NotFull \<Rightarrow> Inl ErrIdentityNotFull
      | IsFull f \<Rightarrow>
          (case PrivateKey f of
             None \<Rightarrow> Inl ErrPrivateKeyFailure
           | Some k \<Rightarrow>
               if klRaw L k = [] then Inl ErrPrivateKeyNoBytes
               else if length (klRaw L k) \<noteq> 32 then Inl ErrKeyLengthError
               else (case edGenerate E (klRaw L k) of None \<Rightarrow> Inl ErrGenerateEd25519 | Some lp \<Rightarrow> Inr lp)))"

subsection \<open>The signer\<close>

definition loadIdentityFromFile ::
  "'w keyDisk \<Rightarrow> ('priv, 'pub) keyLib \<Rightarrow> string \<Rightarrow> 'w \<Rightarrow> key_error + ('priv, 'pub) fullIdentity" where
  "loadIdentityFromFile D L path w =
     (case kdRead D (filepathClean (filepathJoin path keyFileName)) w of
        None \<Rightarrow> Inl ErrReadKeyFile
      | Some keyHex \<Rightarrow>
          (case hexDecode (trimSpace (stringOf keyHex)) of
             None \<Rightarrow> Inl ErrDecodeKeyHex
           | Some keyBytes \<Rightarrow>
               (case klFromBytes L KeyTypeSecp256k1 keyBytes of
                  None \<Rightarrow> Inl ErrPrivateKeyFromBytes
                | Some k \<Rightarrow> (case klIdentity L k of None \<Rightarrow> Inl ErrFromPrivateKey | Some f \<Rightarrow> Inr f))))"

definition loadIdentityFromStore ::
  "'w keyDisk \<Rightarrow> ('priv, 'pub) keyLib \<Rightarrow> internalConfig option \<Rightarrow> string \<Rightarrow> 'w \<Rightarrow>
   (key_error + ('priv, 'pub) fullIdentity) \<times> 'w" where
  "loadIdentityFromStore D L ic path w =
     (if ic = None then (loadIdentityFromFile D L path w, w)
      else (case OpenKeyring D ic w of
          (Inl e, w1) \<Rightarrow> (loadIdentityFromFile D L path w1, w1)
        | (Inr kr, w1) \<Rightarrow>
            (case LoadIdentityFromKeyring D L kr w1 of
               Inr f \<Rightarrow> (Inr f, w1)
             | Inl e \<Rightarrow> (loadIdentityFromFile D L path w1, w1))))"

definition getStorePath :: "'w keyDisk \<Rightarrow> internalConfig option \<Rightarrow> 'w \<Rightarrow> key_error + string" where
  "getStorePath D ic w =
     (let common = (case find (\<lambda>p. kdStat D (filepathJoin (filepathClean p) keyFileName) w)
                          [''.defra'', filepathJoin (kdHome D) ''.defradb''] of
                      Some p \<Rightarrow> Inr p | None \<Rightarrow> Inl ErrKeyFileNotFound) in
      case ic of
        None \<Rightarrow> common
      | Some c \<Rightarrow> if storePath (icStore c) \<noteq> [] then Inr (storePath (icStore c)) else common)"

text \<open>The four operations of the signer and the accounting key start by loading the identity.\<close>

definition withIdentity ::
  "'w keyDisk \<Rightarrow> ('priv, 'pub) keyLib \<Rightarrow> internalConfig option \<Rightarrow> (('priv, 'pub) fullIdentity \<Rightarrow> key_error + 'a) \<Rightarrow> 'w \<Rightarrow>
   (key_error + 'a) \<times> 'w" where
  "withIdentity D L ic use w =
     (case getStorePath D ic w of
        Inl e \<Rightarrow> (Inl e, w)
      | Inr path \<Rightarrow>
          (case loadIdentityFromStore D L ic path w of
             (Inl e, w1) \<Rightarrow> (Inl e, w1)
           | (Inr f, w1) \<Rightarrow> (use f, w1)))"

definition SignWithDefraKeys ::
  "'w keyDisk \<Rightarrow> ('priv, 'pub) keyLib \<Rightarrow> string \<Rightarrow> internalConfig option \<Rightarrow> 'w \<Rightarrow> (key_error + string) \<times> 'w" where
  "SignWithDefraKeys D L message ic =
     withIdentity D L ic (\<lambda>f.
       case PrivateKey f of
         None \<Rightarrow> Inl ErrNoPrivateKey
       | Some k \<Rightarrow> (case klSign L k (bytesOf message) of None \<Rightarrow> Inl ErrSign | Some sig \<Rightarrow> Inr (hexEncode sig)))"

definition ed25519Seed :: "byte list \<Rightarrow> byte list option" where
  "ed25519Seed raw = (if length raw = 64 then Some (take 32 raw) else if length raw = 32 then Some raw else None)"

definition SignWithP2PKeys ::
  "'w keyDisk \<Rightarrow> ('priv, 'pub) keyLib \<Rightarrow> ('lp, 'ek, 'epk, 'upk) edLib \<Rightarrow> string \<Rightarrow> internalConfig option \<Rightarrow> 'w \<Rightarrow> (key_error + string) \<times> 'w" where
  "SignWithP2PKeys D L E message ic =
     withIdentity D L ic (\<lambda>f.
       case CreateLibP2PKeyFromIdentity L E (IsFull f) of
         Inl e \<Rightarrow> Inl e
       | Inr lp \<Rightarrow>
           (case edRaw E lp of
              None \<Rightarrow> Inl ErrLibP2PRaw
            | Some raw \<Rightarrow>
                (case ed25519Seed raw of
                   None \<Rightarrow> Inl ErrUnexpectedKeyLength
                 | Some seed \<Rightarrow> Inr (hexEncode (edSign E (edFromSeed E seed) (bytesOf message))))))"

definition GetDefraPublicKey ::
  "'w keyDisk \<Rightarrow> ('priv, 'pub) keyLib \<Rightarrow> internalConfig option \<Rightarrow> 'w \<Rightarrow> (key_error + string) \<times> 'w" where
  "GetDefraPublicKey D L ic =
     withIdentity D L ic (\<lambda>f. case PublicKey f of None \<Rightarrow> Inl ErrNoPublicKey | Some p \<Rightarrow> Inr (klPubString L p))"

definition GetP2PPublicKey ::
  "'w keyDisk \<Rightarrow> ('priv, 'pub) keyLib \<Rightarrow> ('lp, 'ek, 'epk, 'upk) edLib \<Rightarrow> internalConfig option \<Rightarrow> 'w \<Rightarrow> (key_error + string) \<times> 'w" where
  "GetP2PPublicKey D L E ic =
     withIdentity D L ic (\<lambda>f.
       case CreateLibP2PKeyFromIdentity L E (IsFull f) of
         Inl e \<Rightarrow> Inl e
       | Inr lp \<Rightarrow> (case edPublicRaw E lp of None \<Rightarrow> Inl ErrLibP2PRaw | Some p \<Rightarrow> Inr (hexEncode p)))"

definition VerifyDefraSignature :: "('priv, 'pub) keyLib \<Rightarrow> string \<Rightarrow> string \<Rightarrow> string \<Rightarrow> key_error option" where
  "VerifyDefraSignature L publicKeyHex message signatureHex =
     (case hexDecode signatureHex of
        None \<Rightarrow> Some ErrDecodeSignature
      | Some sig \<Rightarrow>
          (case klPubFromString L KeyTypeSecp256k1 publicKeyHex of
             None \<Rightarrow> Some ErrParsePublicKey
           | Some p \<Rightarrow>
               (case klVerify L p (bytesOf message) sig of
                  None \<Rightarrow> Some ErrVerify
                | Some valid \<Rightarrow> if valid then None else Some ErrSignatureVerification)))"

definition VerifyP2PSignature :: "('lp, 'ek, 'epk, 'upk) edLib \<Rightarrow> string \<Rightarrow> string \<Rightarrow> string \<Rightarrow> key_error option" where
  "VerifyP2PSignature E publicKeyHex message signatureHex =
     (case hexDecode signatureHex of
        None \<Rightarrow> Some ErrDecodeSignature
      | Some sig \<Rightarrow>
          (case edPubFromString E publicKeyHex of
             None \<Rightarrow> Some ErrParsePublicKey
           | Some p \<Rightarrow>
               (case edUnderlying E p of
                  None \<Rightarrow> Some ErrNotEd25519Key
                | Some u \<Rightarrow> if edVerify E u (bytesOf message) sig then None else Some ErrVerify)))"

text \<open>\<open>ecdsa\<close> stands for \<open>secp256k1.PrivKeyFromBytes\<close>.\<close>

definition nodeKeyToECDSA :: "('priv, 'pub) keyLib \<Rightarrow> (byte list \<Rightarrow> 'ec) \<Rightarrow> 'priv option \<Rightarrow> key_error + 'ec" where
  "nodeKeyToECDSA L ecdsa priv =
     (case priv of
        None \<Rightarrow> Inl ErrNoPrivateKey
      | Some k \<Rightarrow>
          if klType L k \<noteq> KeyTypeSecp256k1 then Inl (ErrUnexpectedKeyType (klType L k)) else Inr (ecdsa (klRaw L k)))"

definition NodeECDSAKey ::
  "'w keyDisk \<Rightarrow> ('priv, 'pub) keyLib \<Rightarrow> (byte list \<Rightarrow> 'ec) \<Rightarrow> internalConfig option \<Rightarrow> 'w \<Rightarrow> (key_error + 'ec) \<times> 'w" where
  "NodeECDSAKey D L ecdsa ic = withIdentity D L ic (\<lambda>f. nodeKeyToECDSA L ecdsa (PrivateKey f))"

subsection \<open>Registration messages\<close>

record DefraPKRegistration =
  regPublicKey :: string
  SignedPKMsg :: string

record PeerIDRegistration =
  regPeerID :: string
  SignedPeerMsg :: string

definition SignMessages ::
  "'w keyDisk \<Rightarrow> ('priv, 'pub) keyLib \<Rightarrow> ('lp, 'ek, 'epk, 'upk) edLib \<Rightarrow> hostConfig option \<Rightarrow> string \<Rightarrow> 'w \<Rightarrow>
   (key_error + DefraPKRegistration \<times> PeerIDRegistration) \<times> 'w" where
  "SignMessages D L E hc message w =
     (let ic = ToInternalConfig hc in
      case SignWithDefraKeys D L message ic w of
        (Inl e, w1) \<Rightarrow> (Inl e, w1)
      | (Inr signedMsg, w1) \<Rightarrow>
          (case SignWithP2PKeys D L E message ic w1 of
             (Inl e, w2) \<Rightarrow> (Inl e, w2)
           | (Inr peerSignedMsg, w2) \<Rightarrow>
               (case GetDefraPublicKey D L ic w2 of
                  (Inl e, w3) \<Rightarrow> (Inl e, w3)
                | (Inr nodePubKey, w3) \<Rightarrow>
                    (case GetP2PPublicKey D L E ic w3 of
                       (Inl e, w4) \<Rightarrow> (Inl e, w4)
                     | (Inr peerPubKey, w4) \<Rightarrow>
                         (Inr (\<lparr>regPublicKey = nodePubKey, SignedPKMsg = signedMsg\<rparr>,
                               \<lparr>regPeerID = peerPubKey, SignedPeerMsg = peerSignedMsg\<rparr>), w4)))))"

subsection \<open>What is used of the libraries\<close>

text \<open>
  Creating a directory again changes nothing, and an entry that was written is read back, with the
  directory still there and the key ring still open to the secret.
\<close>

definition keyringOk :: "'w keyDisk \<Rightarrow> bool" where
  "keyringOk D \<longleftrightarrow>
     (\<forall>p w. kdMkdirAll D p (snd (kdMkdirAll D p w)) = (fst (kdMkdirAll D p w), snd (kdMkdirAll D p w)))
     \<and> (\<forall>p s n b w w'. kdSet D p s n b w = (True, w') \<longrightarrow>
          kdGet D p s n w' = KeyFound b
          \<and> (kdMkdirAll D p w = (True, w) \<longrightarrow> kdMkdirAll D p w' = (True, w'))
          \<and> (kdOpen D p s w \<longrightarrow> kdOpen D p s w'))"

text \<open>A private key is rebuilt from its type and bytes, and an identity from its private key.\<close>

definition keyLibOk :: "('priv, 'pub) keyLib \<Rightarrow> bool" where
  "keyLibOk L \<longleftrightarrow>
     (\<forall>k. klFromBytes L (klType L k) (klRaw L k) = Some k \<and> CHR '':'' \<notin> set (klType L k)
          \<and> (\<forall>f. klIdentity L k = Some f \<longrightarrow> PrivateKey f = Some k) \<and> klIdentity L k \<noteq> None)"

text \<open>What a private key signs verifies with the public key of its identity, also after printing it in hex.\<close>

definition signLibOk :: "('priv, 'pub) keyLib \<Rightarrow> bool" where
  "signLibOk L \<longleftrightarrow>
     (\<forall>k f p m sig. klIdentity L k = Some f \<longrightarrow> PublicKey f = Some p \<longrightarrow> klSign L k m = Some sig \<longrightarrow>
        (\<exists>q bs. klPubFromString L KeyTypeSecp256k1 (klPubString L p) = Some q \<and> klVerify L q m sig = Some True
           \<and> klPubString L p = hexEncode bs))"

definition edLibOk :: "('lp, 'ek, 'epk, 'upk) edLib \<Rightarrow> bool" where
  "edLibOk E \<longleftrightarrow>
     (\<forall>lp raw seed p m. edRaw E lp = Some raw \<longrightarrow> ed25519Seed raw = Some seed \<longrightarrow> edPublicRaw E lp = Some p \<longrightarrow>
        (\<exists>q u. edPubFromString E (hexEncode p) = Some q \<and> edUnderlying E q = Some u
           \<and> edVerify E u m (edSign E (edFromSeed E seed) m)))"

subsection \<open>Lemmas\<close>

lemma stringOf_bytesOf [simp]: "stringOf (bytesOf s) = s"
proof -
  have "char_of (unat (of_nat (of_char c) :: byte)) = c" for c
    by (simp add: unat_of_nat)
  then show ?thesis by (simp add: stringOf_def bytesOf_def comp_def)
qed

lemma stringOf_append [simp]: "stringOf (a @ b) = stringOf a @ stringOf b"
  by (simp add: stringOf_def)

lemma bytesOf_append [simp]: "bytesOf (a @ b) = bytesOf a @ bytesOf b"
  by (simp add: bytesOf_def)

lemma length_bytesOf [simp]: "length (bytesOf s) = length s"
  by (simp add: bytesOf_def)

definition identityOf :: "('priv, 'pub) keyLib \<Rightarrow> string \<Rightarrow> byte list \<Rightarrow> key_error + ('priv, 'pub) fullIdentity" where
  "identityOf L t raw =
     (case klFromBytes L t raw of
        None \<Rightarrow> Inl ErrPrivateKeyFromBytes
      | Some k \<Rightarrow> (case klIdentity L k of None \<Rightarrow> Inl ErrFromPrivateKey | Some f \<Rightarrow> Inr f))"

lemma typed_parts:
  "take (length t) (bytesOf (t @ '':'') @ raw) = bytesOf t"
  "drop (length t + 1) (bytesOf (t @ '':'') @ raw) = raw"
  by simp_all

lemma load_typed:
  assumes "CHR '':'' \<notin> set t"
  shows "LoadIdentityFromBytes L (bytesOf (t @ '':'') @ raw) = identityOf L t raw"
proof -
  have i: "indexByte (stringOf (bytesOf (t @ '':'') @ raw)) (CHR '':'') = Some (length t)" using assms by simp
  show ?thesis
    unfolding LoadIdentityFromBytes_def identityOf_def Let_def i
    by (simp only: option.simps option.distinct if_False typed_parts stringOf_bytesOf)
qed

lemma load_untyped:
  assumes "CHR '':'' \<notin> set (stringOf raw)"
  shows "LoadIdentityFromBytes L raw = identityOf L KeyTypeSecp256k1 raw"
proof -
  have i: "indexByte (stringOf raw) (CHR '':'') = None" using assms by (simp add: indexByte_None_iff)
  show ?thesis
    unfolding LoadIdentityFromBytes_def identityOf_def Let_def i
    by (simp only: option.simps refl if_True typed_parts stringOf_bytesOf)
qed

lemma mkdir_again:
  assumes "keyringOk D" "kdMkdirAll D p w = (b, w1)"
  shows "kdMkdirAll D p w1 = (b, w1)"
proof -
  have "kdMkdirAll D p (snd (kdMkdirAll D p w)) = (fst (kdMkdirAll D p w), snd (kdMkdirAll D p w))"
    using assms(1) by (simp add: keyringOk_def)
  with assms(2) show ?thesis by simp
qed

lemma OpenKeyring_again:
  assumes "keyringOk D" "OpenKeyring D ic w = (r, w1)"
  shows "OpenKeyring D ic w1 = (r, w1)"
proof (cases ic)
  case (Some c)
  obtain b w2 where m: "kdMkdirAll D (keyringPath c) w = (b, w2)" by fastforce
  note a = mkdir_again [OF assms(1) m]
  show ?thesis using assms(2) m a Some by (auto simp: OpenKeyring_def split: if_splits bool.splits)
qed (use assms in \<open>simp add: OpenKeyring_def\<close>)

lemma OpenKeyring_InrD:
  assumes "OpenKeyring D ic w = (Inr kr, w1)" "keyringOk D"
  obtains c where "ic = Some c" "kr = (keyringPath c, bytesOf (icKeyringSecret c))" "icKeyringSecret c \<noteq> []"
    "kdMkdirAll D (keyringPath c) w1 = (True, w1)" "kdOpen D (keyringPath c) (bytesOf (icKeyringSecret c)) w1"
  using OpenKeyring_again [OF assms(2,1)] by (auto simp: OpenKeyring_def split: if_splits option.splits prod.splits bool.splits)

lemma loadIdentityFromStore_again:
  assumes "keyringOk D" "loadIdentityFromStore D L ic path w = (r, w1)"
  shows "loadIdentityFromStore D L ic path w1 = (r, w1)"
proof (cases "OpenKeyring D ic w")
  case (Pair r' w2)
  note a = OpenKeyring_again [OF assms(1) Pair]
  show ?thesis using Pair a assms(2)
    by (auto simp: loadIdentityFromStore_def split: if_splits sum.splits)
qed

lemma withIdentity_InrD:
  assumes "withIdentity D L ic use w = (Inr x, w1)" "ic = Some c" "storePath (icStore c) \<noteq> []"
  obtains f where "loadIdentityFromStore D L ic (storePath (icStore c)) w = (Inr f, w1)" "use f = Inr x"
  using assms by (auto simp: withIdentity_def getStorePath_def split: sum.splits prod.splits)

lemma identityOf_key:
  assumes "keyLibOk L" "identityOf L t raw = Inr f"
  obtains k where "PrivateKey f = Some k" "klIdentity L k = Some f"
  using assms by (auto simp: identityOf_def keyLibOk_def split: option.splits)

lemma LoadIdentityFromBytes_key:
  assumes "keyLibOk L" "LoadIdentityFromBytes L bs = Inr f"
  obtains k where "PrivateKey f = Some k" "klIdentity L k = Some f"
  using assms by (auto simp: LoadIdentityFromBytes_def keyLibOk_def Let_def split: option.splits)

lemma identityOf_own:
  assumes "keyLibOk L"
  obtains f where "identityOf L (klType L k) (klRaw L k) = Inr f" "PrivateKey f = Some k"
  using assms unfolding keyLibOk_def identityOf_def by (metis (no_types, lifting) not_None_eq option.simps(5))

lemma set_kept:
  assumes "keyringOk D" "kdSet D p s n b w = (True, w')" "kdMkdirAll D p w = (True, w)" "kdOpen D p s w"
  shows "kdGet D p s n w' = KeyFound b" "kdMkdirAll D p w' = (True, w')" "kdOpen D p s w'"
  using assms unfolding keyringOk_def by blast+

text \<open>After the node has an identity, its key ring is open and holds the private key of it.\<close>

lemma identity_in_ring:
  assumes "keyringOk D" "keyLibOk L" "getOrCreateNodeIdentity D L ic w = (Inr i, w1)"
  obtains kr bs f f0 k where "OpenKeyring D ic w1 = (Inr kr, w1)"
    "kdGet D (fst kr) (snd kr) NodeIdentityKeyName w1 = KeyFound bs" "LoadIdentityFromBytes L bs = Inr f"
    "PrivateKey f = Some k" "i = IsFull f0" "PrivateKey f0 = Some k"
proof -
  obtain kr w0 where o: "OpenKeyring D ic w = (Inr kr, w0)"
    using assms(3) by (auto simp: getOrCreateNodeIdentity_def split: sum.splits prod.splits)
  note again = OpenKeyring_again [OF assms(1) o]
  show thesis
  proof (cases "kdGet D (fst kr) (snd kr) NodeIdentityKeyName w0")
    case (KeyFound bs)
    with assms(3) o obtain f where f: "LoadIdentityFromBytes L bs = Inr f" "i = IsFull f" "w1 = w0"
      by (cases "LoadIdentityFromBytes L bs") (auto simp: getOrCreateNodeIdentity_def)
    obtain k where "PrivateKey f = Some k" by (rule LoadIdentityFromBytes_key [OF assms(2) f(1)])
    with f KeyFound again show thesis using that by blast
  next
    case KeyNotFound
    with assms(3) o have s: "saveNodeIdentityToKeyring D L kr i w0 = (None, w1)"
      by (auto simp: getOrCreateNodeIdentity_def split: option.splits prod.splits)
    then obtain f0 k where i: "i = IsFull f0" "PrivateKey f0 = Some k"
      and set: "kdSet D (fst kr) (snd kr) NodeIdentityKeyName (bytesOf (klType L k @ '':'') @ klRaw L k) w0 = (True, w1)"
      by (auto simp: saveNodeIdentityToKeyring_def split: Identity.splits option.splits if_splits prod.splits bool.splits)
    obtain c where c: "ic = Some c" "kr = (keyringPath c, bytesOf (icKeyringSecret c))" "icKeyringSecret c \<noteq> []"
      "kdMkdirAll D (keyringPath c) w0 = (True, w0)" "kdOpen D (keyringPath c) (bytesOf (icKeyringSecret c)) w0"
      by (rule OpenKeyring_InrD [OF o assms(1)])
    from set c have set': "kdSet D (keyringPath c) (bytesOf (icKeyringSecret c)) NodeIdentityKeyName
        (bytesOf (klType L k @ '':'') @ klRaw L k) w0 = (True, w1)" by simp
    note kept = set_kept [OF assms(1) set' c(4,5)]
    have "OpenKeyring D ic w1 = (Inr kr, w1)" using c kept by (simp add: OpenKeyring_def)
    moreover have "kdGet D (fst kr) (snd kr) NodeIdentityKeyName w1 = KeyFound (bytesOf (klType L k @ '':'') @ klRaw L k)"
      using kept(1) c by simp
    moreover have "CHR '':'' \<notin> set (klType L k)" using assms(2) by (simp add: keyLibOk_def)
    moreover obtain f where "identityOf L (klType L k) (klRaw L k) = Inr f" "PrivateKey f = Some k"
      by (rule identityOf_own [OF assms(2)])
    ultimately show thesis using that i load_typed by metis
  next
    case KeyFailed
    with assms(3) o show thesis by (simp add: getOrCreateNodeIdentity_def)
  qed
qed

lemma libp2p_of_key:
  "PrivateKey f = PrivateKey g \<Longrightarrow> CreateLibP2PKeyFromIdentity L E (IsFull f) = CreateLibP2PKeyFromIdentity L E (IsFull g)"
  by (simp add: CreateLibP2PKeyFromIdentity_def)

subsection \<open>Properties\<close>

text \<open>
  C31. The identity of a node survives a restart: once it has started, whether its identity was just
  made or found, the next start finds the same private key and derives the same libp2p key, makes no
  new one and changes nothing, and the signer loads that key too, not one of the fallback file.
\<close>

theorem identity_survives_restart:
  assumes "keyringOk D" "keyLibOk L" "getOrCreateNodeIdentity D L ic w = (Inr i, w1)"
  shows "\<exists>f f0 k. i = IsFull f0 \<and> PrivateKey f0 = Some k \<and> PrivateKey f = Some k
    \<and> getOrCreateNodeIdentity D L ic w1 = (Inr (IsFull f), w1)
    \<and> loadIdentityFromStore D L ic path w1 = (Inr f, w1)
    \<and> CreateLibP2PKeyFromIdentity L E (IsFull f) = CreateLibP2PKeyFromIdentity L E i"
proof -
  obtain kr bs f f0 k where r: "OpenKeyring D ic w1 = (Inr kr, w1)"
    "kdGet D (fst kr) (snd kr) NodeIdentityKeyName w1 = KeyFound bs" "LoadIdentityFromBytes L bs = Inr f"
    "PrivateKey f = Some k" "i = IsFull f0" "PrivateKey f0 = Some k"
    by (rule identity_in_ring [OF assms])
  have "ic \<noteq> None" using r(1) by (cases ic) (auto simp: OpenKeyring_def)
  then have "loadIdentityFromStore D L ic path w1 = (Inr f, w1)"
    using r by (auto simp: loadIdentityFromStore_def LoadIdentityFromKeyring_def)
  moreover have "getOrCreateNodeIdentity D L ic w1 = (Inr (IsFull f), w1)"
    using r by (simp add: getOrCreateNodeIdentity_def)
  ultimately show ?thesis using r libp2p_of_key [of f f0 L E] by auto
qed

definition demoDisk :: "(string \<rightharpoonup> byte list) keyDisk" where
  "demoDisk = \<lparr>kdMkdirAll = (\<lambda>_ w. (True, w)), kdOpen = (\<lambda>_ _ _. True),
     kdGet = (\<lambda>_ _ n w. case w n of None \<Rightarrow> KeyNotFound | Some b \<Rightarrow> KeyFound b),
     kdSet = (\<lambda>_ _ n b w. (True, w(n \<mapsto> b))), kdRead = (\<lambda>_ _. None), kdStat = (\<lambda>_ _. False), kdHome = ''/root''\<rparr>"

definition demoKeyLib :: "(byte list, byte list) keyLib" where
  "demoKeyLib = \<lparr>klRaw = (\<lambda>k. k), klType = (\<lambda>_. KeyTypeSecp256k1), klFromBytes = (\<lambda>t r. if t = KeyTypeSecp256k1 then Some r else None),
     klIdentity = (\<lambda>k. Some \<lparr>PrivateKey = Some k, PublicKey = Some k\<rparr>),
     klGenerate = (\<lambda>_. Some (IsFull \<lparr>PrivateKey = Some (replicate 32 58), PublicKey = Some (replicate 32 58)\<rparr>)),
     klSign = (\<lambda>k m. Some (k @ m)), klPubString = hexEncode, klPubFromString = (\<lambda>_ s. hexDecode s),
     klVerify = (\<lambda>p m s. Some (s = p @ m))\<rparr>"

definition demoEdLib :: "(byte list, byte list, byte list, byte list) edLib" where
  "demoEdLib = \<lparr>edGenerate = Some, edRaw = Some, edPublicRaw = (\<lambda>k. Some (take 32 k)), edFromSeed = (\<lambda>k. k), edSign = (@),
     edPubFromString = hexDecode, edUnderlying = Some, edVerify = (\<lambda>u m s. s = u @ m)\<rparr>"

lemma demo_libs:
  "keyringOk demoDisk" "keyLibOk demoKeyLib" "signLibOk demoKeyLib" "edLibOk demoEdLib"
  by (auto simp: keyringOk_def demoDisk_def keyLibOk_def signLibOk_def edLibOk_def demoKeyLib_def demoEdLib_def
      ed25519Seed_def split: if_splits)

definition demoHostCfg :: "string \<Rightarrow> hostConfig" where
  "demoHostCfg path = \<lparr>
     hcDefraDB = \<lparr>dbURL = ''localhost:9181'', dbKeyringSecret = ''secret'',
       dbP2P = \<lparr>p2pEnabled = True, p2pBootstrapPeers = [], p2pListenAddr = [], p2pMaxRetries = 5, p2pRetryBaseDelayMs = 1000,
         p2pReconnectIntervalMs = 60000, p2pEnableAutoReconnect = True, p2pPeerDiscoveryTimeoutMs = 0\<rparr>,
       dbStore = \<lparr>storePath = path, storeBlockCacheMB = 0, storeMemTableMB = 0, storeIndexCacheMB = 0, storeNumCompactors = 0,
         storeNumLevelZeroTables = 0, storeNumLevelZeroTablesStall = 0, storeValueLogFileSizeMB = 0\<rparr>\<rparr>,
     hcShinzo = \<lparr>MinimumAttestations = 1, HubBaseURL = [], StartHeight = 0, P2PEnabled = False, ViewInactivityTimeout = [],
       ViewCleanupInterval = [], ViewWorkerCount = 0, ViewQueueSize = 0, CacheQueueSize = 0, BatchWriterCount = 0, BatchSize = 0,
       BatchFlushInterval = 0, MaxConcurrentVerifications = 0, UseBlockSignatures = True, DocWorkerCount = 0, DocQueueSize = 0,
       EventFilter = demoFilter\<rparr>,
     hcSchema = \<lparr>IndexerSchemaEndpoint = ''/api/v1/schema'', HTTPClientTimeoutSecs = 30, AuthToken = []\<rparr>,
     hcLogger = \<lparr>logDevelopment = True\<rparr>,
     hcHost = \<lparr>LensRegistryPath = ''./.defra/lens'', HealthServerPort = 0, OpenBrowserOnStart = False,
       hostSnapshot = \<lparr>snapEnabled = False, IndexerURL = [], HistoricalRanges = []\<rparr>\<rparr>,
     hcPruner = \<lparr>cfgEnabled = False, MaxBlocks = 0, DocsPerBlock = 0, PruneThreshold = 0, IntervalSeconds = 0, PruneHistory = False\<rparr>\<rparr>"

definition demoKeyBytes :: "byte list" where
  "demoKeyBytes = bytesOf (KeyTypeSecp256k1 @ '':'') @ replicate 32 58"

lemma demo_first_start:
  "getOrCreateNodeIdentity demoDisk demoKeyLib (ToInternalConfig (Some (demoHostCfg ''/data''))) (\<lambda>_. None) =
     (Inr (IsFull \<lparr>PrivateKey = Some (replicate 32 58), PublicKey = Some (replicate 32 58)\<rparr>),
      [NodeIdentityKeyName \<mapsto> demoKeyBytes])"
  by (simp add: getOrCreateNodeIdentity_def OpenKeyring_def saveNodeIdentityToKeyring_def ToInternalConfig_def
      demoHostCfg_def demoDisk_def demoKeyLib_def demoKeyBytes_def Let_def)

theorem identity_survives_restart_witness:
  "\<exists>f. PrivateKey f = Some (replicate 32 58)
     \<and> getOrCreateNodeIdentity demoDisk demoKeyLib (ToInternalConfig (Some (demoHostCfg ''/data''))) [NodeIdentityKeyName \<mapsto> demoKeyBytes]
       = (Inr (IsFull f), [NodeIdentityKeyName \<mapsto> demoKeyBytes])
     \<and> CreateLibP2PKeyFromIdentity demoKeyLib demoEdLib (IsFull f) = Inr (replicate 32 58)"
proof -
  obtain f f0 k where "IsFull \<lparr>PrivateKey = Some (replicate 32 58), PublicKey = Some (replicate 32 58 :: byte list)\<rparr> = IsFull f0"
    "PrivateKey f0 = Some k" "PrivateKey f = Some k"
    "getOrCreateNodeIdentity demoDisk demoKeyLib (ToInternalConfig (Some (demoHostCfg ''/data''))) [NodeIdentityKeyName \<mapsto> demoKeyBytes]
       = (Inr (IsFull f), [NodeIdentityKeyName \<mapsto> demoKeyBytes])"
    using identity_survives_restart [OF demo_libs(1,2) demo_first_start, of _ demoEdLib] by blast
  moreover have "CreateLibP2PKeyFromIdentity demoKeyLib demoEdLib (IsFull f) = Inr (replicate 32 58)" if "PrivateKey f = Some (replicate 32 58)" for f
    using that by (simp add: CreateLibP2PKeyFromIdentity_def demoKeyLib_def demoEdLib_def)
  ultimately show ?thesis by auto
qed

lemma loaded_identity:
  assumes "keyLibOk L" "loadIdentityFromStore D L ic path w = (Inr f, w1)"
  obtains k where "PrivateKey f = Some k" "klIdentity L k = Some f"
proof -
  have fromFile: "\<exists>k. PrivateKey f = Some k \<and> klIdentity L k = Some f" if "loadIdentityFromFile D L path v = Inr f" for v
    using that assms(1) by (auto simp: loadIdentityFromFile_def keyLibOk_def split: option.splits)
  have ring: "\<exists>k. PrivateKey f = Some k \<and> klIdentity L k = Some f" if "LoadIdentityFromKeyring D L kr v = Inr f" for kr v
    using that by (auto simp: LoadIdentityFromKeyring_def split: keyGet.splits elim: LoadIdentityFromBytes_key [OF assms(1)])
  have "\<exists>k. PrivateKey f = Some k \<and> klIdentity L k = Some f"
    using assms(2) fromFile ring by (auto simp: loadIdentityFromStore_def split: if_splits sum.splits prod.splits)
  then show thesis using that by blast
qed

lemma withIdentity_again:
  assumes "keyringOk D" "loadIdentityFromStore D L (Some c) (storePath (icStore c)) w = (Inr f, w1)" "storePath (icStore c) \<noteq> []"
  shows "withIdentity D L (Some c) use w1 = (use f, w1)"
  using loadIdentityFromStore_again [OF assms(1,2)] assms(3) by (simp add: withIdentity_def getStorePath_def)

text \<open>
  Whenever signing a message succeeds, the two signatures verify against the two keys; all four are
  printed in hex, and come from the one identity the signer loads.
\<close>

lemma signed_messages_verify:
  assumes "keyringOk D" "keyLibOk L" "signLibOk L" "edLibOk E" "storePath (dbStore (hcDefraDB hc)) \<noteq> []"
    and "SignMessages D L E (Some hc) message w = (Inr (pk, pid), w')"
  shows "VerifyDefraSignature L (regPublicKey pk) message (SignedPKMsg pk) = None
    \<and> VerifyP2PSignature E (regPeerID pid) message (SignedPeerMsg pid) = None
    \<and> {regPublicKey pk, SignedPKMsg pk, regPeerID pid, SignedPeerMsg pid} \<subseteq> range hexEncode"
proof -
  obtain c where c: "ToInternalConfig (Some hc) = Some c" "storePath (icStore c) = storePath (dbStore (hcDefraDB hc))"
    by (simp add: ToInternalConfig_def Let_def)
  then have path: "storePath (icStore c) \<noteq> []" using assms(5) by simp
  obtain sig w1 where s1: "SignWithDefraKeys D L message (Some c) w = (Inr sig, w1)"
    using assms(6) c by (auto simp: SignMessages_def Let_def split: sum.splits prod.splits)
  obtain f where f: "loadIdentityFromStore D L (Some c) (storePath (icStore c)) w = (Inr f, w1)"
    and u1: "(case PrivateKey f of None \<Rightarrow> Inl ErrNoPrivateKey
       | Some k \<Rightarrow> (case klSign L k (bytesOf message) of None \<Rightarrow> Inl ErrSign | Some sig \<Rightarrow> Inr (hexEncode sig))) = Inr sig"
    using s1 unfolding SignWithDefraKeys_def by (rule withIdentity_InrD [OF _ refl path])
  note again = withIdentity_again [OF assms(1) f path]
  obtain k where k: "PrivateKey f = Some k" "klIdentity L k = Some f" by (rule loaded_identity [OF assms(2) f])
  obtain sg where sg: "klSign L k (bytesOf message) = Some sg" "sig = hexEncode sg"
    using u1 k by (auto split: option.splits)
  obtain lp raw seed p q where e: "CreateLibP2PKeyFromIdentity L E (IsFull f) = Inr lp" "edRaw E lp = Some raw"
    "ed25519Seed raw = Some seed" "PublicKey f = Some p" "edPublicRaw E lp = Some q" "w' = w1"
    "pk = \<lparr>regPublicKey = klPubString L p, SignedPKMsg = sig\<rparr>"
    "pid = \<lparr>regPeerID = hexEncode q, SignedPeerMsg = hexEncode (edSign E (edFromSeed E seed) (bytesOf message))\<rparr>"
    using assms(6) c s1 by (auto simp: SignMessages_def Let_def SignWithP2PKeys_def GetDefraPublicKey_def GetP2PPublicKey_def again
        split: sum.splits option.splits)
  have "VerifyDefraSignature L (regPublicKey pk) message (SignedPKMsg pk) = None"
    using assms(3) k sg e(4,7) unfolding signLibOk_def VerifyDefraSignature_def by fastforce
  moreover have "VerifyP2PSignature E (regPeerID pid) message (SignedPeerMsg pid) = None"
    using assms(4) e unfolding edLibOk_def VerifyP2PSignature_def by fastforce
  moreover have "regPublicKey pk \<in> range hexEncode"
    using assms(3) k sg e(4,7) unfolding signLibOk_def by fastforce
  ultimately show ?thesis using e(7,8) sg(2) by simp
qed

abbreviation demoRing :: "string \<rightharpoonup> byte list" where
  "demoRing \<equiv> [NodeIdentityKeyName \<mapsto> demoKeyBytes]"

lemma demo_loaded:
  "loadIdentityFromStore demoDisk demoKeyLib (ToInternalConfig (Some (demoHostCfg ''/data''))) path demoRing
     = (Inr \<lparr>PrivateKey = Some (replicate 32 58), PublicKey = Some (replicate 32 58)\<rparr>, demoRing)"
proof -
  have "LoadIdentityFromBytes demoKeyLib demoKeyBytes = identityOf demoKeyLib KeyTypeSecp256k1 (replicate 32 58)"
    unfolding demoKeyBytes_def by (rule load_typed) simp
  also have "\<dots> = Inr \<lparr>PrivateKey = Some (replicate 32 58), PublicKey = Some (replicate 32 58)\<rparr>"
    by (simp add: identityOf_def demoKeyLib_def)
  finally show ?thesis
    by (simp add: loadIdentityFromStore_def LoadIdentityFromKeyring_def OpenKeyring_def ToInternalConfig_def
        demoHostCfg_def demoDisk_def Let_def)
qed

lemma demo_signed:
  "\<exists>pk pid w'. SignMessages demoDisk demoKeyLib demoEdLib (Some (demoHostCfg ''/data'')) message demoRing = (Inr (pk, pid), w')"
proof -
  obtain c where c: "ToInternalConfig (Some (demoHostCfg ''/data'')) = Some c" "storePath (icStore c) = ''/data''"
    by (simp add: ToInternalConfig_def demoHostCfg_def Let_def)
  have "withIdentity demoDisk demoKeyLib (Some c) use demoRing
      = (use \<lparr>PrivateKey = Some (replicate 32 58), PublicKey = Some (replicate 32 58)\<rparr>, demoRing)"
    for use :: "(byte list, byte list) fullIdentity \<Rightarrow> key_error + string"
    using demo_loaded [unfolded c] c by (simp add: withIdentity_def getStorePath_def)
  then show ?thesis
    by (simp add: SignMessages_def c SignWithDefraKeys_def SignWithP2PKeys_def GetDefraPublicKey_def GetP2PPublicKey_def
        CreateLibP2PKeyFromIdentity_def demoKeyLib_def demoEdLib_def ed25519Seed_def)
qed

text \<open>
  A key written before entries had a type is read as a whole only if none of its bytes is a colon:
  the bytes before a colon are taken for the type, so such a key is refused, or read with the rest of
  its bytes as the key.
\<close>

lemma untyped_key_with_colon:
  assumes "CHR '':'' \<notin> set t"
  shows "LoadIdentityFromBytes L (bytesOf t @ 58 # raw) = identityOf L t raw"
proof -
  have "bytesOf '':'' = [58 :: byte]" by (simp add: bytesOf_def)
  then show ?thesis using load_typed [OF assms, of L raw] by simp
qed

end
