(* ===== verification/Defra_Node.thy ===== *)
theory Defra_Node
  imports Node_Identity "HOL-Library.Sublist"
begin

text \<open>
  The embedded database node: \<open>StartDefraInstance\<close>, the \<open>Client\<close> and \<open>Subscribe\<close> of
  \<open>pkg/defradb/defra.go\<close>, \<open>pkg/defradb/lan_ip.go\<close>, \<open>pkg/defradb/schema.go\<close> and the logger set-up of
  \<open>pkg/logger/zap.go\<close>. The node library answers each call as an argument says (\<open>nodeEnv\<close>); the calls
  that are made of it are recorded in order.
\<close>

subsection \<open>The logger\<close>

datatype logLevel = DebugLevel | InfoLevel | ErrorLevel

datatype logCore = ConsoleCore logLevel | FileCore string logLevel

record logFS =
  lfMkdirAll :: "string \<Rightarrow> bool"
  lfOpenFile :: "string \<Rightarrow> bool"

definition loggerInit :: "logFS \<Rightarrow> bool \<Rightarrow> string \<Rightarrow> logCore list" where
  "loggerInit F development logsDir =
     (let zapLevel = (if development then DebugLevel else InfoLevel);
          logFile = filepathClean (filepathJoin logsDir ''logfile.log'');
          errorFile = filepathClean (filepathJoin logsDir ''errorfile.log'') in
      if lfMkdirAll F logsDir
      then (if lfOpenFile F logFile
            then [ConsoleCore zapLevel, FileCore logFile zapLevel]
              @ (if lfOpenFile F errorFile then [FileCore errorFile ErrorLevel] else [])
            else [ConsoleCore zapLevel])
      else [ConsoleCore zapLevel])"

subsection \<open>Addresses\<close>

text \<open>\<open>lan\<close> is the answer of \<open>getLANIP\<close>: the local address of the socket, or none.\<close>

definition replaceLoopback :: "string \<Rightarrow> string \<Rightarrow> string" where
  "replaceLoopback ip url =
     (let u1 = replaceFirst url ''http://localhost'' ip;
          u2 = replaceFirst u1 ''http://127.0.0.1'' ip;
          u3 = replaceFirst u2 ''localhost'' ip in
      replaceFirst u3 ''127.0.0.1'' ip)"

definition ResolveListenAddress :: "string option \<Rightarrow> string \<Rightarrow> string \<times> bool" where
  "ResolveListenAddress lan rawURL =
     (case lan of None \<Rightarrow> (rawURL, False) | Some ip \<Rightarrow> (replaceLoopback ip rawURL, True))"

definition replaceListen :: "string \<Rightarrow> string \<Rightarrow> string" where
  "replaceListen ip addr =
     (if addr = [] then addr
      else replaceFirst (replaceFirst addr ''127.0.0.1'' ip) ''localhost'' ip)"

subsection \<open>Node options\<close>

record ('priv, 'pub) nodeOptions =
  noDisableAPI :: bool
  noDisableP2P :: bool
  noEnablePubSub :: bool
  noStorePath :: string
  noAddress :: string
  noIdentity :: "('priv, 'pub) Identity"
  noBadgerFileSize :: int
  noListenAddresses :: "string list"
  noPrivateKey :: "byte list option"
  noLensRuntime :: string

abbreviation defaultListenAddress :: string where "defaultListenAddress \<equiv> ''/ip4/127.0.0.1/tcp/9171''"

definition valueLogSize :: "int \<Rightarrow> int" where
  "valueLogSize mb = wrap64 ((if mb \<le> 0 then 64 else mb) * 2 ^ 20)"

definition withListenDefault :: "internalConfig \<Rightarrow> internalConfig" where
  "withListenDefault c =
     c\<lparr>icP2P := (icP2P c)\<lparr>inBootstrapPeers := inBootstrapPeers (icP2P c) @ [],
        inListenAddr := (if inListenAddr (icP2P c) = [] then defaultListenAddress else inListenAddr (icP2P c))\<rparr>\<rparr>"

datatype start_error =
    StartKey key_error | ErrLANIP | ErrNodeNew | ErrNodeStart | ErrApplySchema string | ErrAddP2PCollections
  | ErrNilConfig | ErrClientStarted | ErrClientMustBeStarted | ErrEmptySchema | ErrNodeClose

definition nodeOptionsFor ::
  "internalConfig \<Rightarrow> string \<Rightarrow> ('priv, 'pub) Identity \<Rightarrow> byte list \<Rightarrow> ('priv, 'pub) nodeOptions" where
  "nodeOptionsFor c ip nodeIdentity libp2pKeyBytes =
     (let listenAddress = replaceListen ip (inListenAddr (icP2P c)) in
      \<lparr>noDisableAPI = False, noDisableP2P = False, noEnablePubSub = True, noStorePath = storePath (icStore c),
       noAddress = replaceLoopback ip (icURL c), noIdentity = nodeIdentity,
       noBadgerFileSize = valueLogSize (storeValueLogFileSizeMB (icStore c)),
       noListenAddresses = (if listenAddress = [] then [] else [listenAddress]),
       noPrivateKey = (if libp2pKeyBytes = [] then None else Some libp2pKeyBytes), noLensRuntime = []\<rparr>)"

text \<open>
  The common part of \<open>StartDefraInstance\<close> and \<open>Client.Start\<close>: the identity, the libp2p key of it, the
  address of the interface and the options.
\<close>

definition prepareNode ::
  "'w keyDisk \<Rightarrow> ('priv, 'pub) keyLib \<Rightarrow> ('lp, 'ek, 'epk, 'upk) edLib \<Rightarrow> string option \<Rightarrow> internalConfig \<Rightarrow> 'w \<Rightarrow>
   (start_error + ('priv, 'pub) nodeOptions) \<times> 'w" where
  "prepareNode D L E lan c w =
     (case getOrCreateNodeIdentity D L (Some c) w of
        (Inl e, w1) \<Rightarrow> (Inl (StartKey e), w1)
      | (Inr nodeIdentity, w1) \<Rightarrow>
          (case CreateLibP2PKeyFromIdentity L E nodeIdentity of
             Inl e \<Rightarrow> (Inl (StartKey e), w1)
           | Inr lp \<Rightarrow>
               (case edRaw E lp of
                  None \<Rightarrow> (Inl (StartKey ErrLibP2PRaw), w1)
                | Some keyBytes \<Rightarrow>
                    (case lan of
                       None \<Rightarrow> (Inl ErrLANIP, w1)
                     | Some ip \<Rightarrow> (Inr (nodeOptionsFor c ip nodeIdentity keyBytes), w1)))))"

subsection \<open>Starting the node\<close>

datatype SchemaApplier = MockSchemaApplierThatSucceeds | SchemaApplierFromProvidedSchema string

record ('priv, 'pub) nodeEnv =
  neNew :: "('priv, 'pub) nodeOptions \<Rightarrow> bool"
  neStart :: "('priv, 'pub) nodeOptions \<Rightarrow> bool"
  neAddCollection :: "string \<Rightarrow> string option"
  neAddP2PCollections :: "string list \<Rightarrow> bool"

fun ApplySchema :: "('priv, 'pub) nodeEnv \<Rightarrow> SchemaApplier \<Rightarrow> string option" where
  "ApplySchema N MockSchemaApplierThatSucceeds = None"
| "ApplySchema N (SchemaApplierFromProvidedSchema sdl) = neAddCollection N sdl"

datatype ('priv, 'pub) nodeCall =
    CallLogger "logCore list" | CallNew "('priv, 'pub) nodeOptions" | CallSetFilter | CallStart | CallSchema SchemaApplier
  | CallAddP2PCollections "string list" | CallClose

text \<open>The network handler of a new node; an enabled network starts, with the peers in any order.\<close>

definition startHandler :: "int \<Rightarrow> internalConfig \<Rightarrow> NetworkHandler" where
  "startHandler now c =
     (let nh = NewNetworkHandler (inBootstrapPeers (icP2P c)) (inRetry (icP2P c)) in
      if inEnabled (icP2P c) then StartNetwork now (map fst (peers nh)) nh else nh)"

abbreviation alreadyExists :: string where "alreadyExists \<equiv> ''collection already exists''"

text \<open>After the node has started: the schema, the collections to replicate and the network.\<close>

definition finishStart ::
  "('priv, 'pub) nodeEnv \<Rightarrow> int \<Rightarrow> internalConfig \<Rightarrow> SchemaApplier \<Rightarrow> string list \<Rightarrow>
   (start_error + NetworkHandler) \<times> ('priv, 'pub) nodeCall list" where
  "finishStart N now c applier collectionsOfInterest =
     (let schemaErr = ApplySchema N applier in
      if (case schemaErr of None \<Rightarrow> False | Some e \<Rightarrow> \<not> containsStr e alreadyExists)
      then (Inl (ErrApplySchema (the schemaErr)), [CallSchema applier, CallClose])
      else if \<not> neAddP2PCollections N collectionsOfInterest
      then (Inl ErrAddP2PCollections, [CallSchema applier, CallAddP2PCollections collectionsOfInterest])
      else (Inr (startHandler now c), [CallSchema applier, CallAddP2PCollections collectionsOfInterest]))"

definition StartDefraInstance ::
  "'w keyDisk \<Rightarrow> ('priv, 'pub) keyLib \<Rightarrow> ('lp, 'ek, 'epk, 'upk) edLib \<Rightarrow> logFS \<Rightarrow> string option \<Rightarrow> ('priv, 'pub) nodeEnv \<Rightarrow> int \<Rightarrow>
   internalConfig option \<Rightarrow> SchemaApplier \<Rightarrow> (('priv, 'pub) nodeOptions \<Rightarrow> ('priv, 'pub) nodeOptions) list \<Rightarrow> bool \<Rightarrow> string list \<Rightarrow> 'w \<Rightarrow>
   (start_error + NetworkHandler) \<times> ('priv, 'pub) nodeCall list \<times> 'w" where
  "StartDefraInstance D L E F lan N now ic applier nodeOpts hasFilter collectionsOfInterest w =
     (case ic of
        None \<Rightarrow> (Inl ErrNilConfig, [], w)
      | Some c0 \<Rightarrow>
          (let c = withListenDefault c0;
               log = CallLogger (loggerInit F (icDevelopment c) (icLogsDir c)) in
           case prepareNode D L E lan c w of
             (Inl e, w1) \<Rightarrow> (Inl e, [log], w1)
           | (Inr nb, w1) \<Rightarrow>
               (let opts = fold (\<lambda>f o'. f o') nodeOpts nb;
                    filterCalls = (if hasFilter then [CallSetFilter] else []) in
                if \<not> neNew N opts then (Inl ErrNodeNew, [log, CallNew opts], w1)
                else if \<not> neStart N opts then (Inl ErrNodeStart, [log, CallNew opts] @ filterCalls @ [CallStart], w1)
                else (case finishStart N now c applier collectionsOfInterest of
                    (r, calls) \<Rightarrow> (r, [log, CallNew opts] @ filterCalls @ [CallStart] @ calls, w1)))))"

subsection \<open>The client\<close>

datatype nodeState = NodeCreated | NodeStarted

record Client =
  clConfig :: internalConfig
  clNode :: "nodeState option"
  clNetwork :: "NetworkHandler option"

definition NewClientDefra :: "internalConfig option \<Rightarrow> start_error + Client" where
  "NewClientDefra ic =
     (case ic of None \<Rightarrow> Inl ErrNilConfig | Some c \<Rightarrow> Inr \<lparr>clConfig = c, clNode = None, clNetwork = None\<rparr>)"

definition ClientStart ::
  "'w keyDisk \<Rightarrow> ('priv, 'pub) keyLib \<Rightarrow> ('lp, 'ek, 'epk, 'upk) edLib \<Rightarrow> string option \<Rightarrow> ('priv, 'pub) nodeEnv \<Rightarrow> int \<Rightarrow>
   Client \<Rightarrow> 'w \<Rightarrow> start_error option \<times> Client \<times> 'w" where
  "ClientStart D L E lan N now cl w =
     (if clNode cl \<noteq> None then (Some ErrClientStarted, cl, w)
      else (let c = withListenDefault (clConfig cl); cl1 = cl\<lparr>clConfig := c\<rparr> in
        case prepareNode D L E lan c w of
          (Inl e, w1) \<Rightarrow> (Some e, cl1, w1)
        | (Inr nb, w1) \<Rightarrow>
            if \<not> neNew N nb then (Some ErrNodeNew, cl1, w1)
            else if \<not> neStart N nb then (Some ErrNodeStart, cl1\<lparr>clNode := Some NodeCreated\<rparr>, w1)
            else (None, cl1\<lparr>clNode := Some NodeStarted, clNetwork := Some (startHandler now c)\<rparr>, w1)))"

definition ClientStop :: "bool \<Rightarrow> Client \<Rightarrow> start_error option \<times> Client" where
  "ClientStop closeOk cl =
     (if clNode cl = None then (None, cl)
      else (if closeOk then None else Some ErrNodeClose, cl\<lparr>clNode := None, clNetwork := None\<rparr>))"

definition ClientApplySchema :: "('priv, 'pub) nodeEnv \<Rightarrow> Client \<Rightarrow> string \<Rightarrow> start_error option" where
  "ClientApplySchema N cl sdl =
     (if clNode cl = None then Some ErrClientMustBeStarted
      else if sdl = [] then Some ErrEmptySchema
      else (case neAddCollection N sdl of
          None \<Rightarrow> None
        | Some e \<Rightarrow> if containsStr e alreadyExists then None else Some (ErrApplySchema e)))"

subsection \<open>Subscriptions\<close>

text \<open>
  \<open>Subscribe\<close> forwards the parsed results into a channel of 100000. The steps of its goroutine and
  of the receiver: a result handled with room or dropped without, a result received when the end of
  the context is seen instead of sending it, the end of the loop, and the receiver taking one.
\<close>

datatype 'd gqlSubResult = GqlErrors | GqlData 'd

datatype 'd subStep = Deliver "'d gqlSubResult" | DeliverDone "'d gqlSubResult" | Finish | Take

record 'a subscription =
  sbBuffer :: "'a list"
  sbTaken :: "'a list"
  sbDropped :: nat
  sbClosed :: bool

abbreviation subCapacity :: nat where "subCapacity \<equiv> 100000"

datatype subscribe_error = SubscriptionErrors | ErrNilSubscriptionChannel

definition Subscribe :: "bool \<Rightarrow> bool \<Rightarrow> subscribe_error + 'a subscription" where
  "Subscribe hasChannel hasErrors =
     (if \<not> hasChannel then Inl (if hasErrors then SubscriptionErrors else ErrNilSubscriptionChannel)
      else Inr \<lparr>sbBuffer = [], sbTaken = [], sbDropped = 0, sbClosed = False\<rparr>)"

fun parsedResult :: "('d \<Rightarrow> 'a option) \<Rightarrow> 'd gqlSubResult \<Rightarrow> 'a option" where
  "parsedResult parse GqlErrors = None"
| "parsedResult parse (GqlData d) = parse d"

fun subscribeStep :: "nat \<Rightarrow> ('d \<Rightarrow> 'a option) \<Rightarrow> 'd subStep \<Rightarrow> 'a subscription \<Rightarrow> 'a subscription" where
  "subscribeStep cap parse (Deliver r) s =
     (case parsedResult parse r of
        None \<Rightarrow> s
      | Some x \<Rightarrow>
          if sbClosed s then s
          else if length (sbBuffer s) < cap then s\<lparr>sbBuffer := sbBuffer s @ [x]\<rparr>
          else s\<lparr>sbDropped := Suc (sbDropped s)\<rparr>)"
| "subscribeStep cap parse (DeliverDone r) s =
     (case parsedResult parse r of None \<Rightarrow> s | Some x \<Rightarrow> s\<lparr>sbClosed := True\<rparr>)"
| "subscribeStep cap parse Finish s = s\<lparr>sbClosed := True\<rparr>"
| "subscribeStep cap parse Take s =
     (case sbBuffer s of [] \<Rightarrow> s | x # xs \<Rightarrow> s\<lparr>sbBuffer := xs, sbTaken := sbTaken s @ [x]\<rparr>)"

text \<open>The results the goroutine handles: those that parse, until its loop ends.\<close>

fun offered :: "('d \<Rightarrow> 'a option) \<Rightarrow> 'd subStep list \<Rightarrow> 'a list" where
  "offered parse [] = []"
| "offered parse (Deliver r # ss) = (case parsedResult parse r of None \<Rightarrow> offered parse ss | Some x \<Rightarrow> x # offered parse ss)"
| "offered parse (DeliverDone r # ss) = (case parsedResult parse r of None \<Rightarrow> offered parse ss | Some x \<Rightarrow> [])"
| "offered parse (Finish # ss) = []"
| "offered parse (Take # ss) = offered parse ss"

definition runSubscription :: "nat \<Rightarrow> ('d \<Rightarrow> 'a option) \<Rightarrow> 'd subStep list \<Rightarrow> 'a subscription \<Rightarrow> 'a subscription" where
  "runSubscription cap parse ss s = fold (subscribeStep cap parse) ss s"

lemma run_closed:
  assumes "sbClosed s"
  shows "sbTaken (runSubscription cap parse ss s) @ sbBuffer (runSubscription cap parse ss s) = sbTaken s @ sbBuffer s
    \<and> sbDropped (runSubscription cap parse ss s) = sbDropped s
    \<and> length (sbBuffer (runSubscription cap parse ss s)) \<le> length (sbBuffer s)"
  using assms
proof (induction ss arbitrary: s)
  case (Cons a ss)
  define t where "t = subscribeStep cap parse a s"
  have t: "sbClosed t" "sbTaken t @ sbBuffer t = sbTaken s @ sbBuffer s" "sbDropped t = sbDropped s"
    "length (sbBuffer t) \<le> length (sbBuffer s)"
    using Cons.prems unfolding t_def by (cases a; auto split: option.splits list.splits)+
  then show ?case using Cons.IH [OF t(1)] by (simp add: runSubscription_def t_def [symmetric])
qed (simp add: runSubscription_def)

definition forwarded :: "nat \<Rightarrow> 'a list \<Rightarrow> 'a subscription \<Rightarrow> 'a subscription \<Rightarrow> bool" where
  "forwarded cap off s s' \<longleftrightarrow>
     (\<exists>zs. sbTaken s' @ sbBuffer s' = sbTaken s @ sbBuffer s @ zs \<and> subseq zs off
        \<and> length zs + sbDropped s' = length off + sbDropped s)
     \<and> length (sbBuffer s') \<le> max cap (length (sbBuffer s))
     \<and> (length (sbBuffer s) + length off \<le> cap \<longrightarrow> sbDropped s' = sbDropped s)"

lemma forwarded_closed: "sbClosed s \<Longrightarrow> forwarded cap [] s (runSubscription cap parse ss s)"
  using run_closed [of s cap parse ss] by (auto simp: forwarded_def)

lemma forwarded_deliver:
  assumes open': "\<not> sbClosed s" and x: "parsedResult parse r = Some x"
    and f: "forwarded cap off (subscribeStep cap parse (Deliver r) s) s'"
  shows "forwarded cap (x # off) s s'"
proof (cases "length (sbBuffer s) < cap")
  case True
  then have t: "subscribeStep cap parse (Deliver r) s = s\<lparr>sbBuffer := sbBuffer s @ [x]\<rparr>" using open' x by simp
  from f obtain zs where "sbTaken s' @ sbBuffer s' = sbTaken s @ sbBuffer s @ x # zs" "subseq zs off"
      "length zs + sbDropped s' = length off + sbDropped s"
    unfolding forwarded_def t by auto
  then show ?thesis using f True unfolding forwarded_def t by (auto intro: exI [of _ "x # zs"])
next
  case False
  then have t: "subscribeStep cap parse (Deliver r) s = s\<lparr>sbDropped := Suc (sbDropped s)\<rparr>" using open' x by simp
  show ?thesis using f False unfolding forwarded_def t by (auto intro: list_emb_Cons)
qed

lemma forwarded_run: "\<not> sbClosed s \<Longrightarrow> forwarded cap (offered parse ss) s (runSubscription cap parse ss s)"
proof (induction ss arbitrary: s)
  case (Cons a ss)
  show ?case
  proof (cases a)
    case (Deliver r)
    show ?thesis
    proof (cases "parsedResult parse r")
      case None
      then show ?thesis using Cons Deliver by (simp add: runSubscription_def)
    next
      case (Some x)
      have "\<not> sbClosed (subscribeStep cap parse (Deliver r) s)" using Cons.prems Some by simp
      from forwarded_deliver [OF Cons.prems Some Cons.IH [OF this]] show ?thesis
        using Deliver Some by (simp add: runSubscription_def)
    qed
  next
    case (DeliverDone r)
    show ?thesis
    proof (cases "parsedResult parse r")
      case None
      then show ?thesis using Cons DeliverDone by (simp add: runSubscription_def)
    next
      case (Some x)
      then show ?thesis using forwarded_closed [of "s\<lparr>sbClosed := True\<rparr>" cap parse ss] DeliverDone
        by (simp add: runSubscription_def forwarded_def)
    qed
  next
    case Finish
    then show ?thesis using forwarded_closed [of "s\<lparr>sbClosed := True\<rparr>" cap parse ss]
      by (simp add: runSubscription_def forwarded_def)
  next
    case Take
    show ?thesis
    proof (cases "sbBuffer s")
      case Nil
      then show ?thesis using Cons Take by (simp add: runSubscription_def)
    next
      case (Cons y ys)
      let ?t = "s\<lparr>sbBuffer := ys, sbTaken := sbTaken s @ [y]\<rparr>"
      have "forwarded cap (offered parse ss) ?t (runSubscription cap parse ss ?t)" using Cons.IH Cons.prems by simp
      then show ?thesis using Take Cons by (auto simp: runSubscription_def forwarded_def)
    qed
  qed
qed (simp add: runSubscription_def forwarded_def)

subsection \<open>Properties\<close>

text \<open>
  A subscription never reorders, repeats or invents a result: what the receiver has taken and what
  waits for it is a subsequence of the results that parsed before the loop ended, every other one of
  those was counted as dropped, at most 100000 wait, and nothing is dropped as long as no more than
  that were sent.
\<close>

theorem subscription_delivery:
  assumes "Subscribe True hasErrors = Inr s0" "s = runSubscription subCapacity parse steps s0"
  shows "subseq (sbTaken s @ sbBuffer s) (offered parse steps)
    \<and> length (sbTaken s @ sbBuffer s) + sbDropped s = length (offered parse steps)
    \<and> length (sbBuffer s) \<le> subCapacity
    \<and> (length (offered parse steps) \<le> subCapacity \<longrightarrow> sbTaken s @ sbBuffer s = offered parse steps)"
proof -
  have s0: "s0 = \<lparr>sbBuffer = [], sbTaken = [], sbDropped = 0, sbClosed = False\<rparr>" using assms(1) by (auto simp: Subscribe_def)
  then have "forwarded subCapacity (offered parse steps) s0 s" unfolding assms(2) by (intro forwarded_run) simp
  then show ?thesis unfolding forwarded_def s0 by (auto simp: subseq_same_length)
qed

theorem subscription_delivery_witness:
  "sbTaken (runSubscription subCapacity Some [Deliver (GqlData (7::nat)), Deliver GqlErrors, Take, Deliver (GqlData 8), Finish, Deliver (GqlData 9)]
      \<lparr>sbBuffer = [], sbTaken = [], sbDropped = 0, sbClosed = False\<rparr>) = [7]
   \<and> sbBuffer (runSubscription subCapacity Some [Deliver (GqlData (7::nat)), Deliver GqlErrors, Take, Deliver (GqlData 8), Finish, Deliver (GqlData 9)]
      \<lparr>sbBuffer = [], sbTaken = [], sbDropped = 0, sbClosed = False\<rparr>) = [8]"
proof -
  let ?steps = "[Deliver (GqlData (7::nat)), Deliver GqlErrors, Take, Deliver (GqlData 8), Finish, Deliver (GqlData 9)]"
  let ?s = "runSubscription subCapacity Some ?steps \<lparr>sbBuffer = [], sbTaken = [], sbDropped = 0, sbClosed = False\<rparr>"
  have "Subscribe True False = Inr \<lparr>sbBuffer = [] :: nat list, sbTaken = [], sbDropped = 0, sbClosed = False\<rparr>" by (simp add: Subscribe_def)
  from subscription_delivery [OF this refl, of Some ?steps] have "sbTaken ?s @ sbBuffer ?s = [7, 8]" by simp
  moreover have "sbBuffer ?s = [8]" by (simp add: runSubscription_def)
  ultimately show ?thesis by simp
qed

text \<open>The life of a client.\<close>

inductive clientStep ::
  "'w keyDisk \<Rightarrow> ('priv, 'pub) keyLib \<Rightarrow> ('lp, 'ek, 'epk, 'upk) edLib \<Rightarrow> Client \<times> 'w \<Rightarrow> Client \<times> 'w \<Rightarrow> bool"
  for D :: "'w keyDisk" and L :: "('priv, 'pub) keyLib" and E :: "('lp, 'ek, 'epk, 'upk) edLib" where
  start: "clientStep D L E (cl, w) (snd (ClientStart D L E lan N now cl w))"
| stop: "clientStep D L E (cl, w) (snd (ClientStop closeOk cl), w)"

inductive_simps clientStep_from: "clientStep D L E (cl, w) (cl', w')"

lemma clientStep_inv:
  assumes "clientStep D L E (cl, w) (cl', w')" "clNetwork cl \<noteq> None \<longleftrightarrow> clNode cl = Some NodeStarted"
  shows "clNetwork cl' \<noteq> None \<longleftrightarrow> clNode cl' = Some NodeStarted"
  using assms by (auto simp: clientStep_from ClientStart_def ClientStop_def Let_def split: if_splits sum.splits prod.splits)

text \<open>
  Over any sequence of starts and stops a client has a network handler exactly while its node runs;
  a start is refused as a second start exactly when a node is there, and then changes nothing; and
  after a stop no node is left, so that the client can be started again.
\<close>

theorem client_lifecycle:
  assumes "NewClientDefra (Some c) = Inr cl0" "(clientStep D L E)\<^sup>*\<^sup>* (cl0, w0) (cl, w)"
  shows "(clNetwork cl \<noteq> None \<longleftrightarrow> clNode cl = Some NodeStarted)
    \<and> (fst (ClientStart D L E lan N now cl w) = Some ErrClientStarted \<longleftrightarrow> clNode cl \<noteq> None)
    \<and> (clNode cl \<noteq> None \<longrightarrow> snd (ClientStart D L E lan N now cl w) = (cl, w))
    \<and> clNode (snd (ClientStop closeOk cl)) = None"
proof -
  have "clNetwork cl \<noteq> None \<longleftrightarrow> clNode cl = Some NodeStarted"
    using assms(2)
  proof (induction rule: rtranclp_induct2)
    case refl
    show ?case using assms(1) by (auto simp: NewClientDefra_def)
  qed (rule clientStep_inv)
  then show ?thesis
    by (auto simp: ClientStart_def ClientStop_def Let_def prepareNode_def split: if_splits sum.splits prod.splits option.splits)
qed

definition demoNodeEnv :: "bool \<Rightarrow> (byte list, byte list) nodeEnv" where
  "demoNodeEnv started = \<lparr>neNew = (\<lambda>_. True), neStart = (\<lambda>_. started), neAddCollection = (\<lambda>_. None), neAddP2PCollections = (\<lambda>_. True)\<rparr>"

definition demoInternal :: internalConfig where
  "demoInternal = the (ToInternalConfig (Some (demoHostCfg ''/data'')))"

abbreviation demoClient :: Client where
  "demoClient \<equiv> \<lparr>clConfig = demoInternal, clNode = None, clNetwork = None\<rparr>"

lemma demo_prepared:
  "prepareNode demoDisk demoKeyLib demoEdLib (Some ''10.0.0.5'') (withListenDefault demoInternal) (\<lambda>_. None)
     = (Inr (nodeOptionsFor (withListenDefault demoInternal) ''10.0.0.5''
          (IsFull \<lparr>PrivateKey = Some (replicate 32 58), PublicKey = Some (replicate 32 58)\<rparr>) (replicate 32 58)), demoRing)"
  by (simp add: prepareNode_def getOrCreateNodeIdentity_def OpenKeyring_def saveNodeIdentityToKeyring_def ToInternalConfig_def
      demoInternal_def withListenDefault_def demoHostCfg_def demoDisk_def demoKeyLib_def demoEdLib_def demoKeyBytes_def
      CreateLibP2PKeyFromIdentity_def Let_def)

lemma demo_failed_start:
  "ClientStart demoDisk demoKeyLib demoEdLib (Some ''10.0.0.5'') (demoNodeEnv False) 0 demoClient (\<lambda>_. None)
     = (Some ErrNodeStart, demoClient\<lparr>clConfig := withListenDefault demoInternal, clNode := Some NodeCreated\<rparr>, demoRing)"
  by (simp add: ClientStart_def demo_prepared Let_def demoNodeEnv_def)

theorem client_lifecycle_witness:
  "fst (ClientStart demoDisk demoKeyLib demoEdLib (Some ''10.0.0.5'') (demoNodeEnv True) 0
      (demoClient\<lparr>clConfig := withListenDefault demoInternal, clNode := Some NodeCreated\<rparr>) demoRing) = Some ErrClientStarted"
proof -
  have "NewClientDefra (Some demoInternal) = Inr demoClient" by (simp add: NewClientDefra_def)
  moreover have "clientStep demoDisk demoKeyLib demoEdLib (demoClient, \<lambda>_. None)
      (demoClient\<lparr>clConfig := withListenDefault demoInternal, clNode := Some NodeCreated\<rparr>, demoRing)"
    using clientStep.start [of demoDisk demoKeyLib demoEdLib demoClient "\<lambda>_. None" "Some ''10.0.0.5''" "demoNodeEnv False" 0]
    unfolding demo_failed_start by simp
  ultimately show ?thesis using client_lifecycle [OF _ r_into_rtranclp] by fastforce
qed

text \<open>A node that was started and whose start then fails is closed only when the schema is at fault.\<close>

lemma start_failure_closes:
  assumes "StartDefraInstance D L E F lan N now ic applier nodeOpts hasFilter cs w = (Inl e, calls, w')" "CallStart \<in> set calls"
  shows "CallClose \<in> set calls \<longleftrightarrow> (\<exists>t. e = ErrApplySchema t)"
  using assms by (auto simp: StartDefraInstance_def finishStart_def Let_def split: if_splits sum.splits prod.splits option.splits)

text \<open>The address to bind: a loopback host, with or without the scheme, becomes the LAN address.\<close>

lemma replaceFirst_none: "\<not> containsStr s old \<Longrightarrow> replaceFirst s old new = s"
  by (simp add: replaceFirst_def containsStr_def)

lemma replaceFirst_head: "old \<noteq> [] \<Longrightarrow> replaceFirst (old @ rest) old new = new @ rest"
  by (cases old) (simp_all add: replaceFirst_def hasPrefix_def)

lemma loopback_scheme_dropped:
  assumes "\<not> containsStr (ip @ rest) ''http://127.0.0.1''" "\<not> containsStr (ip @ rest) ''localhost''" "\<not> containsStr (ip @ rest) ''127.0.0.1''"
  shows "replaceLoopback ip (''http://localhost'' @ rest) = ip @ rest"
  unfolding replaceLoopback_def Let_def
  by (subst replaceFirst_head, simp, subst replaceFirst_none, fact, subst replaceFirst_none, fact, rule replaceFirst_none, fact)

text \<open>A node that starts with the configuration of the host logs to the console only.\<close>

lemma host_node_logs_console_only:
  assumes "\<not> lfMkdirAll F []" "ToInternalConfig (Some hc) = Some c"
  shows "loggerInit F (icDevelopment c) (icLogsDir c) = [ConsoleCore (if logDevelopment (hcLogger hc) then DebugLevel else InfoLevel)]"
  using assms by (auto simp: loggerInit_def ToInternalConfig_def Let_def)

end
