(* ===== verification/Schema_Source.thy ===== *)
theory Schema_Source
  imports Host_Config
begin

text \<open>
  Where the host's GraphQL schema comes from and how a view's SDL is brought into shape:
  \<open>pkg/schema/fetcher.go\<close>, \<open>pkg/schema/schema.go\<close>, \<open>pkg/host/schema_resolve.go\<close> and
  \<open>pkg/view/schemaService.go\<close>. The regular expressions are written out; each is deterministic, since
  neighbouring parts of it accept different characters. The network (\<open>transport\<close>), the JSON decoder,
  \<open>net/url\<close> and the schema embedded in the binary are arguments.
\<close>

subsection \<open>Required types\<close>

fun anySuffix :: "(string \<Rightarrow> bool) \<Rightarrow> string \<Rightarrow> bool" where
  "anySuffix P [] = P []"
| "anySuffix P (x # xs) = (P (x # xs) \<or> anySuffix P xs)"

text \<open>\<open>type\s+Name\s*\{\<close> at the start of a string.\<close>

definition typeOpenAt :: "string \<Rightarrow> string \<Rightarrow> bool" where
  "typeOpenAt name s \<longleftrightarrow>
     hasPrefix s ''type'' \<and> takeWhile reSpace (drop 4 s) \<noteq> []
     \<and> hasPrefix (dropWhile reSpace (drop 4 s)) name
     \<and> hasPrefix (dropWhile reSpace (drop (length name) (dropWhile reSpace (drop 4 s)))) ''{''"

definition hasTypeDef :: "string \<Rightarrow> string \<Rightarrow> bool" where
  "hasTypeDef name s = anySuffix (typeOpenAt name) s"

abbreviation blockType :: string where "blockType \<equiv> ''Ethereum__Mainnet__Block''"
abbreviation attestationType :: string where "attestationType \<equiv> ''Ethereum__Mainnet__AttestationRecord''"

definition AttestationRecordTypeDef :: string where
  "AttestationRecordTypeDef =
     ''type Ethereum__Mainnet__AttestationRecord {'' @ [CHR 0x0A]
     @ ''    attested_doc: String @index'' @ [CHR 0x0A]
     @ ''    source_doc: [String]'' @ [CHR 0x0A]
     @ ''    CIDs: [String]'' @ [CHR 0x0A]
     @ ''    doc_type: String @index'' @ [CHR 0x0A]
     @ ''    vote_count: Int @crdt(type: pcounter)'' @ [CHR 0x0A]
     @ ''}''"

definition AppendAttestationRecord :: "string \<Rightarrow> string" where
  "AppendAttestationRecord baseSchema =
     (if hasTypeDef attestationType baseSchema then baseSchema
      else trimSpace baseSchema @ [CHR 0x0A, CHR 0x0A] @ AttestationRecordTypeDef @ [CHR 0x0A])"

datatype schema_error =
    ErrSchemaFetchNetwork | ErrSchemaFetchStatus nat | ErrSchemaEmptyResponse | ErrSchemaMalformedResponse
  | ErrSchemaMissingBlockType

definition ValidateSchema :: "string \<Rightarrow> schema_error option" where
  "ValidateSchema schemaStr = (if hasTypeDef blockType schemaStr then None else Some ErrSchemaMissingBlockType)"

fun IsDataLevelError :: "schema_error \<Rightarrow> bool" where
  "IsDataLevelError ErrSchemaMalformedResponse = True"
| "IsDataLevelError ErrSchemaEmptyResponse = True"
| "IsDataLevelError ErrSchemaMissingBlockType = True"
| "IsDataLevelError _ = False"

fun IsNetworkLevelError :: "schema_error \<Rightarrow> bool" where
  "IsNetworkLevelError ErrSchemaFetchNetwork = True"
| "IsNetworkLevelError (ErrSchemaFetchStatus code) = True"
| "IsNetworkLevelError _ = False"

subsection \<open>Fetching\<close>

record schemaClient =
  scTimeout :: int
  scToken :: "string option"

definition NewSchemaHTTPClient :: "SchemaConfig \<Rightarrow> schemaClient" where
  "NewSchemaHTTPClient sc =
     \<lparr>scTimeout = wrap64 (HTTPClientTimeoutSecs sc * 10 ^ 9), scToken = (if AuthToken sc = [] then None else Some (AuthToken sc))\<rparr>"

record schemaRequest =
  srURL :: string
  srHeaders :: "(string \<times> string) list"

text \<open>\<open>authTransport.RoundTrip\<close> sets the header on every request of a client with a token.\<close>

definition RoundTrip :: "schemaClient \<Rightarrow> schemaRequest \<Rightarrow> schemaRequest" where
  "RoundTrip c r =
     (case scToken c of None \<Rightarrow> r
      | Some t \<Rightarrow> r\<lparr>srHeaders := AList.update ''Authorization'' (''Bearer '' @ t) (srHeaders r)\<rparr>)"

text \<open>The answer to a request: none, or a status and a body. A URL without a request is \<open>badURL\<close>.\<close>

record schemaNet =
  snBadURL :: "string \<Rightarrow> bool"
  snTransport :: "int \<Rightarrow> schemaRequest \<Rightarrow> (nat \<times> byte list) option"
  snDecode :: "byte list \<Rightarrow> (string \<times> string) option"

abbreviation maxSchemaBodyBytes :: nat where "maxSchemaBodyBytes \<equiv> 65536"

definition FetchSchema :: "schemaNet \<Rightarrow> schemaClient \<Rightarrow> string \<Rightarrow> schema_error + string" where
  "FetchSchema N c fullURL =
     (if snBadURL N fullURL then Inl ErrSchemaFetchNetwork
      else (case snTransport N (scTimeout c) (RoundTrip c \<lparr>srURL = fullURL, srHeaders = [(''Accept'', ''application/json'')]\<rparr>) of
          None \<Rightarrow> Inl ErrSchemaFetchNetwork
        | Some (code, body) \<Rightarrow>
            if code \<noteq> 200 then Inl (ErrSchemaFetchStatus code)
            else (case snDecode N (take maxSchemaBodyBytes body) of
                None \<Rightarrow> Inl ErrSchemaMalformedResponse
              | Some (network, sdl) \<Rightarrow>
                  if trimSpace sdl = [] then Inl ErrSchemaEmptyResponse
                  else (let result = AppendAttestationRecord sdl in
                    case ValidateSchema result of None \<Rightarrow> Inr result | Some e \<Rightarrow> Inl e))))"

definition GetSchemaDynamic :: "string \<Rightarrow> schemaNet \<Rightarrow> schemaClient \<Rightarrow> string \<Rightarrow> string \<times> schema_error option" where
  "GetSchemaDynamic embedded N c fullURL =
     (case FetchSchema N c fullURL of Inl e \<Rightarrow> (embedded, Some e) | Inr s \<Rightarrow> (s, None))"

record 'u urlTools =
  utParse :: "string \<Rightarrow> 'u option"
  utScheme :: "'u \<Rightarrow> string"
  utHost :: "'u \<Rightarrow> string"
  utJoinPath :: "'u \<Rightarrow> string \<Rightarrow> 'u"
  utString :: "'u \<Rightarrow> string"

definition resolveSchema :: "string \<Rightarrow> 'u urlTools \<Rightarrow> schemaNet \<Rightarrow> hostConfig \<Rightarrow> string" where
  "resolveSchema embedded U N hc =
     (case utParse U (IndexerURL (hostSnapshot (hcHost hc))) of
        None \<Rightarrow> embedded
      | Some u \<Rightarrow>
          if utScheme U u = [] \<or> utHost U u = [] then embedded
          else fst (GetSchemaDynamic embedded N (NewSchemaHTTPClient (hcSchema hc))
                 (utString U (utJoinPath U u (IndexerSchemaEndpoint (hcSchema hc))))))"

subsection \<open>SDL\<close>

text \<open>\<open>type\s+(\w+)\s*\<close> at the start of a string: the text after the match.\<close>

definition typeHead :: "string \<Rightarrow> string option" where
  "typeHead s =
     (let r = drop 4 s; r1 = dropWhile reSpace r in
      if hasPrefix s ''type'' \<and> takeWhile reSpace r \<noteq> [] \<and> takeWhile wordChar r1 \<noteq> []
      then Some (dropWhile reSpace (dropWhile wordChar r1)) else None)"

lemma typeHead_length: "typeHead s = Some r \<Longrightarrow> length r < length s"
proof -
  assume "typeHead s = Some r"
  then have r: "r = dropWhile reSpace (dropWhile wordChar (dropWhile reSpace (drop 4 s)))" "hasPrefix s ''type''"
    by (auto simp: typeHead_def Let_def split: if_splits)
  have "length r \<le> length (drop 4 s)"
    unfolding r(1) by (meson le_trans length_dropWhile_le)
  moreover from r(2) have "length (take (length ''type'') s) = length ''type''" by (simp only: hasPrefix_def)
  ultimately show ?thesis by simp
qed

text \<open>\<open>ReplaceAllString\<close> of it by \<open>type typeName\<close> and a space, for a name without \<open>$\<close>.\<close>

function replaceTypeName :: "string \<Rightarrow> string \<Rightarrow> string" where
  "replaceTypeName typeName s =
     (case s of
        [] \<Rightarrow> []
      | x # xs \<Rightarrow>
          (case typeHead s of
             Some r \<Rightarrow> ''type '' @ typeName @ '' '' @ replaceTypeName typeName r
           | None \<Rightarrow> x # replaceTypeName typeName xs))"
  by pat_completeness auto
termination
  by (relation "measure (\<lambda>(_, s). length s)") (auto dest: typeHead_length)

definition directive :: "bool \<Rightarrow> string" where
  "directive materialized = ''@materialized(if: '' @ (if materialized then ''true'' else ''false'') @ '')''"

abbreviation atMaterialized :: string where "atMaterialized \<equiv> ''@materialized''"

text \<open>What follows a match of \<open>@materialized\s*(\([^)]*\))?\<close> at the start of a string.\<close>

definition afterDirective :: "string \<Rightarrow> string" where
  "afterDirective s =
     (let r = dropWhile reSpace (drop (length atMaterialized) s); r1 = dropWhile (\<lambda>c. c \<noteq> CHR '')'') r in
      if hasPrefix r ''('' \<and> r1 \<noteq> [] then tl r1 else r)"

lemma afterDirective_length: "length (afterDirective s) \<le> length s - length atMaterialized"
proof -
  have "length (dropWhile P (dropWhile Q (drop n s))) \<le> length s - n" for P Q n
    by (metis le_trans length_drop length_dropWhile_le)
  moreover have "length (dropWhile Q (drop n s)) \<le> length s - n" for Q n
    by (metis length_drop length_dropWhile_le)
  ultimately show ?thesis unfolding afterDirective_def Let_def by (auto intro: le_trans diff_le_self)
qed

function replaceDirective :: "string \<Rightarrow> string \<Rightarrow> string" where
  "replaceDirective d s =
     (case s of
        [] \<Rightarrow> []
      | x # xs \<Rightarrow>
          if hasPrefix s atMaterialized then d @ replaceDirective d (afterDirective s)
          else x # replaceDirective d xs)"
  by pat_completeness auto
termination
proof (relation "measure (\<lambda>(_, s). length s)")
  fix d :: string and s :: string and x xs
  assume "s = x # xs" "hasPrefix s atMaterialized"
  then show "((d, afterDirective s), d, s) \<in> measure (\<lambda>(_, s). length s)"
    using afterDirective_length [of s] by simp
qed auto

text \<open>\<open>(type\s+\w+\s*)(\{)\<close>: the directive goes before the brace.\<close>

function insertDirective :: "string \<Rightarrow> string \<Rightarrow> string" where
  "insertDirective d s =
     (case s of
        [] \<Rightarrow> []
      | x # xs \<Rightarrow>
          (case typeHead s of
             Some (Cons c r) \<Rightarrow>
               if c = CHR ''{''
               then take (length s - length (c # r)) s @ d @ '' {'' @ insertDirective d r
               else x # insertDirective d xs
           | _ \<Rightarrow> x # insertDirective d xs))"
  by pat_completeness auto
termination
  by (relation "measure (\<lambda>(_, s). length s)") (auto dest: typeHead_length)

declare replaceTypeName.simps [simp del] replaceDirective.simps [simp del] insertDirective.simps [simp del]

definition hasTypeBrace :: "string \<Rightarrow> bool" where
  "hasTypeBrace s = anySuffix (\<lambda>t. case typeHead t of None \<Rightarrow> False | Some r \<Rightarrow> hasPrefix r ''{'') s"

definition ensureMaterializedDirective :: "string \<Rightarrow> bool \<Rightarrow> string" where
  "ensureMaterializedDirective sdl materialized =
     (if containsStr sdl atMaterialized then replaceDirective (directive materialized) sdl
      else if hasTypeBrace sdl then insertDirective (directive materialized) sdl
      else sdl)"

definition lastIndexByte :: "string \<Rightarrow> char \<Rightarrow> nat option" where
  "lastIndexByte s c = map_option (\<lambda>i. length s - Suc i) (indexByte (rev s) c)"

definition addFieldIfMissing :: "string \<Rightarrow> string \<Rightarrow> string \<Rightarrow> string" where
  "addFieldIfMissing sdl fieldName fieldType =
     (if containsStr sdl fieldName then sdl
      else (case lastIndexByte sdl (CHR ''}'') of
          None \<Rightarrow> sdl
        | Some idx \<Rightarrow> take idx sdl @ ''  '' @ fieldName @ '': '' @ fieldType @ [CHR 0x0A] @ drop idx sdl))"

record FieldDef =
  fdName :: string
  fdType :: string

record SDLOptions =
  optMaterialized :: bool
  RequiredFields :: "FieldDef list"

definition NormalizeSDL :: "string \<Rightarrow> string \<Rightarrow> SDLOptions \<Rightarrow> string" where
  "NormalizeSDL sdl typeName opts =
     (let s1 = (if typeName = [] then sdl else replaceTypeName typeName sdl);
          s2 = ensureMaterializedDirective s1 (optMaterialized opts) in
      foldl (\<lambda>s f. addFieldIfMissing s (fdName f) (fdType f)) s2 (RequiredFields opts))"

text \<open>\<open>@materialized\s*\(\s*if\s*:\s*(true|false)\s*\)\<close> at the start of a string.\<close>

definition skip :: "string \<Rightarrow> string \<Rightarrow> string option" where
  "skip p s = (let r = dropWhile reSpace s in if hasPrefix r p then Some (drop (length p) r) else None)"

definition materializedAt :: "string \<Rightarrow> bool option" where
  "materializedAt s =
     (if \<not> hasPrefix s atMaterialized then None
      else (case skip ''('' (drop (length atMaterialized) s) of
          None \<Rightarrow> None
        | Some r1 \<Rightarrow>
            (case skip ''if'' r1 of
               None \<Rightarrow> None
             | Some r2 \<Rightarrow>
                 (case skip '':'' r2 of
                    None \<Rightarrow> None
                  | Some r3 \<Rightarrow>
                      (case (skip ''true'' r3, skip ''false'' r3) of
                         (Some r4, _) \<Rightarrow> if skip '')'' r4 \<noteq> None then Some True else None
                       | (None, Some r4) \<Rightarrow> if skip '')'' r4 \<noteq> None then Some False else None
                       | (None, None) \<Rightarrow> None)))))"

fun findMaterialized :: "string \<Rightarrow> bool option" where
  "findMaterialized [] = None"
| "findMaterialized (x # xs) = (case materializedAt (x # xs) of Some b \<Rightarrow> Some b | None \<Rightarrow> findMaterialized xs)"

definition ParseMaterializedFromSDL :: "string \<Rightarrow> bool" where
  "ParseMaterializedFromSDL sdl = (findMaterialized sdl = Some True)"

subsection \<open>The fetched schema\<close>

lemma anySuffix_appendI: "P v \<Longrightarrow> anySuffix P (u @ v)"
  by (induction u) (cases v, auto)

lemma attestation_def_found: "typeOpenAt attestationType (AttestationRecordTypeDef @ s)"
  by (simp add: typeOpenAt_def AttestationRecordTypeDef_def hasPrefix_def reSpace_def)

lemma AppendAttestationRecord_has: "hasTypeDef attestationType (AppendAttestationRecord s)"
proof (cases "hasTypeDef attestationType s")
  case False
  have "AppendAttestationRecord s
      = (trimSpace s @ [CHR 0x0A, CHR 0x0A]) @ (AttestationRecordTypeDef @ [CHR 0x0A])"
    using False by (simp only: AppendAttestationRecord_def if_False append_assoc)
  then show ?thesis unfolding hasTypeDef_def using attestation_def_found by (metis anySuffix_appendI)
qed (simp add: AppendAttestationRecord_def)

lemma AppendAttestationRecord_idem: "AppendAttestationRecord (AppendAttestationRecord s) = AppendAttestationRecord s"
  using AppendAttestationRecord_has [of s] by (subst AppendAttestationRecord_def) simp

lemma FetchSchema_ok:
  assumes "FetchSchema N c url = Inr s"
  shows "hasTypeDef blockType s \<and> hasTypeDef attestationType s \<and> AppendAttestationRecord s = s"
proof -
  obtain sdl where sdl: "s = AppendAttestationRecord sdl" "ValidateSchema s = None"
    using assms by (auto simp: FetchSchema_def Let_def split: if_splits option.splits prod.splits)
  then show ?thesis
    using AppendAttestationRecord_has AppendAttestationRecord_idem by (auto simp: ValidateSchema_def split: if_splits)
qed

lemma error_levels: "IsDataLevelError e \<longleftrightarrow> \<not> IsNetworkLevelError e"
  by (cases e) auto

subsection \<open>The directive\<close>

abbreviation beforeAt :: "string \<Rightarrow> string" where "beforeAt \<equiv> takeWhile (\<lambda>c. c \<noteq> CHR ''@'')"

lemma hasPrefix_beforeAt:
  assumes "hasPrefix (u @ CHR ''@'' # z) p" "CHR ''@'' \<notin> set p"
  shows "hasPrefix u p"
proof -
  obtain v where t: "u @ CHR ''@'' # z = p @ v" using assms(1) hasPrefixD by blast
  moreover have "beforeAt (u @ CHR ''@'' # z) = beforeAt u" by (induction u) auto
  moreover have "beforeAt (p @ v) = p @ beforeAt v" using assms(2) by (subst takeWhile_append2) auto
  ultimately have "beforeAt u = p @ beforeAt v" by simp
  then show ?thesis using takeWhile_dropWhile_id [of "\<lambda>c. c \<noteq> CHR ''@''" u] by (metis append_assoc hasPrefix_append)
qed

lemma containsStr_Cons: "containsStr (x # xs) p \<longleftrightarrow> hasPrefix (x # xs) p \<or> containsStr xs p"
  by (simp add: containsStr_def)

lemma hasPrefix_trans: "hasPrefix s u \<Longrightarrow> hasPrefix u p \<Longrightarrow> hasPrefix s p"
  by (metis append_assoc hasPrefixD hasPrefix_append)

lemma containsStr_prefix: "hasPrefix s u \<Longrightarrow> containsStr u p \<Longrightarrow> containsStr s p"
  by (metis append_assoc containsStr_iff hasPrefixD)

lemma materialized_no_at: "CHR ''@'' \<notin> set ''materialized''"
  by simp

lemma materializedAt_directive: "materializedAt (directive b @ z) = Some b"
  by (cases b) (simp_all add: materializedAt_def directive_def hasPrefix_def skip_def reSpace_def)

text \<open>The first directive of a text is the one found in it.\<close>

lemma find_first_directive:
  "\<not> containsStr u atMaterialized \<Longrightarrow> findMaterialized (u @ directive b @ z) = Some b"
proof (induction u)
  case Nil
  have "directive b @ z \<noteq> []" by (simp add: directive_def)
  then obtain x xs where "directive b @ z = x # xs" by (cases "directive b @ z") auto
  then show ?case using materializedAt_directive [of b z] by simp
next
  case (Cons x u)
  have d: "directive b @ z = CHR ''@'' # tl (directive b @ z)" by (simp add: directive_def)
  have "\<not> hasPrefix (x # u @ directive b @ z) atMaterialized"
  proof
    assume "hasPrefix (x # u @ directive b @ z) atMaterialized"
    then have x: "x = CHR ''@''" and "hasPrefix (u @ directive b @ z) ''materialized''" by (simp_all add: hasPrefix_def)
    then have "hasPrefix u ''materialized''" using hasPrefix_beforeAt d by (metis (no_types) materialized_no_at)
    with x have "hasPrefix (x # u) atMaterialized" by (simp add: hasPrefix_def)
    with Cons.prems show False by (simp add: containsStr_Cons)
  qed
  then have "materializedAt (x # u @ directive b @ z) = None" by (simp add: materializedAt_def)
  moreover have "findMaterialized (u @ directive b @ z) = Some b" using Cons by (simp add: containsStr_Cons)
  ultimately show ?case by simp
qed

lemma replaceDirective_first:
  "containsStr s atMaterialized \<Longrightarrow>
   \<exists>u z. replaceDirective d s = u @ d @ z \<and> hasPrefix s u \<and> \<not> containsStr u atMaterialized"
proof (induction d s rule: replaceDirective.induct)
  case (1 d s)
  show ?case
  proof (cases s)
    case (Cons x xs)
    show ?thesis
    proof (cases "hasPrefix s atMaterialized")
      case True
      then have "replaceDirective d s = [] @ d @ replaceDirective d (afterDirective s)"
        using Cons by (subst replaceDirective.simps) simp
      moreover have "\<not> containsStr [] atMaterialized" by (simp add: containsStr_def)
      ultimately show ?thesis by (metis hasPrefix_Nil)
    next
      case False
      then have "containsStr xs atMaterialized" using "1.prems" Cons by (simp add: containsStr_Cons)
      then obtain u z where u: "replaceDirective d xs = u @ d @ z" "hasPrefix xs u" "\<not> containsStr u atMaterialized"
        using "1.IH"(2) [OF Cons False] by blast
      have "replaceDirective d s = (x # u) @ d @ z" using Cons False u by (subst replaceDirective.simps) simp
      moreover have p: "hasPrefix s (x # u)" using Cons u by (simp add: hasPrefix_def)
      moreover have "\<not> containsStr (x # u) atMaterialized"
        using False u(3) hasPrefix_trans [OF p] by (auto simp: containsStr_Cons)
      ultimately show ?thesis by blast
    qed
  qed (use "1.prems" in \<open>simp add: containsStr_def\<close>)
qed

lemma insertDirective_first:
  "hasTypeBrace s \<Longrightarrow> \<exists>u z. insertDirective d s = u @ d @ z \<and> hasPrefix s u"
proof (induction s)
  case Nil
  then show ?case by (simp add: hasTypeBrace_def typeHead_def hasPrefix_def)
next
  case (Cons x xs)
  show ?case
  proof (cases "\<exists>r. typeHead (x # xs) = Some (CHR ''{'' # r)")
    case True
    then obtain r where r: "typeHead (x # xs) = Some (CHR ''{'' # r)" by blast
    let ?u = "take (length (x # xs) - length (CHR ''{'' # r)) (x # xs)"
    have "insertDirective d (x # xs) = ?u @ d @ '' {'' @ insertDirective d r"
      using r by (subst insertDirective.simps) simp
    moreover have "hasPrefix (x # xs) ?u" by (metis append_take_drop_id hasPrefix_append)
    ultimately show ?thesis by blast
  next
    case False
    then have step: "insertDirective d (x # xs) = x # insertDirective d xs"
      by (subst insertDirective.simps) (auto split: option.splits list.splits)
    have "\<not> (case typeHead (x # xs) of None \<Rightarrow> False | Some r \<Rightarrow> hasPrefix r ''{'')"
      using False by (auto dest: hasPrefixD split: option.splits)
    then have "hasTypeBrace xs" using Cons.prems by (simp add: hasTypeBrace_def)
    then obtain u z where "insertDirective d xs = u @ d @ z" "hasPrefix xs u" using Cons.IH by blast
    then have "insertDirective d (x # xs) = (x # u) @ d @ z" "hasPrefix (x # xs) (x # u)"
      using step by (simp_all add: hasPrefix_def)
    then show ?thesis by blast
  qed
qed

subsection \<open>Properties\<close>

text \<open>
  C34. The host never runs on a schema that was not checked: the schema it resolves is the embedded
  one, or a fetched one that defines the block type and the attestation record type, the latter
  exactly as the host would add it.
\<close>

theorem resolved_schema_checked:
  "resolveSchema embedded U N hc = embedded
   \<or> hasTypeDef blockType (resolveSchema embedded U N hc)
     \<and> hasTypeDef attestationType (resolveSchema embedded U N hc)
     \<and> AppendAttestationRecord (resolveSchema embedded U N hc) = resolveSchema embedded U N hc"
  using FetchSchema_ok
  by (auto simp: resolveSchema_def GetSchemaDynamic_def split: option.splits sum.splits)

text \<open>
  The materialization of a view survives normalization: after the directive is written into an SDL
  that has one, or a type to put it on, reading the SDL gives the value that was written.
\<close>

theorem materialized_round_trip:
  assumes "containsStr sdl atMaterialized \<or> hasTypeBrace sdl"
  shows "ParseMaterializedFromSDL (ensureMaterializedDirective sdl b) = b"
proof -
  have "\<exists>u z. ensureMaterializedDirective sdl b = u @ directive b @ z \<and> \<not> containsStr u atMaterialized"
  proof (cases "containsStr sdl atMaterialized")
    case True
    then show ?thesis using replaceDirective_first [OF True] unfolding ensureMaterializedDirective_def by (simp only: if_True) blast
  next
    case False
    then obtain u z where "insertDirective (directive b) sdl = u @ directive b @ z" "hasPrefix sdl u"
      using assms insertDirective_first by blast
    then show ?thesis using False assms containsStr_prefix by (auto simp: ensureMaterializedDirective_def)
  qed
  then show ?thesis using find_first_directive by (auto simp: ParseMaterializedFromSDL_def)
qed

theorem materialized_round_trip_witness:
  "ParseMaterializedFromSDL (ensureMaterializedDirective ''type V @materialized(if: false) { a: Int }'' True) = True"
proof -
  have "containsStr (''type V '' @ atMaterialized @ ''(if: false) { a: Int }'') atMaterialized" unfolding containsStr_iff by blast
  then show ?thesis using materialized_round_trip [of "''type V @materialized(if: false) { a: Int }''" True] by simp
qed

text \<open>
  A required field is in the SDL after it is added, so adding it again changes nothing.
\<close>

lemma added_field_present:
  assumes "lastIndexByte sdl (CHR ''}'') \<noteq> None"
  shows "containsStr (addFieldIfMissing sdl name ty) name"
proof (cases "containsStr sdl name")
  case False
  with assms obtain i where "addFieldIfMissing sdl name ty = (take i sdl @ ''  '') @ name @ ('': '' @ ty @ [CHR 0x0A] @ drop i sdl)"
    by (auto simp: addFieldIfMissing_def)
  then show ?thesis unfolding containsStr_iff by blast
qed (simp add: addFieldIfMissing_def)

lemma addField_idem:
  "lastIndexByte sdl (CHR ''}'') \<noteq> None \<Longrightarrow>
   addFieldIfMissing (addFieldIfMissing sdl name ty) name ty' = addFieldIfMissing sdl name ty"
  using added_field_present [of sdl name ty] by (subst addFieldIfMissing_def) simp

text \<open>The pattern of the type name is not anchored: a word that ends in \<open>type\<close> is rewritten too.\<close>

lemma type_suffix_rewritten:
  "replaceTypeName ''V'' ''type A { kind: Subtype size: Int }'' = ''type V { kind: Subtype V : Int }''"
  by (simp add: replaceTypeName.simps typeHead_def hasPrefix_def reSpace_def wordChar_def)

end
