(* ===== verification/Peer_Discovery.thy ===== *)
theory Peer_Discovery
  imports Peer_Network
begin

text \<open>
  \<open>pkg/host/peer_discovery.go\<close>: bootstrap addresses in their various forms turned into multiaddrs, the
  missing peer identifiers discovered in parallel, and the results put back into the configured
  order. The multiaddr library, \<open>net.ParseIP\<close> and the libp2p handshake are arguments: a multiaddr is what
  \<open>NewMultiaddr\<close> returns, seen through its string and its protocols. The goroutines append their results
  in any order.
\<close>

datatype discovery_error = ErrMultiaddr | ErrInvalidIPAddress string

record 'ma netTools =
  NewMultiaddr :: "string \<Rightarrow> 'ma option"
  maString :: "'ma \<Rightarrow> string"
  maHasP2P :: "'ma \<Rightarrow> bool"
  ParseIP :: "string \<Rightarrow> bool option"

text \<open>
  \<open>ParseIP\<close> tells whether the text is an address and whether it has a four-byte form. \<open>splitHostPort\<close> is
  \<open>net.SplitHostPort\<close>: the last colon separates the port, a host with colons needs brackets.
\<close>

abbreviation colon :: char where "colon \<equiv> CHR 0x3A"

definition lastColon :: "string \<Rightarrow> nat option" where
  "lastColon s = (case indexByte (rev s) colon of None \<Rightarrow> None | Some i \<Rightarrow> Some (length s - 1 - i))"

definition splitHostPort :: "string \<Rightarrow> (string \<times> string) option" where
  "splitHostPort s =
     (case lastColon s of
        None \<Rightarrow> None
      | Some i \<Rightarrow>
          (case s of
             [] \<Rightarrow> None
           | c # _ \<Rightarrow>
               if c = CHR ''[''
               then (case indexByte s (CHR '']'') of
                   None \<Rightarrow> None
                 | Some e \<Rightarrow>
                     if e + 1 \<noteq> i then None
                     else
                       (let h = take (e - 1) (drop 1 s) in
                        if CHR ''['' \<in> set (drop 1 s) \<or> CHR '']'' \<in> set (drop (e + 1) s) then None
                        else Some (h, drop (i + 1) s)))
               else
                 (let h = take i s in
                  if colon \<in> set h then None
                  else if CHR ''['' \<in> set s \<or> CHR '']'' \<in> set s then None
                  else Some (h, drop (i + 1) s))))"

definition buildMultiaddr :: "'ma netTools \<Rightarrow> string \<Rightarrow> string \<Rightarrow> discovery_error + 'ma" where
  "buildMultiaddr N host port =
     (case ParseIP N host of
        None \<Rightarrow> Inl (ErrInvalidIPAddress host)
      | Some is4 \<Rightarrow>
          (case NewMultiaddr N (''/'' @ (if is4 then ''ip4'' else ''ip6'') @ ''/'' @ host @ ''/tcp/'' @ port) of
             None \<Rightarrow> Inl ErrMultiaddr
           | Some m \<Rightarrow> Inr m))"

definition trimBrackets :: "string \<Rightarrow> string" where
  "trimBrackets s =
     (let h = (if hasPrefix s ''['' then drop 1 s else s) in
      if hasSuffix h '']'' then take (length h - 1) h else h)"

definition normalizeToMultiaddr :: "'ma netTools \<Rightarrow> string \<Rightarrow> discovery_error + 'ma" where
  "normalizeToMultiaddr N addr =
     (if hasPrefix addr ''/'' then (case NewMultiaddr N addr of None \<Rightarrow> Inl ErrMultiaddr | Some m \<Rightarrow> Inr m)
      else (case splitHostPort addr of
          Some (host, port) \<Rightarrow> buildMultiaddr N host port
        | None \<Rightarrow> buildMultiaddr N (trimBrackets addr) ''9171''))"

subsection \<open>The discovered identifier\<close>

text \<open>
  The outcome of the dial with the bogus identifier: no host, success, the typed mismatch error, or
  another error with its text. \<open>decode\<close> is \<open>peer.Decode\<close> followed by \<open>String\<close>.
\<close>

datatype dialOutcome = NoHost | DialMatched | DialMismatch string | DialOther string

definition cutAt :: "string \<Rightarrow> string \<Rightarrow> string" where
  "cutAt s delim = (case indexStr s delim of None \<Rightarrow> s | Some i \<Rightarrow> take i s)"

definition mismatchMarker :: string where
  "mismatchMarker = ''but remote key matches ''"

definition idDelims :: "char list" where
  "idDelims = [CHR ''.'', CHR '','', CHR '' '', CHR 0x0A, CHR '')'']"

definition extractPeerIDFromMismatchString :: "(string \<Rightarrow> string option) \<Rightarrow> string \<Rightarrow> string option" where
  "extractPeerIDFromMismatchString decode errMsg =
     (case indexStr errMsg mismatchMarker of
        None \<Rightarrow> None
      | Some i \<Rightarrow>
          decode (trimSpace (foldl cutAt (drop (i + length mismatchMarker) errMsg) (map (\<lambda>d. [d]) idDelims))))"

definition bogusPeerID :: string where
  "bogusPeerID = ''12D3KooWDpJ7As7BWAwRMfu1VU2WCqNjvq387JEYKDBj4kx6nXTN''"

definition discoverPeerID :: "'ma netTools \<Rightarrow> (string \<Rightarrow> string option) \<Rightarrow> dialOutcome \<Rightarrow> 'ma \<Rightarrow> string option" where
  "discoverPeerID N decode dial target =
     (case dial of
        NoHost \<Rightarrow> None
      | DialMatched \<Rightarrow> Some (maString N target @ ''/p2p/'' @ bogusPeerID)
      | DialMismatch actual \<Rightarrow> Some (maString N target @ ''/p2p/'' @ actual)
      | DialOther errMsg \<Rightarrow>
          map_option (\<lambda>pid. maString N target @ ''/p2p/'' @ pid) (extractPeerIDFromMismatchString decode errMsg))"

subsection \<open>Resolving the list\<close>

text \<open>The result for the address at one position, if it yields one; the dial is that of the position.\<close>

definition resolveOne :: "'ma netTools \<Rightarrow> (string \<Rightarrow> string option) \<Rightarrow> (nat \<Rightarrow> dialOutcome) \<Rightarrow> nat \<Rightarrow> string \<Rightarrow> string option" where
  "resolveOne N decode dial i peerAddr0 =
     (let peerAddr = trimSpace peerAddr0 in
      if peerAddr = [] then None
      else (case normalizeToMultiaddr N peerAddr of
          Inl e \<Rightarrow> None
        | Inr maddr \<Rightarrow>
            if maHasP2P N maddr then Some (maString N maddr)
            else (case discoverPeerID N decode (dial i) maddr of
                None \<Rightarrow> Some (maString N maddr)
              | Some fullAddr \<Rightarrow> Some fullAddr)))"

definition makeSortedArray :: "(nat \<times> string) list \<Rightarrow> string list \<Rightarrow> string list" where
  "makeSortedArray results ps =
     List.map_filter (map_of (rev results)) [0 ..< length ps]"

text \<open>The results in the order of the positions; the goroutines append a permutation of them.\<close>

definition peerResults :: "'ma netTools \<Rightarrow> (string \<Rightarrow> string option) \<Rightarrow> (nat \<Rightarrow> dialOutcome) \<Rightarrow> string list \<Rightarrow> (nat \<times> string) list" where
  "peerResults N decode dial ps =
     List.map_filter (\<lambda>(i, p). map_option (Pair i) (resolveOne N decode dial i p)) (enumerate 0 ps)"

definition resolveBootstrapPeers ::
  "'ma netTools \<Rightarrow> (string \<Rightarrow> string option) \<Rightarrow> (nat \<Rightarrow> dialOutcome) \<Rightarrow> ((nat \<times> string) list \<Rightarrow> (nat \<times> string) list) \<Rightarrow> string list \<Rightarrow> string list" where
  "resolveBootstrapPeers N decode dial arrival ps = makeSortedArray (arrival (peerResults N decode dial ps)) ps"

subsection \<open>Facts\<close>

lemma map_filter_upt: "List.map_filter (\<lambda>i. if i < length ps then f i (ps ! i) else None) [0 ..< length ps]
    = List.map_filter (\<lambda>(i, p). f i p) (enumerate 0 ps)"
proof -
  have "enumerate 0 ps = map (\<lambda>i. (i, ps ! i)) [0 ..< length ps]" by (rule nth_equalityI) (simp_all add: nth_enumerate_eq)
  then show ?thesis by (auto simp: map_filter_def filter_map comp_def intro!: map_cong filter_cong)
qed

lemma results_mem:
  "(i, a) \<in> set (List.map_filter (\<lambda>(i, p). map_option (Pair i) (f i p)) xs) \<longleftrightarrow> (\<exists>p. (i, p) \<in> set xs \<and> f i p = Some a)"
  by (induction xs) (auto split: option.splits)

lemma peerResults_mem: "(i, a) \<in> set (peerResults N decode dial ps) \<longleftrightarrow> i < length ps \<and> resolveOne N decode dial i (ps ! i) = Some a"
  unfolding peerResults_def results_mem by (auto simp: in_set_enumerate_eq)

lemma results_keys:
  "map fst (List.map_filter (\<lambda>(i, p). map_option (Pair i) (f i p)) xs) = map fst (filter (\<lambda>(i, p). f i p \<noteq> None) xs)"
  by (induction xs) (auto split: option.splits)

lemma peerResults_keys: "distinct (map fst (peerResults N decode dial ps))"
  unfolding peerResults_def results_keys by (rule distinct_map_filter) simp

lemma peerResults_lookup:
  "map_of (peerResults N decode dial ps) i = (if i < length ps then resolveOne N decode dial i (ps ! i) else None)"
proof (cases "map_of (peerResults N decode dial ps) i")
  case None
  then have "\<not> (i < length ps \<and> resolveOne N decode dial i (ps ! i) = Some a)" for a
    unfolding map_of_eq_None_iff peerResults_mem [symmetric] by (metis fst_conv imageI)
  with None show ?thesis by (cases "resolveOne N decode dial i (ps ! i)") auto
next
  case (Some a)
  with map_of_SomeD [OF this] show ?thesis by (simp add: peerResults_mem)
qed

lemma arrival_irrelevant: "mset rs = mset xs \<Longrightarrow> distinct (map fst xs) \<Longrightarrow> map_of (rev rs) = map_of xs"
proof -
  assume m: "mset rs = mset xs" and d: "distinct (map fst xs)"
  have "mset (map fst (rev rs)) = mset (map fst xs)" using m by simp
  then have "distinct (map fst (rev rs))" using d mset_eq_imp_distinct_iff by blast
  moreover have "set (rev rs) = set xs" using m by (metis mset_eq_setD set_rev)
  ultimately show ?thesis using d map_of_inject_set by blast
qed

text \<open>Cutting at the delimiters one after the other keeps what is before the first of any of them.\<close>

lemma cutAt_byte: "cutAt s [c] = takeWhile (\<lambda>x. x \<noteq> c) s"
  by (induction s) (auto simp: cutAt_def hasPrefix_def split: option.splits)

lemma takeWhile_twice: "takeWhile P (takeWhile Q s) = takeWhile (\<lambda>x. Q x \<and> P x) s"
  by (induction s) auto

lemma foldl_cutAt: "foldl cutAt s (map (\<lambda>c. [c]) cs) = takeWhile (\<lambda>x. x \<notin> set cs) s"
proof (induction cs arbitrary: s)
  case Nil
  show ?case by (induction s) auto
next
  case (Cons c cs)
  then show ?case by (simp add: cutAt_byte takeWhile_twice)
qed

subsection \<open>Properties\<close>

text \<open>
  C29. The resolved bootstrap peers do not depend on the order in which the parallel discoveries
  finish: they are the addresses of the entries that resolve, in the configured order, each
  resolved by itself.
\<close>

theorem discovery_order_kept:
  assumes "\<forall>rs. mset (arrival rs) = mset rs"
  shows "resolveBootstrapPeers N decode dial arrival ps = List.map_filter (\<lambda>(i, p). resolveOne N decode dial i p) (enumerate 0 ps)"
proof -
  let ?r = "peerResults N decode dial ps"
  have "map_of (rev (arrival ?r)) = (\<lambda>i. if i < length ps then resolveOne N decode dial i (ps ! i) else None)"
    using arrival_irrelevant [OF assms [rule_format] peerResults_keys] peerResults_lookup by (metis ext)
  then show ?thesis unfolding resolveBootstrapPeers_def makeSortedArray_def using map_filter_upt by simp
qed

definition demoNetTools :: "string netTools" where
  "demoNetTools = \<lparr>NewMultiaddr = Some, maString = id, maHasP2P = (\<lambda>m. containsStr m ''/p2p/''),
     ParseIP = (\<lambda>h. if h = ''10.0.0.1'' then Some True else if h = ''::1'' then Some False else None)\<rparr>"

lemma demo_resolve:
  "List.map_filter (\<lambda>(i, p). resolveOne demoNetTools Some (\<lambda>i. if i = 2 then DialMismatch ''Q'' else NoHost) i p)
     (enumerate 0 [''/ip4/1.2.3.4/tcp/1/p2p/A'', ''nonsense'', '' [::1]:80 '', ''10.0.0.1''])
   = [''/ip4/1.2.3.4/tcp/1/p2p/A'', ''/ip6/::1/tcp/80/p2p/Q'', ''/ip4/10.0.0.1/tcp/9171'']"
  by code_simp

theorem discovery_order_kept_witness:
  "resolveBootstrapPeers demoNetTools Some (\<lambda>i. if i = 2 then DialMismatch ''Q'' else NoHost) rev
     [''/ip4/1.2.3.4/tcp/1/p2p/A'', ''nonsense'', '' [::1]:80 '', ''10.0.0.1'']
   = [''/ip4/1.2.3.4/tcp/1/p2p/A'', ''/ip6/::1/tcp/80/p2p/Q'', ''/ip4/10.0.0.1/tcp/9171'']"
  unfolding demo_resolve [symmetric] by (rule discovery_order_kept) simp

text \<open>
  The fallback finds the identifier in the text of the libp2p error: whatever stands before the
  marker (without it) and after the first delimiter, an identifier free of delimiters and spaces
  is handed to the decoder as it is.
\<close>

theorem mismatch_text_parsed:
  assumes "indexStr (pre @ mismatchMarker @ pid @ c # rest) mismatchMarker = Some (length pre)"
    and "list_all (\<lambda>x. x \<notin> set idDelims) pid" "c \<in> set idDelims" "trimSpace pid = pid"
  shows "extractPeerIDFromMismatchString decode (pre @ mismatchMarker @ pid @ c # rest) = decode pid"
proof -
  have "takeWhile (\<lambda>x. x \<notin> set idDelims) (pid @ c # rest) = pid"
    using assms(2,3) by (subst takeWhile_append2) (auto simp: list_all_iff)
  then have "foldl cutAt (pid @ c # rest) (map (\<lambda>d. [d]) idDelims) = pid" by (simp add: foldl_cutAt)
  then show ?thesis using assms(1,4) unfolding extractPeerIDFromMismatchString_def by simp
qed

end
