(* ===== verification/Health_Server.thy ===== *)
theory Health_Server
  imports Node_Identity Peer_Discovery
begin

text \<open>
  The health and registration endpoints: \<open>pkg/server/health.go\<close>, \<open>pkg/server/registration.go\<close> and the
  methods of \<open>pkg/host/host.go\<close> that answer them (\<open>IsHealthy\<close>, \<open>GetCurrentBlock\<close>,
  \<open>GetLastProcessedTime\<close>, \<open>GetPeerInfo\<close>). A handler is the sequence of its calls on the response
  writer, so that a header set after the status line is sent is lost, as in \<open>net/http\<close>. Times are
  nanoseconds, 0 the zero time. Outgoing requests, files, IP parsing, the text form of a URL and the
  DID library are arguments.
\<close>

subsection \<open>The response writer\<close>

datatype 'b rwOp = SetHeader string string | WriteHeader nat | WriteBody 'b

record 'b httpReply =
  rpStatus :: nat
  rpHeaders :: "(string \<times> string) list"
  rpBody :: "'b list"

record 'b responseWriter =
  rwHeaders :: "(string \<times> string) list"
  rwSent :: "(nat \<times> (string \<times> string) list) option"
  rwBody :: "'b list"

fun rwStep :: "'b responseWriter \<Rightarrow> 'b rwOp \<Rightarrow> 'b responseWriter" where
  "rwStep w (SetHeader k v) = w\<lparr>rwHeaders := AList.update k v (rwHeaders w)\<rparr>"
| "rwStep w (WriteHeader code) = (if rwSent w = None then w\<lparr>rwSent := Some (code, rwHeaders w)\<rparr> else w)"
| "rwStep w (WriteBody b) =
     (let w1 = (if rwSent w = None then w\<lparr>rwSent := Some (200, rwHeaders w)\<rparr> else w) in w1\<lparr>rwBody := rwBody w1 @ [b]\<rparr>)"

definition reply :: "'b rwOp list \<Rightarrow> 'b httpReply" where
  "reply ops =
     (let w = foldl rwStep \<lparr>rwHeaders = [], rwSent = None, rwBody = []\<rparr> ops in
      case rwSent w of
        None \<Rightarrow> \<lparr>rpStatus = 200, rpHeaders = rwHeaders w, rpBody = rwBody w\<rparr>
      | Some (code, hs) \<Rightarrow> \<lparr>rpStatus = code, rpHeaders = hs, rpBody = rwBody w\<rparr>)"

subsection \<open>Data\<close>

record serverPeerInfo =
  spID :: string
  spAddresses :: "string list"
  spPublicKey :: string

record P2PInfo =
  p2Enabled :: bool
  p2Self :: "serverPeerInfo option"
  p2PeerInfo :: "serverPeerInfo list"

record DisplayRegistration =
  drEnabled :: bool
  drMessage :: string
  drDID :: string
  drConnectionString :: string
  drEndpointAddress :: string
  drDefraPK :: DefraPKRegistration
  drPeerID :: PeerIDRegistration

record HealthResponse =
  hrStatus :: string
  hrTimestamp :: int
  hrCurrentBlock :: int
  hrLastProcessed :: int
  hrDefraDBConnected :: bool
  hrUptime :: int
  hrP2P :: "P2PInfo option"
  hrRegistration :: "DisplayRegistration option"

record MetricsResponse =
  mrBlocksProcessed :: int
  mrCurrentBlock :: int
  mrLastProcessedTime :: int
  mrUptime :: int

datatype healthBody =
    ErrorText string | HTMLPage string | HealthJSON HealthResponse | StatsJSON MetricsResponse | ServiceJSON int

text \<open>What the host answers, in the order of the interface; the peer information may come with an error.\<close>

record HealthChecker =
  chIsHealthy :: bool
  chGetCurrentBlock :: int
  chGetLastProcessedTime :: int
  chGetPeerInfo :: "P2PInfo option \<times> bool"
  chSignMessages :: "string \<Rightarrow> key_error + DefraPKRegistration \<times> PeerIDRegistration"

record HealthServer =
  hsHost :: "HealthChecker option"
  hsDefraURL :: string
  hsHasMetrics :: bool
  hsShinzoHubRESTBase :: string

record serverRequest =
  rqMethod :: string
  rqPath :: string
  rqHeader :: "string \<Rightarrow> string"
  rqHost :: string
  rqTLS :: bool
  rqURLHost :: "string option"

text \<open>
  The world of the server: the status of a GET, files, the start time and the clock, \<open>net.ParseIP\<close>
  (the text of the four-byte form if there is one, and whether it is loopback or unspecified), the text
  of a URL and the DID of a public key.
\<close>

record ipInfo =
  ipTo4 :: "string option"
  ipLoopback :: bool
  ipUnspecified :: bool

record serverEnv =
  svGet :: "string \<Rightarrow> nat option"
  svReadFile :: "string \<Rightarrow> string option"
  svEmbeddedPage :: string
  svStartTime :: int
  svNow :: int
  svParseIP :: "string \<Rightarrow> ipInfo option"
  svURLString :: "string \<Rightarrow> string \<Rightarrow> string \<Rightarrow> string"
  svCreateDIDKey :: "byte list \<Rightarrow> string option"

subsection \<open>Registration data\<close>

definition normalizeHex :: "string \<Rightarrow> string" where
  "normalizeHex s =
     (if s = [] then s
      else if hasPrefix s ''0x'' \<or> hasPrefix s ''0X'' then ''0x'' @ drop 2 s
      else ''0x'' @ s)"

definition deriveDID :: "serverEnv \<Rightarrow> string \<Rightarrow> string option" where
  "deriveDID V publicKeyHex =
     (let s = normalizeHex publicKeyHex in
      case hexDecode (if hasPrefix s ''0x'' then drop 2 s else s) of None \<Rightarrow> None | Some bs \<Rightarrow> svCreateDIDKey V bs)"

definition firstForwardedValue :: "string \<Rightarrow> string" where
  "firstForwardedValue v = (if v = [] then [] else trimSpace (hd (splitByte (CHR '','') v)))"

definition deriveEndpointAddress :: "serverEnv \<Rightarrow> serverRequest \<Rightarrow> string" where
  "deriveEndpointAddress V r =
     (let fwdProto = firstForwardedValue (rqHeader r ''X-Forwarded-Proto'');
          proto = (if fwdProto = [] then (if rqTLS r then ''https'' else ''http'') else fwdProto);
          fwdHost = firstForwardedValue (rqHeader r ''X-Forwarded-Host'');
          host1 = (if fwdHost = [] then rqHost r else fwdHost);
          host2 = (if host1 = [] then (case rqURLHost r of None \<Rightarrow> [] | Some h \<Rightarrow> h) else host1) in
      if host2 = [] then [] else svURLString V proto host2 ''/api/v0/graphql'')"

text \<open>\<open>strings.Trim(host, "[]")\<close>\<close>

definition trimSquare :: "string \<Rightarrow> string" where
  "trimSquare s =
     (let f = (\<lambda>c. c = CHR ''['' \<or> c = CHR '']'') in rev (dropWhile f (rev (dropWhile f s))))"

definition hostIP :: "serverEnv \<Rightarrow> string \<Rightarrow> string" where
  "hostIP V host =
     (let h = trimSquare (case splitHostPort host of Some (h, _) \<Rightarrow> h | None \<Rightarrow> host) in
      case svParseIP V h of None \<Rightarrow> [] | Some ip \<Rightarrow> (case ipTo4 ip of None \<Rightarrow> [] | Some t \<Rightarrow> t))"

definition requestHostIP :: "serverEnv \<Rightarrow> serverRequest \<Rightarrow> string" where
  "requestHostIP V r =
     (case find (\<lambda>h. hostIP V h \<noteq> []) [firstForwardedValue (rqHeader r ''X-Forwarded-Host''), rqHost r] of
        None \<Rightarrow> [] | Some h \<Rightarrow> hostIP V h)"

fun tcpPart :: "string list \<Rightarrow> string option" where
  "tcpPart (a # b # ps) = (if a = ''tcp'' \<and> b \<noteq> [] then Some b else tcpPart (b # ps))"
| "tcpPart _ = None"

fun p2pPort :: "string list \<Rightarrow> string" where
  "p2pPort [] = ''9171''"
| "p2pPort (addr # addrs) = (case tcpPart (splitByte (CHR ''/'') addr) of Some p \<Rightarrow> p | None \<Rightarrow> p2pPort addrs)"

fun ip4Usable :: "serverEnv \<Rightarrow> string list \<Rightarrow> bool" where
  "ip4Usable V (a # b # ps) =
     (if a \<noteq> ''ip4'' then ip4Usable V (b # ps)
      else (case svParseIP V b of
          None \<Rightarrow> False | Some ip \<Rightarrow> ipTo4 ip \<noteq> None \<and> \<not> ipLoopback ip \<and> \<not> ipUnspecified ip))"
| "ip4Usable V _ = False"

definition isUsableIP4Multiaddr :: "serverEnv \<Rightarrow> string \<Rightarrow> bool" where
  "isUsableIP4Multiaddr V addr = ip4Usable V (splitByte (CHR ''/'') addr)"

definition firstUsableP2PAddress :: "serverEnv \<Rightarrow> string list \<Rightarrow> string" where
  "firstUsableP2PAddress V addresses =
     (case find (isUsableIP4Multiaddr V) addresses of None \<Rightarrow> [] | Some a \<Rightarrow> a)"

definition deriveConnectionString :: "serverEnv \<Rightarrow> serverRequest \<Rightarrow> P2PInfo option \<Rightarrow> string" where
  "deriveConnectionString V r p2p =
     (case (case p2p of None \<Rightarrow> None | Some p \<Rightarrow> p2Self p) of
        None \<Rightarrow> []
      | Some self \<Rightarrow>
          if spID self = [] then []
          else
            (let ip = requestHostIP V r; addr = firstUsableP2PAddress V (spAddresses self) in
             if ip \<noteq> [] then ''/ip4/'' @ ip @ ''/tcp/'' @ p2pPort (spAddresses self) @ ''/p2p/'' @ spID self
             else if addr \<noteq> [] then addr @ ''/p2p/'' @ spID self
             else (case spAddresses self of
                 [] \<Rightarrow> []
               | a # _ \<Rightarrow> if a = [] then [] else a @ ''/p2p/'' @ spID self)))"

abbreviation registrationMessage :: string where "registrationMessage \<equiv> ''Shinzo Network host registration''"

abbreviation noDefraPK :: DefraPKRegistration where "noDefraPK \<equiv> \<lparr>regPublicKey = [], SignedPKMsg = []\<rparr>"
abbreviation noPeerID :: PeerIDRegistration where "noPeerID \<equiv> \<lparr>regPeerID = [], SignedPeerMsg = []\<rparr>"

text \<open>The result, and whether it comes without an error.\<close>

definition getRegistrationData :: "serverEnv \<Rightarrow> HealthServer \<Rightarrow> serverRequest \<Rightarrow> DisplayRegistration option \<times> bool" where
  "getRegistrationData V hs r =
     (case hsHost hs of
        None \<Rightarrow> (None, False)
      | Some host \<Rightarrow>
          (let message = normalizeHex (hexEncode (bytesOf registrationMessage)) in
           case chSignMessages host registrationMessage of
             Inl e \<Rightarrow>
               (Some \<lparr>drEnabled = False, drMessage = message, drDID = [], drConnectionString = [], drEndpointAddress = [],
                      drDefraPK = noDefraPK, drPeerID = noPeerID\<rparr>, False)
           | Inr (defraReg, peerReg) \<Rightarrow>
               (let pk = normalizeHex (regPublicKey defraReg) in
                (Some \<lparr>drEnabled = True, drMessage = message,
                       drDID = (case deriveDID V pk of None \<Rightarrow> [] | Some did \<Rightarrow> did),
                       drConnectionString = (case chGetPeerInfo host of
                          (p2p, ok) \<Rightarrow> if ok then deriveConnectionString V r p2p else []),
                       drEndpointAddress = deriveEndpointAddress V r,
                       drDefraPK = \<lparr>regPublicKey = pk, SignedPKMsg = normalizeHex (SignedPKMsg defraReg)\<rparr>,
                       drPeerID = \<lparr>regPeerID = normalizeHex (regPeerID peerReg), SignedPeerMsg = normalizeHex (SignedPeerMsg peerReg)\<rparr>\<rparr>,
                 True))))"

subsection \<open>The registration URL\<close>

text \<open>\<open>url.QueryEscape\<close>, and \<open>url.Values.Encode\<close> on the sorted keys.\<close>

definition unreserved :: "char \<Rightarrow> bool" where
  "unreserved c \<longleftrightarrow> (let n = of_char c :: nat in 65 \<le> n \<and> n \<le> 90 \<or> 97 \<le> n \<and> n \<le> 122 \<or> 48 \<le> n \<and> n \<le> 57)
     \<or> c \<in> {CHR ''-'', CHR ''_'', CHR ''.'', CHR ''~''}"

definition upperHex :: "nat \<Rightarrow> char" where
  "upperHex n = (if n < 10 then char_of (48 + n) else char_of (55 + n))"

definition escapeChar :: "char \<Rightarrow> string" where
  "escapeChar c =
     (if unreserved c then [c] else if c = CHR '' '' then ''+''
      else [CHR ''%'', upperHex (of_char c div 16), upperHex (of_char c mod 16)])"

definition QueryEscape :: "string \<Rightarrow> string" where
  "QueryEscape s = concat (map escapeChar s)"

fun encodeQuery :: "(string \<times> string) list \<Rightarrow> string" where
  "encodeQuery [] = []"
| "encodeQuery [(k, v)] = QueryEscape k @ ''='' @ QueryEscape v"
| "encodeQuery ((k, v) # kvs) = QueryEscape k @ ''='' @ QueryEscape v @ ''&'' @ encodeQuery kvs"

definition registrationQuery :: "DisplayRegistration \<Rightarrow> (string \<times> string) list" where
  "registrationQuery reg =
     [(''connectionString'', drConnectionString reg),
      (''defraPublicKey'', regPublicKey (drDefraPK reg)),
      (''defraPublicKeySignedMessage'', SignedPKMsg (drDefraPK reg)),
      (''endpointAddress'', drEndpointAddress reg),
      (''role'', ''host''),
      (''signedMessage'', drMessage reg)]"

definition buildRegistrationAppURL :: "DisplayRegistration \<Rightarrow> string" where
  "buildRegistrationAppURL reg =
     ''https://registration.shinzo.network/host-registration?'' @ encodeQuery (registrationQuery reg)"

subsection \<open>Handlers\<close>

definition httpError :: "string \<Rightarrow> nat \<Rightarrow> healthBody rwOp list" where
  "httpError text code = [SetHeader ''Content-Type'' ''text/plain; charset=utf-8'', WriteHeader code, WriteBody (ErrorText text)]"

definition checkDefraDB :: "serverEnv \<Rightarrow> HealthServer \<Rightarrow> bool" where
  "checkDefraDB V hs =
     (if hsDefraURL hs = [] then True
      else if containsStr (hsDefraURL hs) ''localhost'' \<or> containsStr (hsDefraURL hs) ''127.0.0.1'' then True
      else (case svGet V (hsDefraURL hs @ ''/api/v0/graphql'') of None \<Rightarrow> False | Some code \<Rightarrow> code = 200 \<or> code = 400))"

definition loadHealthStatusPageTemplate :: "serverEnv \<Rightarrow> string" where
  "loadHealthStatusPageTemplate V =
     (case svReadFile V ''pkg/server/health_status_page.html'' of
        Some page \<Rightarrow> page
      | None \<Rightarrow> (case svReadFile V ''health_status_page.html'' of Some page \<Rightarrow> page | None \<Rightarrow> svEmbeddedPage V))"

definition getHealthStatusPageHTML :: "serverEnv \<Rightarrow> HealthServer \<Rightarrow> string" where
  "getHealthStatusPageHTML V hs =
     replaceAll (loadHealthStatusPageTemplate V) ''{{SHINZOHUB_REST_BASE}}'' (hsShinzoHubRESTBase hs)"

definition baseResponse :: "serverEnv \<Rightarrow> HealthServer \<Rightarrow> string \<Rightarrow> HealthResponse" where
  "baseResponse V hs status =
     (let resp = \<lparr>hrStatus = status, hrTimestamp = svNow V, hrCurrentBlock = 0, hrLastProcessed = 0, hrDefraDBConnected = checkDefraDB V hs,
                  hrUptime = svNow V - svStartTime V, hrP2P = None, hrRegistration = None\<rparr> in
      case hsHost hs of
        None \<Rightarrow> resp
      | Some host \<Rightarrow> resp\<lparr>hrCurrentBlock := chGetCurrentBlock host, hrLastProcessed := chGetLastProcessedTime host,
                        hrP2P := fst (chGetPeerInfo host)\<rparr>)"

definition healthHandler :: "serverEnv \<Rightarrow> HealthServer \<Rightarrow> serverRequest \<Rightarrow> healthBody rwOp list" where
  "healthHandler V hs r =
     (if rqMethod r \<noteq> ''GET'' then httpError ''Method not allowed'' 405
      else
        (let acceptLower = toLower (rqHeader r ''Accept'') in
         if containsStr acceptLower ''text/html'' \<and> \<not> containsStr acceptLower ''application/json''
         then [SetHeader ''Content-Type'' ''text/html; charset=utf-8'', WriteHeader 200, WriteBody (HTMLPage (getHealthStatusPageHTML V hs))]
         else
           (let unhealthy = (case hsHost hs of None \<Rightarrow> False | Some host \<Rightarrow> \<not> chIsHealthy host);
                response = baseResponse V hs (if unhealthy then ''unhealthy'' else ''healthy'') in
            [SetHeader ''Content-Type'' ''application/json'']
            @ (if hrStatus response = ''unhealthy'' then [WriteHeader 503] else [])
            @ [WriteBody (HealthJSON response)])))"

abbreviation fiveMinutes :: int where "fiveMinutes \<equiv> 5 * 60 * 10 ^ 9"

definition ready :: "serverEnv \<Rightarrow> HealthServer \<Rightarrow> bool" where
  "ready V hs \<longleftrightarrow>
     (case hsHost hs of
        None \<Rightarrow> True
      | Some host \<Rightarrow> \<not> (svNow V - chGetLastProcessedTime host > fiveMinutes \<and> chGetLastProcessedTime host \<noteq> 0))
     \<and> checkDefraDB V hs"

definition registrationHandler :: "serverEnv \<Rightarrow> HealthServer \<Rightarrow> serverRequest \<Rightarrow> healthBody rwOp list" where
  "registrationHandler V hs r =
     (if rqMethod r \<noteq> ''GET'' then httpError ''Method not allowed'' 405
      else
        (let rest = (\<lambda>response.
               (if ready V hs then [] else [WriteHeader 503])
               @ [SetHeader ''Content-Type'' ''application/json'',
                  WriteBody (HealthJSON (if ready V hs then response else response\<lparr>hrStatus := ''not ready''\<rparr>))]) in
         case hsHost hs of
           None \<Rightarrow> rest (baseResponse V hs ''ready'')
         | Some host \<Rightarrow>
             if \<not> snd (chGetPeerInfo host) then [WriteHeader 503]
             else rest ((baseResponse V hs ''ready'')\<lparr>hrRegistration := fst (getRegistrationData V hs r)\<rparr>)))"

text \<open>The body of a redirect, a link to the same URL, is left out.\<close>

definition registrationAppHandler :: "serverEnv \<Rightarrow> HealthServer \<Rightarrow> serverRequest \<Rightarrow> healthBody rwOp list" where
  "registrationAppHandler V hs r =
     (case getRegistrationData V hs r of
        (Some reg, True) \<Rightarrow>
          if drEnabled reg then [SetHeader ''Location'' (buildRegistrationAppURL reg), WriteHeader 307]
          else httpError ''Registration data not available'' 503
      | _ \<Rightarrow> httpError ''Registration data not available'' 503)"

definition metricsHandler :: "serverEnv \<Rightarrow> HealthServer \<Rightarrow> serverRequest \<Rightarrow> healthBody rwOp list" where
  "metricsHandler V hs r =
     (if rqMethod r \<noteq> ''GET'' then httpError ''Method not allowed'' 405
      else
        (let uptime = svNow V - svStartTime V;
             resp = (case hsHost hs of
                None \<Rightarrow> \<lparr>mrBlocksProcessed = 0, mrCurrentBlock = 0, mrLastProcessedTime = 0, mrUptime = uptime\<rparr>
              | Some host \<Rightarrow> \<lparr>mrBlocksProcessed = chGetCurrentBlock host, mrCurrentBlock = chGetCurrentBlock host,
                              mrLastProcessedTime = chGetLastProcessedTime host, mrUptime = uptime\<rparr>) in
         [SetHeader ''Content-Type'' ''application/json'', WriteBody (StatsJSON resp)]))"

definition rootHandler :: "serverEnv \<Rightarrow> serverRequest \<Rightarrow> healthBody rwOp list" where
  "rootHandler V r =
     (if rqPath r \<noteq> ''/'' then httpError ''404 page not found'' 404
      else [SetHeader ''Content-Type'' ''application/json'', WriteBody (ServiceJSON (svNow V))])"

text \<open>The routes of \<open>NewHealthServer\<close>; \<open>metrics\<close> is the handler of the host's metrics.\<close>

definition serveHealth ::
  "(serverRequest \<Rightarrow> healthBody rwOp list) \<Rightarrow> serverEnv \<Rightarrow> HealthServer \<Rightarrow> serverRequest \<Rightarrow> healthBody rwOp list" where
  "serveHealth metrics V hs r =
     (if rqPath r = ''/health'' then healthHandler V hs r
      else if rqPath r = ''/registration'' then registrationHandler V hs r
      else if rqPath r = ''/registration-app'' then registrationAppHandler V hs r
      else if rqPath r = ''/stats'' then metricsHandler V hs r
      else if hsHasMetrics hs \<and> rqPath r = ''/metrics'' then metrics r
      else rootHandler V r)"

subsection \<open>The host as health checker\<close>

record hostView =
  hvHasNode :: bool
  hvHasPipeline :: bool
  hvMetrics :: "HostMetrics option"
  hvHasNetwork :: bool
  hvOwnAddresses :: "string list option"
  hvActivePeers :: "string list option"

definition IsHealthy :: "hostView \<Rightarrow> bool" where
  "IsHealthy h \<longleftrightarrow> hvHasNode h \<and> hvHasPipeline h"

definition GetCurrentBlock :: "hostView \<Rightarrow> int" where
  "GetCurrentBlock h = (case hvMetrics h of None \<Rightarrow> 0 | Some m \<Rightarrow> wrap64 (int (MostRecentBlock m)))"

definition GetLastProcessedTime :: "hostView \<Rightarrow> int" where
  "GetLastProcessedTime h = (case hvMetrics h of None \<Rightarrow> 0 | Some m \<Rightarrow> LastDocumentTime m)"

text \<open>The peers by identifier; the order of the list stands for the order of the map.\<close>

definition mergePeer :: "PeerInfo \<Rightarrow> (string \<times> string list) list \<Rightarrow> (string \<times> string list) list" where
  "mergePeer p m =
     AList.update (piID p) (case map_of m (piID p) of None \<Rightarrow> piAddresses p | Some as \<Rightarrow> as @ piAddresses p) m"

definition peerMap :: "PeerInfo list \<Rightarrow> (string \<times> string list) list" where
  "peerMap ps = fold mergePeer ps []"

definition mergedPeers :: "PeerInfo list \<Rightarrow> serverPeerInfo list" where
  "mergedPeers ps = map (\<lambda>(i, as). \<lparr>spID = i, spAddresses = as, spPublicKey = []\<rparr>) (peerMap ps)"

definition GetPeerInfo :: "hostView \<Rightarrow> P2PInfo \<times> bool" where
  "GetPeerInfo h =
     (let p2pInfo = \<lparr>p2Enabled = hvHasNetwork h, p2Self = None, p2PeerInfo = []\<rparr> in
      if \<not> hvHasNode h \<or> \<not> hvHasNetwork h then (p2pInfo, True)
      else (case hvOwnAddresses h of
          None \<Rightarrow> (p2pInfo, True)
        | Some own \<Rightarrow>
            (let ownPeers = fst (BootstrapIntoPeers own);
                 self = (case ownPeers of
                    [] \<Rightarrow> None
                  | p # _ \<Rightarrow> Some \<lparr>spID = piID p, spAddresses = concat (map piAddresses ownPeers), spPublicKey = []\<rparr>);
                 active = (case hvActivePeers h of None \<Rightarrow> [] | Some as \<Rightarrow> as) in
             (p2pInfo\<lparr>p2Self := self, p2PeerInfo := mergedPeers (fst (BootstrapIntoPeers active))\<rparr>, True))))"

definition checkerOf :: "hostView \<Rightarrow> (string \<Rightarrow> key_error + DefraPKRegistration \<times> PeerIDRegistration) \<Rightarrow> HealthChecker" where
  "checkerOf h sign =
     \<lparr>chIsHealthy = IsHealthy h, chGetCurrentBlock = GetCurrentBlock h, chGetLastProcessedTime = GetLastProcessedTime h,
      chGetPeerInfo = (Some (fst (GetPeerInfo h)), snd (GetPeerInfo h)), chSignMessages = sign\<rparr>"

subsection \<open>Hex\<close>

definition stripHex :: "string \<Rightarrow> string" where
  "stripHex s = (if hasPrefix s ''0x'' then drop 2 s else s)"

lemma hexDigit_not_x: "n < 16 \<Longrightarrow> hexDigit n \<notin> {CHR ''x'', CHR ''X''}"
proof -
  assume n: "n < 16"
  have "fromHexChar (CHR ''x'') = None" "fromHexChar (CHR ''X'') = None" by (simp_all add: fromHexChar_def)
  with fromHexChar_hexDigit [OF n] show ?thesis by auto
qed

lemma stripHex_normalizeHex: "stripHex (normalizeHex (hexEncode bs)) = hexEncode bs"
proof (cases bs)
  case (Cons b bs')
  have "hexEncode bs = hexDigit (unat b div 16) # hexDigit (unat b mod 16) # hexEncode bs'" using Cons by simp
  moreover have "hexDigit (unat b mod 16) \<notin> {CHR ''x'', CHR ''X''}" using byte_halves(2) hexDigit_not_x by blast
  ultimately have "normalizeHex (hexEncode bs) = ''0x'' @ hexEncode bs" by (auto simp: normalizeHex_def hasPrefix_def)
  then show ?thesis by (simp add: stripHex_def hasPrefix_def)
qed (simp add: stripHex_def normalizeHex_def hasPrefix_def)

lemma normalizeHex_idem: "normalizeHex (normalizeHex s) = normalizeHex s"
  by (auto simp: normalizeHex_def hasPrefix_def)

subsection \<open>Query strings\<close>

definition upperVal :: "char \<Rightarrow> nat" where
  "upperVal c = (let n = of_char c :: nat in if n \<le> 57 then n - 48 else n - 55)"

fun QueryUnescape :: "string \<Rightarrow> string" where
  "QueryUnescape [] = []"
| "QueryUnescape (c # cs) =
     (if c = CHR ''%'' then (case cs of a # b # r \<Rightarrow> char_of (16 * upperVal a + upperVal b) # QueryUnescape r | _ \<Rightarrow> [])
      else (if c = CHR ''+'' then CHR '' '' else c) # QueryUnescape cs)"

text \<open>The reference reading of a query string: pairs between \<open>&\<close>, cut at the first \<open>=\<close>.\<close>

definition readPair :: "string \<Rightarrow> string \<times> string" where
  "readPair s = (QueryUnescape (takeWhile (\<lambda>c. c \<noteq> CHR ''='') s), QueryUnescape (tl (dropWhile (\<lambda>c. c \<noteq> CHR ''='') s)))"

definition readQuery :: "string \<Rightarrow> (string \<times> string) list" where
  "readQuery s = map readPair (splitByte (CHR ''&'') s)"

lemma upper_code: "n < 16 \<Longrightarrow> (of_char (upperHex n) :: nat) = (if n < 10 then 48 + n else 55 + n)"
  by (simp add: upperHex_def)

lemma upperVal_upperHex: "n < 16 \<Longrightarrow> upperVal (upperHex n) = n"
  by (simp add: upperVal_def upper_code Let_def)

lemma upperHex_plain: "n < 16 \<Longrightarrow> upperHex n \<noteq> CHR ''&'' \<and> upperHex n \<noteq> CHR ''=''"
  using upper_code [of n] by (auto split: if_splits)

lemma escapeChar_plain: "CHR ''&'' \<notin> set (escapeChar c)" "CHR ''='' \<notin> set (escapeChar c)"
proof -
  have h: "(of_char c :: nat) div 16 < 16" "(of_char c :: nat) mod 16 < 16"
    by (simp_all add: div_less_iff_less_mult)
  show "CHR ''&'' \<notin> set (escapeChar c)" "CHR ''='' \<notin> set (escapeChar c)"
    using upperHex_plain [OF h(1)] upperHex_plain [OF h(2)] by (auto simp: escapeChar_def unreserved_def Let_def)
qed

lemma QueryUnescape_escapeChar: "QueryUnescape (escapeChar c @ r) = c # QueryUnescape r"
proof -
  have h: "(of_char c :: nat) div 16 < 16" "(of_char c :: nat) mod 16 < 16"
    by (simp_all add: div_less_iff_less_mult)
  have "char_of (16 * ((of_char c :: nat) div 16) + of_char c mod 16) = c" by simp
  then have enc: "QueryUnescape ([CHR ''%'', upperHex (of_char c div 16), upperHex (of_char c mod 16)] @ r) = c # QueryUnescape r"
    using upperVal_upperHex [OF h(1)] upperVal_upperHex [OF h(2)] by simp
  have "unreserved c \<Longrightarrow> c \<noteq> CHR ''%'' \<and> c \<noteq> CHR ''+''" by (auto simp: unreserved_def Let_def)
  then show ?thesis using enc unfolding escapeChar_def by auto
qed

lemma QueryUnescape_QueryEscape: "QueryUnescape (QueryEscape s) = s"
  by (induction s) (simp_all add: QueryEscape_def QueryUnescape_escapeChar)

lemma QueryEscape_plain: "CHR ''&'' \<notin> set (QueryEscape s)" "CHR ''='' \<notin> set (QueryEscape s)"
  using escapeChar_plain by (auto simp: QueryEscape_def)

lemma splitByte_none: "c \<notin> set s \<Longrightarrow> splitByte c s = [s]"
  by (induction s) auto

lemma splitByte_cut: "c \<notin> set s \<Longrightarrow> splitByte c (s @ c # t) = s # splitByte c t"
  by (induction s) auto

abbreviation pairText :: "string \<Rightarrow> string \<Rightarrow> string" where
  "pairText k v \<equiv> QueryEscape k @ ''='' @ QueryEscape v"

lemma pairText_plain: "CHR ''&'' \<notin> set (pairText k v)"
  using QueryEscape_plain(1) by auto

lemma readPair_pairText: "readPair (pairText k v) = (k, v)"
proof -
  have "takeWhile (\<lambda>c. c \<noteq> CHR ''='') (pairText k v) = QueryEscape k"
    "dropWhile (\<lambda>c. c \<noteq> CHR ''='') (pairText k v) = ''='' @ QueryEscape v"
    using QueryEscape_plain(2) [of k] by (auto simp: takeWhile_append dropWhile_append)
  then show ?thesis by (simp add: readPair_def QueryUnescape_QueryEscape)
qed

lemma readQuery_encodeQuery: "kvs \<noteq> [] \<Longrightarrow> readQuery (encodeQuery kvs) = kvs"
proof (induction kvs rule: encodeQuery.induct)
  case (2 k v)
  show ?case using splitByte_none [OF pairText_plain [of k v]] readPair_pairText [of k v] by (simp add: readQuery_def)
next
  case (3 k v kv kvs)
  then show ?case using splitByte_cut [OF pairText_plain [of k v], of "encodeQuery (kv # kvs)"] readPair_pairText [of k v]
    by (simp add: readQuery_def)
qed simp

subsection \<open>Peers\<close>

definition addressesOf :: "string \<Rightarrow> PeerInfo list \<Rightarrow> string list" where
  "addressesOf i ps = concat (map piAddresses (filter (\<lambda>p. piID p = i) ps))"

lemma map_of_mergePeer:
  "map_of (mergePeer p m) i =
     (if i = piID p then Some (case map_of m i of None \<Rightarrow> piAddresses p | Some as \<Rightarrow> as @ piAddresses p) else map_of m i)"
  by (simp add: mergePeer_def update_conv')

lemma merged_map:
  "map_of (peerMap ps) i = (if i \<in> piID ` set ps then Some (addressesOf i ps) else None)"
proof (induction ps rule: rev_induct)
  case (snoc p ps)
  have "addressesOf i ps = []" if "i \<notin> piID ` set ps" using that by (auto simp: addressesOf_def)
  then show ?case using snoc by (auto simp: peerMap_def map_of_mergePeer addressesOf_def)
qed (simp add: peerMap_def)

lemma merged_distinct: "distinct (map fst (peerMap ps))"
  by (induction ps rule: rev_induct) (simp_all add: peerMap_def mergePeer_def distinct_update)

lemma merged_entry:
  assumes "e \<in> set (mergedPeers ps)"
  shows "spID e \<in> piID ` set ps \<and> spAddresses e = addressesOf (spID e) ps"
proof -
  from assms obtain i as where e: "e = \<lparr>spID = i, spAddresses = as, spPublicKey = []\<rparr>"
    and "(i, as) \<in> set (peerMap ps)" by (auto simp: mergedPeers_def)
  then have "map_of (peerMap ps) i = Some as" using merged_distinct by (rule_tac map_of_is_SomeI)
  then show ?thesis using merged_map [of ps i] e by (auto split: if_splits)
qed

lemma merged_ids: "distinct (map spID (mergedPeers ps))" "spID ` set (mergedPeers ps) = piID ` set ps"
proof -
  have m: "map spID (mergedPeers ps) = map fst (peerMap ps)"
    by (auto simp: mergedPeers_def)
  show "distinct (map spID (mergedPeers ps))" unfolding m by (rule merged_distinct)
  have "spID ` set (mergedPeers ps) = dom (map_of (peerMap ps))"
    using arg_cong [OF m, of set] by (simp add: dom_map_of_conv_image_fst)
  also have "\<dots> = piID ` set ps" by (auto simp: merged_map split: if_splits)
  finally show "spID ` set (mergedPeers ps) = piID ` set ps" .
qed

subsection \<open>The interface of the server\<close>

text \<open>What the server relies on: peer information that comes without an error.\<close>

locale health_source =
  fixes checker :: HealthChecker
  assumes peer_info_available: "snd (chGetPeerInfo checker)"
begin

lemma registration_reply:
  assumes "hsHost hs = Some checker" "rqMethod r = ''GET''"
  shows "rpStatus (reply (registrationHandler V hs r)) = (if ready V hs then 200 else 503)"
    "map_of (rpHeaders (reply (registrationHandler V hs r))) ''Content-Type''
       = (if ready V hs then Some ''application/json'' else None)"
    "\<exists>resp. rpBody (reply (registrationHandler V hs r)) = [HealthJSON resp]
       \<and> hrStatus resp = (if ready V hs then ''ready'' else ''not ready'')
       \<and> hrRegistration resp = fst (getRegistrationData V hs r)"
  using assms peer_info_available
  by (auto simp: registrationHandler_def reply_def baseResponse_def Let_def)

lemma health_reply:
  assumes "hsHost hs = Some checker" "rqMethod r = ''GET''" "\<not> containsStr (toLower (rqHeader r ''Accept'')) ''text/html''"
  shows "rpStatus (reply (healthHandler V hs r)) = (if chIsHealthy checker then 200 else 503)"
    "map_of (rpHeaders (reply (healthHandler V hs r))) ''Content-Type'' = Some ''application/json''"
  using assms by (auto simp: healthHandler_def reply_def baseResponse_def Let_def)

end

interpretation host_checker: health_source "checkerOf h sign" for h sign
  by unfold_locales (auto simp: checkerOf_def GetPeerInfo_def Let_def split: option.splits)

subsection \<open>Properties\<close>

text \<open>
  The host reports each connected peer once, with all the addresses it is connected by, in the
  order in which the node gave them, and reports no other peer.
\<close>

theorem peer_info_merged:
  assumes "hvHasNode h" "hvHasNetwork h" "hvOwnAddresses h = Some own" "hvActivePeers h = Some active"
  shows "distinct (map spID (p2PeerInfo (fst (GetPeerInfo h))))
    \<and> spID ` set (p2PeerInfo (fst (GetPeerInfo h))) = piID ` set (fst (BootstrapIntoPeers active))
    \<and> (\<forall>e \<in> set (p2PeerInfo (fst (GetPeerInfo h))).
         spAddresses e = concat (map piAddresses (filter (\<lambda>p. piID p = spID e) (fst (BootstrapIntoPeers active)))))"
  using assms merged_ids merged_entry by (auto simp: GetPeerInfo_def addressesOf_def Let_def)

text \<open>
  The registration endpoint answers a GET with the registration data, ready with status 200 or not
  ready with 503, ready exactly when the database answers and no processed document is older than five
  minutes; only the ready answer is marked as JSON, since otherwise the header is set after the status
  line was sent.
\<close>

theorem registration_reply_exact:
  assumes "hsHost hs = Some (checkerOf h sign)" "rqMethod r = ''GET''"
  shows "rpStatus (reply (registrationHandler V hs r)) = (if ready V hs then 200 else 503)
    \<and> map_of (rpHeaders (reply (registrationHandler V hs r))) ''Content-Type'' = (if ready V hs then Some ''application/json'' else None)
    \<and> (ready V hs \<longleftrightarrow> checkDefraDB V hs \<and> (GetLastProcessedTime h = 0 \<or> svNow V - GetLastProcessedTime h \<le> fiveMinutes))"
  using host_checker.registration_reply [OF assms] assms(1) by (auto simp: ready_def checkerOf_def)



subsection \<open>Witnesses\<close>

definition demoHostView :: hostView where
  "demoHostView = \<lparr>hvHasNode = True, hvHasPipeline = True, hvMetrics = Some (NewHostMetrics 0), hvHasNetwork = True,
     hvOwnAddresses = Some [], hvActivePeers = Some [''/ip4/1.1.1.1/p2p/B'', ''/ip4/2.2.2.2/p2p/B'']\<rparr>"

definition demoServerEnv :: serverEnv where
  "demoServerEnv = \<lparr>svGet = (\<lambda>_. None), svReadFile = (\<lambda>_. None), svEmbeddedPage = [], svStartTime = 0, svNow = 9, svParseIP = (\<lambda>_. None),
     svURLString = (\<lambda>scheme host path. scheme @ ''://'' @ host @ path), svCreateDIDKey = (\<lambda>_. None)\<rparr>"

definition demoRegRequest :: serverRequest where
  "demoRegRequest = \<lparr>rqMethod = ''GET'', rqPath = ''/registration'', rqHeader = (\<lambda>_. []), rqHost = ''example.org'', rqTLS = False, rqURLHost = None\<rparr>"

definition demoServer :: "string \<Rightarrow> HealthServer" where
  "demoServer url = \<lparr>hsHost = Some (checkerOf demoHostView (\<lambda>m. fst (SignMessages demoDisk demoKeyLib demoEdLib (Some (demoHostCfg ''/data'')) m demoRing))),
     hsDefraURL = url, hsHasMetrics = True, hsShinzoHubRESTBase = []\<rparr>"

lemma demo_peers:
  "BootstrapIntoPeers [''/ip4/1.1.1.1/p2p/B'', ''/ip4/2.2.2.2/p2p/B''] =
     ([\<lparr>piAddresses = [''/ip4/1.1.1.1''], piID = ''B''\<rparr>, \<lparr>piAddresses = [''/ip4/2.2.2.2''], piID = ''B''\<rparr>], 0)"
  by (simp add: BootstrapIntoPeers_def splitStr.simps hasPrefix_def)

theorem peer_info_merged_witness:
  "\<exists>e. p2PeerInfo (fst (GetPeerInfo demoHostView)) = [e] \<and> spID e = ''B'' \<and> spAddresses e = [''/ip4/1.1.1.1'', ''/ip4/2.2.2.2'']"
proof -
  have view: "hvHasNode demoHostView" "hvHasNetwork demoHostView" "hvOwnAddresses demoHostView = Some []"
    "hvActivePeers demoHostView = Some [''/ip4/1.1.1.1/p2p/B'', ''/ip4/2.2.2.2/p2p/B'']" by (simp_all add: demoHostView_def)
  let ?l = "p2PeerInfo (fst (GetPeerInfo demoHostView))"
  have m: "distinct (map spID ?l)" "spID ` set ?l = {''B''}"
    "\<forall>e \<in> set ?l. spID e = ''B'' \<longrightarrow> spAddresses e = [''/ip4/1.1.1.1'', ''/ip4/2.2.2.2'']"
    using peer_info_merged [OF view] by (simp_all add: demo_peers)
  have "length ?l = card (spID ` set ?l)" using m(1) by (metis distinct_card length_map list.set_map)
  then have "length ?l = 1" using m(2) by simp
  then obtain e where "?l = [e]" by (auto simp: length_Suc_conv)
  with m show ?thesis by auto
qed

theorem registration_reply_exact_witness:
  "rpStatus (reply (registrationHandler demoServerEnv (demoServer ''10.0.0.5:9181'') demoRegRequest)) = 503
   \<and> map_of (rpHeaders (reply (registrationHandler demoServerEnv (demoServer ''10.0.0.5:9181'') demoRegRequest))) ''Content-Type'' = None"
proof -
  have notReady: "\<not> ready demoServerEnv (demoServer ''10.0.0.5:9181'')"
    by (simp add: ready_def demoServer_def checkDefraDB_def demoServerEnv_def containsStr_def hasPrefix_def)
  have host: "hsHost (demoServer ''10.0.0.5:9181'') =
      Some (checkerOf demoHostView (\<lambda>m. fst (SignMessages demoDisk demoKeyLib demoEdLib (Some (demoHostCfg ''/data'')) m demoRing)))"
    by (simp add: demoServer_def)
  have "rqMethod demoRegRequest = ''GET''" by (simp add: demoRegRequest_def)
  from registration_reply_exact [OF host this, of demoServerEnv] notReady show ?thesis by (simp only: if_False)
qed

lemma demo_registration: "\<exists>reg. getRegistrationData demoServerEnv (demoServer []) demoRegRequest = (Some reg, True)"
proof -
  obtain pk pid w' where "SignMessages demoDisk demoKeyLib demoEdLib (Some (demoHostCfg ''/data'')) registrationMessage demoRing = (Inr (pk, pid), w')"
    using demo_signed by blast
  then show ?thesis by (simp add: getRegistrationData_def demoServer_def checkerOf_def Let_def)
qed


end
