(* ===== verification/Wasm_Registry.thy ===== *)
theory Wasm_Registry
  imports View_Model
begin

text \<open>
  \<open>pkg/view/wasmRegistry.go\<close>: the local store of WASM lens files with its table of known URLs.
  The registry directory is an absolute path, files are the map \<open>files\<close> of \<open>View_Model\<close>. What
  a request for a URL yields (\<open>fetch\<close>: nothing, or the status, the bytes received and whether
  the body came in full), whether a file can be created or renamed, and SHA-256 are arguments.
\<close>

record WASMRegistry =
  registryPath :: string
  cached :: "string \<rightharpoonup> string"

datatype wasm_error = RequestFailed | ErrHTTPErrorResponse nat | CreateFailed | CopyFailed | RenameFailed

record wasmEnv =
  sha256 :: "string \<Rightarrow> byte list"
  fetch :: "string \<Rightarrow> (nat \<times> byte list \<times> bool) option"
  creatable :: "string \<Rightarrow> bool"
  renamable :: "string \<Rightarrow> bool"

definition NewWASMRegistry :: "bool \<Rightarrow> string \<Rightarrow> WASMRegistry option" where
  "NewWASMRegistry mkdirOk path = (if mkdirOk then Some \<lparr>registryPath = path, cached = Map.empty\<rparr> else None)"

definition urlToFilename :: "(string \<Rightarrow> byte list) \<Rightarrow> string \<Rightarrow> string" where
  "urlToFilename sha url =
     (let parts = splitByte (CHR ''/'') url in
      if length parts > 0 \<and> hasSuffix (last parts) ''.wasm''
      then hexEncode (take 4 (sha url)) @ ''_'' @ last parts
      else hexEncode (sha url) @ ''.wasm'')"

definition cacheEntry :: "string \<Rightarrow> string \<Rightarrow> WASMRegistry \<Rightarrow> WASMRegistry" where
  "cacheEntry url localPath r = r\<lparr>cached := (cached r)(url \<mapsto> localPath)\<rparr>"

definition downloadWASM :: "wasmEnv \<Rightarrow> string \<Rightarrow> string \<Rightarrow> files \<Rightarrow> wasm_error option \<times> files" where
  "downloadWASM env url destPath fs =
     (case fetch env url of
        None \<Rightarrow> (Some RequestFailed, fs)
      | Some (status, body, whole) \<Rightarrow>
          if status \<noteq> 200 then (Some (ErrHTTPErrorResponse status), fs)
          else
            (let tmpPath = destPath @ ''.tmp'' in
             if \<not> creatable env tmpPath then (Some CreateFailed, fs)
             else
               (let fs1 = fs(tmpPath \<mapsto> body) in
                if \<not> whole then (Some CopyFailed, fs1(tmpPath := None))
                else if \<not> renamable env destPath then (Some RenameFailed, fs1)
                else (None, fs1(destPath \<mapsto> body, tmpPath := None)))))"

definition localPathOf :: "wasmEnv \<Rightarrow> WASMRegistry \<Rightarrow> string \<Rightarrow> string" where
  "localPathOf env r url = registryPath r @ ''/'' @ urlToFilename (sha256 env) url"

definition EnsureWASM ::
  "wasmEnv \<Rightarrow> string \<Rightarrow> WASMRegistry \<Rightarrow> files \<Rightarrow> (wasm_error + string) \<times> WASMRegistry \<times> files" where
  "EnsureWASM env wasmURL r fs =
     (case cached r wasmURL of
        Some localPath \<Rightarrow> (Inr localPath, r, fs)
      | None \<Rightarrow>
          (let localPath = localPathOf env r wasmURL; fileURL = ''file://'' @ localPath in
           if fs localPath \<noteq> None then (Inr fileURL, cacheEntry wasmURL fileURL r, fs)
           else (case downloadWASM env wasmURL localPath fs of
               (Some e, fs') \<Rightarrow> (Inl e, r, fs')
             | (None, fs') \<Rightarrow> (Inr fileURL, cacheEntry wasmURL fileURL r, fs'))))"

text \<open>The results map in the order of the URLs, and the number of failures.\<close>

fun EnsureAllWASM ::
  "wasmEnv \<Rightarrow> string list \<Rightarrow> WASMRegistry \<Rightarrow> files
     \<Rightarrow> ((string \<times> string) list \<times> nat) \<times> WASMRegistry \<times> files" where
  "EnsureAllWASM env [] r fs = (([], 0), r, fs)"
| "EnsureAllWASM env (url # urls) r fs =
     (case EnsureWASM env url r fs of
        (res, r1, fs1) \<Rightarrow>
          (case EnsureAllWASM env urls r1 fs1 of
             ((results, errors), r2, fs2) \<Rightarrow>
               (case res of
                  Inl e \<Rightarrow> ((results, errors + 1), r2, fs2)
                | Inr localPath \<Rightarrow> (((url, localPath) # results, errors), r2, fs2))))"

definition remoteURL :: "string \<Rightarrow> bool" where
  "remoteURL p \<longleftrightarrow> hasPrefix p ''http://'' \<or> hasPrefix p ''https://''"

text \<open>The sources are the paths of the lenses; their labels are only logged.\<close>

fun SyncLensWASM ::
  "wasmEnv \<Rightarrow> string list \<Rightarrow> WASMRegistry \<Rightarrow> files
     \<Rightarrow> (wasm_error + (string \<times> string) list) \<times> WASMRegistry \<times> files" where
  "SyncLensWASM env [] r fs = (Inr [], r, fs)"
| "SyncLensWASM env (src # srcs) r fs =
     (case (if hasPrefix src ''file://'' then (Inr src, r, fs)
            else if remoteURL src then EnsureWASM env src r fs
            else (Inr src, r, fs)) of
        (Inl e, r1, fs1) \<Rightarrow> (Inl e, r1, fs1)
      | (Inr p, r1, fs1) \<Rightarrow>
          (case SyncLensWASM env srcs r1 fs1 of
             (Inl e, r2, fs2) \<Rightarrow> (Inl e, r2, fs2)
           | (Inr pathMap, r2, fs2) \<Rightarrow> (Inr ((src, p) # pathMap), r2, fs2)))"

text \<open>\<open>entries\<close> is what reading the registry directory yields.\<close>

definition ListCachedWASM :: "string list option \<Rightarrow> string list" where
  "ListCachedWASM entries = (case entries of None \<Rightarrow> [] | Some es \<Rightarrow> filter (\<lambda>f. hasSuffix f ''.wasm'') es)"

definition CleanupUnused ::
  "wasmEnv \<Rightarrow> string list option \<Rightarrow> (string \<Rightarrow> bool) \<Rightarrow> string list \<Rightarrow> WASMRegistry \<Rightarrow> files \<Rightarrow> nat option \<times> files" where
  "CleanupUnused env entries removable activeURLs r fs =
     (let activeFilenames = map (urlToFilename (sha256 env)) activeURLs in
      case entries of
        None \<Rightarrow> (None, fs)
      | Some es \<Rightarrow>
          (let gone = filter (\<lambda>f. hasSuffix f ''.wasm'' \<and> f \<notin> set activeFilenames \<and> removable f) es in
           (Some (length gone), fold (\<lambda>f m. m(registryPath r @ ''/'' @ f := None)) gone fs)))"

text \<open>The counters downloaded and cached, and the first error with its URL.\<close>

fun StartupSync ::
  "wasmEnv \<Rightarrow> string list \<Rightarrow> nat \<Rightarrow> nat \<Rightarrow> (string \<times> wasm_error) option \<Rightarrow> WASMRegistry \<Rightarrow> files
     \<Rightarrow> (nat \<times> nat \<times> (string \<times> wasm_error) option) \<times> WASMRegistry \<times> files" where
  "StartupSync env [] downloaded cachedCount err r fs = ((downloaded, cachedCount, err), r, fs)"
| "StartupSync env (url # urls) downloaded cachedCount err r fs =
     (if \<not> remoteURL url then StartupSync env urls downloaded cachedCount err r fs
      else
        (let localPath = localPathOf env r url in
         if fs localPath \<noteq> None
         then StartupSync env urls downloaded (cachedCount + 1) err (cacheEntry url (''file://'' @ localPath) r) fs
         else (case downloadWASM env url localPath fs of
             (Some e, fs') \<Rightarrow>
               StartupSync env urls downloaded cachedCount (if err = None then Some (url, e) else err) r fs'
           | (None, fs') \<Rightarrow>
               StartupSync env urls (downloaded + 1) cachedCount err (cacheEntry url (''file://'' @ localPath) r) fs')))"

definition GetLocalPath :: "WASMRegistry \<Rightarrow> string \<Rightarrow> string option" where
  "GetLocalPath r wasmURL = cached r wasmURL"

subsection \<open>The table names files that exist\<close>

definition tableOk :: "wasmEnv \<Rightarrow> WASMRegistry \<Rightarrow> files \<Rightarrow> bool" where
  "tableOk env r fs \<longleftrightarrow>
     (\<forall>url p. cached r url = Some p \<longrightarrow> p = ''file://'' @ localPathOf env r url \<and> fs (localPathOf env r url) \<noteq> None)"

lemma localPathOf_cacheEntry [simp]: "localPathOf env (cacheEntry u p r) = localPathOf env r"
  by (simp add: localPathOf_def cacheEntry_def fun_eq_iff)

lemma urlToFilename_wasm: "\<exists>x. urlToFilename sha url = x @ ''.wasm''"
proof (cases "hasSuffix (last (splitByte (CHR ''/'') url)) ''.wasm''")
  case True
  then obtain y where "last (splitByte (CHR ''/'') url) = y @ ''.wasm''"
    by (metis append_take_drop_id hasSuffix_def)
  with True show ?thesis by (auto simp: urlToFilename_def Let_def)
next
  case False
  then show ?thesis by (auto simp: urlToFilename_def Let_def)
qed

lemma localPath_not_tmp: "localPathOf env r url \<noteq> localPathOf env r' url' @ ''.tmp''"
proof
  assume e: "localPathOf env r url = localPathOf env r' url' @ ''.tmp''"
  obtain x where "urlToFilename (sha256 env) url = x @ ''.wasm''" using urlToFilename_wasm by blast
  then have "last (localPathOf env r url) = CHR ''m''" by (simp add: localPathOf_def)
  then show False unfolding e by simp
qed

text \<open>A download changes the destination only to a complete body of a response with status 200.\<close>

lemma downloadWASM_spec:
  assumes "downloadWASM env url (localPathOf env r url) fs = (e, fs')"
  shows "(\<forall>f. f \<noteq> localPathOf env r url \<and> f \<noteq> localPathOf env r url @ ''.tmp'' \<longrightarrow> fs' f = fs f)
    \<and> (e = None \<longrightarrow> (\<exists>body. fetch env url = Some (200, body, True) \<and> fs' (localPathOf env r url) = Some body))
    \<and> (e \<noteq> None \<longrightarrow> fs' (localPathOf env r url) = fs (localPathOf env r url))"
  using assms localPath_not_tmp [of env r url r url]
  by (auto simp: downloadWASM_def Let_def split: option.splits prod.splits if_splits)

lemma tableOk_keep:
  assumes "tableOk env r fs" "\<And>url. fs (localPathOf env r url) \<noteq> None \<Longrightarrow> fs' (localPathOf env r url) \<noteq> None"
  shows "tableOk env r fs'"
  using assms by (auto simp: tableOk_def)

lemma tableOk_add:
  assumes "tableOk env r fs" "fs (localPathOf env r url) \<noteq> None"
  shows "tableOk env (cacheEntry url (''file://'' @ localPathOf env r url) r) fs"
  using assms by (auto simp: tableOk_def cacheEntry_def localPathOf_def)

lemma downloadWASM_tableOk:
  assumes "tableOk env r fs" "downloadWASM env url (localPathOf env r url) fs = (e, fs')"
  shows "tableOk env r fs'" "e = None \<Longrightarrow> fs' (localPathOf env r url) \<noteq> None"
proof -
  note d = downloadWASM_spec [OF assms(2)]
  show "e = None \<Longrightarrow> fs' (localPathOf env r url) \<noteq> None" using d by auto
  show "tableOk env r fs'"
  proof (rule tableOk_keep [OF assms(1)])
    fix u assume u: "fs (localPathOf env r u) \<noteq> None"
    have n: "localPathOf env r u \<noteq> localPathOf env r url @ ''.tmp''" by (rule localPath_not_tmp)
    show "fs' (localPathOf env r u) \<noteq> None"
    proof (cases "localPathOf env r u = localPathOf env r url")
      case True
      with d u show ?thesis by (cases e) auto
    next
      case False
      with d n u show ?thesis by auto
    qed
  qed
qed

lemma EnsureWASM_tableOk:
  assumes "tableOk env r fs" "EnsureWASM env url r fs = (res, r', fs')"
  shows "tableOk env r' fs' \<and> registryPath r' = registryPath r"
  using assms downloadWASM_tableOk [OF assms(1)] tableOk_add
  by (fastforce simp: EnsureWASM_def Let_def cacheEntry_def split: option.splits if_splits prod.splits)

lemma EnsureAllWASM_tableOk:
  "tableOk env r fs \<Longrightarrow> EnsureAllWASM env urls r fs = (res, r', fs') \<Longrightarrow> tableOk env r' fs' \<and> registryPath r' = registryPath r"
proof (induction urls arbitrary: r fs res r' fs')
  case (Cons url urls)
  obtain x r1 fs1 where e: "EnsureWASM env url r fs = (x, r1, fs1)" by (metis prod_cases3)
  obtain y r2 fs2 where a: "EnsureAllWASM env urls r1 fs1 = (y, r2, fs2)" by (metis prod_cases3)
  from Cons.prems(2) e a have "r' = r2" "fs' = fs2" by (auto split: sum.splits prod.splits)
  with Cons.IH [OF _ a] EnsureWASM_tableOk [OF Cons.prems(1) e] show ?case by simp
qed simp

lemma StartupSync_tableOk:
  "tableOk env r fs \<Longrightarrow> StartupSync env urls d c err r fs = (res, r', fs') \<Longrightarrow> tableOk env r' fs'"
proof (induction urls arbitrary: d c err r fs)
  case (Cons url urls)
  note IH = Cons.IH
  let ?p = "localPathOf env r url"
  consider "\<not> remoteURL url" | "remoteURL url" "fs ?p \<noteq> None" | e fs1 where "remoteURL url" "fs ?p = None"
    "downloadWASM env url ?p fs = (e, fs1)" by (cases "downloadWASM env url ?p fs") auto
  then show ?case
  proof cases
    case 1
    with Cons.prems IH show ?thesis by simp
  next
    case 2
    with Cons.prems IH [OF tableOk_add [OF Cons.prems(1) 2(2)]] show ?thesis by (simp add: Let_def)
  next
    case 3
    note d = downloadWASM_tableOk [OF Cons.prems(1) 3(3)]
    show ?thesis
    proof (cases e)
      case None
      with Cons.prems 3 IH [OF tableOk_add [OF d(1) d(2)]] show ?thesis by (simp add: Let_def)
    next
      case (Some x)
      with Cons.prems 3 IH [OF d(1)] show ?thesis by (simp add: Let_def)
    qed
  qed
qed simp

subsection \<open>Properties\<close>

text \<open>
  C21. Ensuring a lens file never exposes a partial download: on success the answer is the
  URL's own path below the registry directory and the file is there; if it was not there
  before, its content is the complete body of a response with status 200. On failure the table
  is unchanged and no file appeared at that path. In both cases the table names existing files.
\<close>

theorem ensure_wasm_sound:
  assumes "tableOk env r fs" "EnsureWASM env url r fs = (res, r', fs')"
  shows "tableOk env r' fs'
    \<and> (case res of
         Inr p \<Rightarrow> p = ''file://'' @ localPathOf env r url \<and> fs' (localPathOf env r url) \<noteq> None
           \<and> (fs (localPathOf env r url) = None \<longrightarrow>
                (\<exists>body. fetch env url = Some (200, body, True) \<and> fs' (localPathOf env r url) = Some body))
       | Inl e \<Rightarrow> r' = r \<and> fs' (localPathOf env r url) = None)"
proof -
  let ?p = "localPathOf env r url"
  consider p where "cached r url = Some p" | "cached r url = None" "fs ?p \<noteq> None"
    | e fs1 where "cached r url = None" "fs ?p = None" "downloadWASM env url ?p fs = (e, fs1)"
    by (cases "cached r url"; cases "downloadWASM env url ?p fs") auto
  then have "case res of
         Inr p \<Rightarrow> p = ''file://'' @ ?p \<and> fs' ?p \<noteq> None
           \<and> (fs ?p = None \<longrightarrow> (\<exists>body. fetch env url = Some (200, body, True) \<and> fs' ?p = Some body))
       | Inl e \<Rightarrow> r' = r \<and> fs' ?p = None"
  proof cases
    case 1
    with assms show ?thesis by (auto simp: EnsureWASM_def tableOk_def)
  next
    case 2
    with assms show ?thesis by (auto simp: EnsureWASM_def Let_def)
  next
    case 3
    note d = downloadWASM_spec [OF 3(3)]
    show ?thesis
    proof (cases e)
      case None
      with assms(2) 3 have r: "res = Inr (''file://'' @ ?p)" "fs' = fs1" by (simp_all add: EnsureWASM_def Let_def)
      from d None obtain body where "fetch env url = Some (200, body, True)" "fs1 ?p = Some body" by blast
      with r show ?thesis by simp
    next
      case (Some x)
      with assms(2) 3 have "res = Inl x" "r' = r" "fs' = fs1" by (simp_all add: EnsureWASM_def Let_def)
      moreover have "fs1 ?p = fs ?p" using d Some by blast
      ultimately show ?thesis using 3(2) by simp
    qed
  qed
  with EnsureWASM_tableOk [OF assms] show ?thesis by blast
qed

definition demoEnv :: wasmEnv where
  "demoEnv = \<lparr>sha256 = \<lambda>s. [1, 2, 3, 4], fetch = \<lambda>u. Some (200, [7], True), creatable = \<lambda>p. True, renamable = \<lambda>p. True\<rparr>"

definition demoReg :: WASMRegistry where
  "demoReg = \<lparr>registryPath = ''/r'', cached = Map.empty\<rparr>"

lemma demo_path: "localPathOf demoEnv demoReg ''http://h/a.wasm'' = ''/r/01020304_a.wasm''"
  by code_simp

theorem ensure_wasm_sound_witness:
  "\<exists>r' fs'. EnsureWASM demoEnv ''http://h/a.wasm'' demoReg Map.empty = (Inr ''file:///r/01020304_a.wasm'', r', fs')
     \<and> tableOk demoEnv r' fs' \<and> fs' ''/r/01020304_a.wasm'' = Some [7]"
proof -
  let ?u = "''http://h/a.wasm''"
  have t: "tableOk demoEnv demoReg Map.empty" by (simp add: tableOk_def demoReg_def)
  have "fst (EnsureWASM demoEnv ?u demoReg Map.empty) = Inr ''file:///r/01020304_a.wasm''" by code_simp
  then obtain r' fs' where e: "EnsureWASM demoEnv ?u demoReg Map.empty = (Inr ''file:///r/01020304_a.wasm'', r', fs')"
    by (metis prod_cases3 fst_conv)
  from ensure_wasm_sound [OF t e] have "tableOk demoEnv r' fs'" "fs' ''/r/01020304_a.wasm'' = Some [7]"
    unfolding demo_path by (simp_all add: demoEnv_def)
  with e show ?thesis by blast
qed

text \<open>
  Cleaning up leaves the table stale: the file of a URL that is not active is deleted, but
  its table entry stays, so the next request for the URL answers with the path of a file that
  does not exist and does not download it again.
\<close>

theorem cleanup_leaves_stale_entry:
  assumes "tableOk env r fs" "cached r url = Some p"
    and "urlToFilename (sha256 env) url \<in> set es" "removable (urlToFilename (sha256 env) url)"
    and "urlToFilename (sha256 env) url \<notin> urlToFilename (sha256 env) ` set active"
    and "CleanupUnused env (Some es) removable active r fs = (n, fs')"
  shows "fs' (localPathOf env r url) = None \<and> EnsureWASM env url r fs' = (Inr (''file://'' @ localPathOf env r url), r, fs')"
proof -
  obtain x where "urlToFilename (sha256 env) url = x @ ''.wasm''" using urlToFilename_wasm by blast
  then have s: "hasSuffix (urlToFilename (sha256 env) url) ''.wasm''" by (simp add: hasSuffix_def)
  have gone: "fold (\<lambda>f m. m(d @ f := None)) fl m k = (if k \<in> (\<lambda>f. d @ f) ` set fl then None else m k)"
    for d :: string and fl and m :: files and k by (induction fl arbitrary: m) auto
  have "fs' (localPathOf env r url) = None"
    using assms(3-6) s gone [of "registryPath r @ ''/''"] by (auto simp: CleanupUnused_def localPathOf_def Let_def)
  moreover have "p = ''file://'' @ localPathOf env r url" using assms(1,2) by (simp add: tableOk_def)
  ultimately show ?thesis using assms(2) by (simp add: EnsureWASM_def)
qed

theorem cleanup_leaves_stale_entry_witness:
  "\<exists>r fs n fs'. tableOk demoEnv r fs \<and> CleanupUnused demoEnv (Some [''01020304_a.wasm'']) (\<lambda>f. True) [] r fs = (n, fs')
     \<and> fs' ''/r/01020304_a.wasm'' = None \<and> fst (EnsureWASM demoEnv ''http://h/a.wasm'' r fs') = Inr ''file:///r/01020304_a.wasm''"
proof -
  let ?u = "''http://h/a.wasm''"
  let ?r = "demoReg\<lparr>cached := [?u \<mapsto> ''file:///r/01020304_a.wasm'']\<rparr>" and ?fs = "[''/r/01020304_a.wasm'' \<mapsto> [7]]"
  have lp: "localPathOf demoEnv ?r ?u = ''/r/01020304_a.wasm''" by code_simp
  have fn: "urlToFilename (sha256 demoEnv) ?u = ''01020304_a.wasm''" by code_simp
  have t: "tableOk demoEnv ?r ?fs" unfolding tableOk_def using lp by auto
  obtain n fs' where c: "CleanupUnused demoEnv (Some [''01020304_a.wasm'']) (\<lambda>f. True) [] ?r ?fs = (n, fs')" by fastforce
  have "fs' (localPathOf demoEnv ?r ?u) = None
      \<and> EnsureWASM demoEnv ?u ?r fs' = (Inr (''file://'' @ localPathOf demoEnv ?r ?u), ?r, fs')"
    by (rule cleanup_leaves_stale_entry [OF t _ _ _ _ c]) (simp_all add: fn)
  with t c show ?thesis unfolding lp by (intro exI [of _ ?r] exI [of _ ?fs] exI [of _ n] exI [of _ fs']) simp
qed

end
