(* ===== verification/View_Manager.thy ===== *)
theory View_Manager
  imports Wasm_Registry Host_Metrics "HOL-Library.AList"
begin

text \<open>
  \<open>pkg/view/viewManager.go\<close> with the persistence of views in \<open>wasmRegistry.go\<close>: the table of
  active views, the registration of a view step by step, and the start-up load. The state of
  the manager carries the state of DefraDB, the files and the host's metrics (absent when there
  is no callback). The map of active views is an association list with distinct names; Go
  iterates it in any order.
\<close>

record ActiveView =
  avLens :: LensConfig
  avContractAddress :: string

record 'db viewEnv =
  defra :: "'db defraOps"
  hashOf :: "string \<Rightarrow> byte list"
  writable :: "string \<Rightarrow> bool"
  wasmDir :: "string option"
  parseArgs :: "string \<Rightarrow> gfields option"

record 'db Manager =
  activeViews :: "(string \<times> ActiveView) list"
  dbState :: 'db
  disk :: files
  metrics :: "HostMetrics option"
  wasmRegistry :: "WASMRegistry option"

abbreviation CollectionChain :: string where "CollectionChain \<equiv> ''Ethereum__Mainnet''"

definition NewManager :: "'db \<Rightarrow> files \<Rightarrow> HostMetrics option \<Rightarrow> WASMRegistry option \<Rightarrow> 'db Manager" where
  "NewManager db fs ms reg = \<lparr>activeViews = [], dbState = db, disk = fs, metrics = ms, wasmRegistry = reg\<rparr>"

definition GetActiveViewNames :: "'db Manager \<Rightarrow> string list" where
  "GetActiveViewNames m = map fst (activeViews m)"

definition GetActiveViewDetails :: "'db Manager \<Rightarrow> string list list" where
  "GetActiveViewDetails m = map (\<lambda>(name, av). [name, DestinationCollectionVersionID (avLens av)]) (activeViews m)"

definition GetViewCount :: "'db Manager \<Rightarrow> nat" where
  "GetViewCount m = length (activeViews m)"

definition IsActive :: "'db Manager \<Rightarrow> string \<Rightarrow> bool" where
  "IsActive m viewName \<longleftrightarrow> map_of (activeViews m) viewName \<noteq> None"

definition ContractAddress :: "'db Manager \<Rightarrow> string \<Rightarrow> string option" where
  "ContractAddress m viewName =
     (case map_of (activeViews m) viewName of
        None \<Rightarrow> None
      | Some av \<Rightarrow> if avContractAddress av = [] then None else Some (avContractAddress av))"

subsection \<open>Registration\<close>

definition fixQueryInputData :: "View \<Rightarrow> View" where
  "fixQueryInputData v =
     (if containsStr (vQuery v) ''inputData'' then v\<lparr>vQuery := replaceAll (vQuery v) ''inputData'' ''input''\<rparr> else v)"

definition trimLeftChar :: "char \<Rightarrow> bool" where
  "trimLeftChar c \<longleftrightarrow> c \<in> {CHR '' '', CHR 0x0A, CHR 0x09, CHR 0x0D}"

definition nameEnd :: "char \<Rightarrow> bool" where
  "nameEnd c \<longleftrightarrow> c \<in> {CHR ''{'', CHR '' '', CHR 0x0A, CHR 0x09}"

definition extractCollectionFromQuery :: "string \<Rightarrow> string" where
  "extractCollectionFromQuery query = takeWhile (\<lambda>r. \<not> nameEnd r) (dropWhile trimLeftChar query)"

definition fixCollectionName :: "View \<Rightarrow> View" where
  "fixCollectionName v =
     (let sourceCollection = extractCollectionFromQuery (vQuery v) in
      if sourceCollection \<noteq> [] \<and> \<not> hasPrefix sourceCollection (CollectionChain @ ''__'')
      then v\<lparr>vQuery := replaceFirst (vQuery v) sourceCollection (CollectionChain @ ''__'' @ sourceCollection)\<rparr>
      else v)"

definition suggestCorrectCollection :: "string \<Rightarrow> string" where
  "suggestCorrectCollection c =
     (if hasPrefix c (CollectionChain @ ''__'') \<or> containsStr c ''__'' then c else CollectionChain @ ''__'' @ c)"

definition prepareWasm :: "'db viewEnv \<Rightarrow> View \<Rightarrow> 'db Manager \<Rightarrow> view_error option \<times> View \<times> 'db Manager" where
  "prepareWasm env v m =
     (if HasLenses v \<and> needsWasmConversion v
      then (case PostWasmToFile (hashOf env) (writable env) (wasmDir env) v (disk m) of
              (e, v', fs) \<Rightarrow> (e, v', m\<lparr>disk := fs\<rparr>))
      else (None, v, m))"

definition setupLens :: "'db viewEnv \<Rightarrow> View \<Rightarrow> 'db Manager \<Rightarrow> (view_error + string) \<times> 'db Manager" where
  "setupLens env v m =
     (case SetupLensInDefraDB (defra env) (parseArgs env) v (dbState m) of (r, db) \<Rightarrow> (r, m\<lparr>dbState := db\<rparr>))"

text \<open>
  A failed subscription is only logged, and \<open>subscribeToSourceCollection\<close> does nothing yet.
\<close>

definition configureLensAndSubscribe ::
  "'db viewEnv \<Rightarrow> string \<Rightarrow> View \<Rightarrow> 'db Manager \<Rightarrow> view_error option \<times> View \<times> 'db Manager" where
  "configureLensAndSubscribe env lensCID v m =
     (case ConfigureLens (defra env) lensCID v (dbState m) of
        (Some e, v', db) \<Rightarrow> (Some e, v', m\<lparr>dbState := db\<rparr>)
      | (None, v', db) \<Rightarrow> (None, v', m\<lparr>dbState := snd (SubscribeTo (defra env) v' db)\<rparr>))"

definition updateMetrics :: "'db Manager \<Rightarrow> 'db Manager" where
  "updateMetrics m =
     m\<lparr>metrics := map_option (\<lambda>x. SetViewsActive (int (length (activeViews m))) (IncrementViewsRegistered x)) (metrics m)\<rparr>"

definition activeEntry :: "View \<Rightarrow> ActiveView" where
  "activeEntry v =
     \<lparr>avLens = \<lparr>SourceCollectionVersionID = vQuery v, DestinationCollectionVersionID = vSdl v, lensModules = []\<rparr>,
      avContractAddress = vContractAddress v\<rparr>"

definition RegisterView :: "'db viewEnv \<Rightarrow> View \<Rightarrow> 'db Manager \<Rightarrow> view_error option \<times> View \<times> 'db Manager" where
  "RegisterView env v m =
     (case Validate v of
        Some e \<Rightarrow> (Some e, v, m)
      | None \<Rightarrow>
          (let v1 = fixQueryInputData v in
           if map_of (activeViews m) (vName v1) \<noteq> None then (Some (ErrViewAlreadyRegistered (vName v1)), v1, m)
           else (case prepareWasm env v1 m of
               (Some e, v2, m1) \<Rightarrow> (Some e, v2, m1)
             | (None, v2, m1) \<Rightarrow>
                 (case setupLens env v2 m1 of
                    (Inl e, m2) \<Rightarrow> (Some e, v2, m2)
                  | (Inr lensCID, m2) \<Rightarrow>
                      (case configureLensAndSubscribe env lensCID (fixCollectionName v2) m2 of
                         (Some e, v4, m3) \<Rightarrow> (Some e, v4, m3)
                       | (None, v4, m3) \<Rightarrow>
                           (let m4 = updateMetrics m3 in
                            (None, v4, m4\<lparr>activeViews := AList.update (vName v4) (activeEntry v4) (activeViews m4)\<rparr>)))))))"

subsection \<open>Persistence and start-up\<close>

datatype viewsFile = Missing | Unreadable | Malformed | Saved "View list"

definition AddViewsFromLensRegistry :: "viewsFile \<Rightarrow> View list option" where
  "AddViewsFromLensRegistry f =
     (case f of Missing \<Rightarrow> Some [] | Unreadable \<Rightarrow> None | Malformed \<Rightarrow> None | Saved views \<Rightarrow> Some views)"

fun upsertView :: "View \<Rightarrow> View list \<Rightarrow> View list" where
  "upsertView v [] = [v]"
| "upsertView v (x # xs) = (if vName x = vName v then v # xs else x # upsertView v xs)"

text \<open>\<open>failed\<close> is what a failed write leaves of the file, \<open>None\<close> when the write succeeds.\<close>

definition SaveViewToRegistry :: "viewsFile option \<Rightarrow> View \<Rightarrow> viewsFile \<Rightarrow> bool \<times> viewsFile" where
  "SaveViewToRegistry failed v f =
     (case AddViewsFromLensRegistry f of
        None \<Rightarrow> (False, f)
      | Some views \<Rightarrow> (case failed of Some g \<Rightarrow> (False, g) | None \<Rightarrow> (True, Saved (upsertView v views))))"

definition deduplicateViews :: "View list \<Rightarrow> View list" where
  "deduplicateViews views = dedupOn vName [] views"

definition extractWasmURLsFromViews :: "View list \<Rightarrow> string list" where
  "extractWasmURLsFromViews views =
     concat (map (\<lambda>v. map lensPath (filter (\<lambda>l. remoteURL (lensPath l)) (vLenses v))) views)"

text \<open>The loop over the views: a view that fails to register is skipped.\<close>

fun registerAll ::
  "'db viewEnv \<Rightarrow> viewsFile option \<Rightarrow> View list \<Rightarrow> 'db Manager \<Rightarrow> viewsFile \<Rightarrow> 'db Manager \<times> viewsFile" where
  "registerAll env failed [] m f = (m, f)"
| "registerAll env failed (v # vs) m f =
     (case RegisterView env v m of
        (Some e, v', m') \<Rightarrow> registerAll env failed vs m' f
      | (None, v', m') \<Rightarrow> registerAll env failed vs m' (snd (SaveViewToRegistry failed v' f)))"

definition LoadAndRegisterViews ::
  "'db viewEnv \<Rightarrow> wasmEnv \<Rightarrow> viewsFile option \<Rightarrow> View list \<Rightarrow> 'db Manager \<Rightarrow> viewsFile \<Rightarrow> 'db Manager \<times> viewsFile" where
  "LoadAndRegisterViews env wenv failed externalViews m f =
     (let allViews = externalViews @ (case AddViewsFromLensRegistry f of None \<Rightarrow> [] | Some ls \<Rightarrow> ls) in
      if allViews = [] then (m, f)
      else
        (let views = deduplicateViews allViews; wasmURLs = extractWasmURLsFromViews views;
             m1 = (case wasmRegistry m of
                     Some reg \<Rightarrow>
                       if wasmURLs \<noteq> []
                       then (case EnsureAllWASM wenv wasmURLs reg (disk m) of
                               (_, reg', fs) \<Rightarrow> m\<lparr>wasmRegistry := Some reg', disk := fs\<rparr>)
                       else m
                   | None \<Rightarrow> m) in
         registerAll env failed views m1 f))"

subsection \<open>What each step keeps\<close>

definition sameIdentity :: "View \<Rightarrow> View \<Rightarrow> bool" where
  "sameIdentity v v' \<longleftrightarrow> vName v' = vName v \<and> vContractAddress v' = vContractAddress v \<and> vSdl v' = vSdl v"

definition sameTable :: "'db Manager \<Rightarrow> 'db Manager \<Rightarrow> bool" where
  "sameTable m m' \<longleftrightarrow> activeViews m' = activeViews m \<and> metrics m' = metrics m \<and> wasmRegistry m' = wasmRegistry m"

lemmas step_keeps = sameIdentity_def sameTable_def

lemma fixQuery_keeps: "sameIdentity v (fixQueryInputData v)" "sameIdentity v (fixCollectionName v)"
  by (simp_all add: sameIdentity_def fixQueryInputData_def fixCollectionName_def Let_def)

lemma prepareWasm_keeps:
  "prepareWasm env v m = (e, v', m') \<Longrightarrow> sameIdentity v v' \<and> vQuery v' = vQuery v \<and> sameTable m m'"
  by (auto simp: prepareWasm_def PostWasmToFile_def step_keeps split: if_splits option.splits prod.splits)

lemma setupLens_keeps: "setupLens env v m = (r, m') \<Longrightarrow> sameTable m m'"
  by (auto simp: setupLens_def step_keeps split: prod.splits)

definition addOk :: "string option \<Rightarrow> bool" where
  "addOk r \<longleftrightarrow> (case r of None \<Rightarrow> True | Some err \<Rightarrow> containsStr err ''already exists'')"

lemma addOk_simps [simp]: "addOk None" "addOk (Some err) \<longleftrightarrow> containsStr err ''already exists''"
  by (simp_all add: addOk_def)

lemma ConfigureLens_spec:
  "ConfigureLens ops cid v db = (e, v', db') \<Longrightarrow>
     sameIdentity v v' \<and> vLenses v' = vLenses v \<and>
     (e = None \<longrightarrow> (\<exists>db1 r. AddView ops db1 (vQuery v') (vSdl v') cid = (r, db')
        \<and> addOk r))"
  by (fastforce simp: ConfigureLens_def Let_def sameIdentity_def contains_eq split: if_splits option.splits prod.splits)

lemma configureLensAndSubscribe_spec:
  assumes "configureLensAndSubscribe env cid v m = (e, v', m')"
  shows "sameIdentity v v' \<and> sameTable m m' \<and>
     (e = None \<longrightarrow> (\<exists>db1 r db2. AddView (defra env) db1 (vQuery v') (vSdl v') cid = (r, db2)
        \<and> addOk r))"
proof -
  obtain e1 v1 db1 where c: "ConfigureLens (defra env) cid v (dbState m) = (e1, v1, db1)" by (metis prod_cases3)
  with assms have "e = e1" "v' = v1" "sameTable m m'"
    by (auto simp: configureLensAndSubscribe_def step_keeps split: option.splits)
  with ConfigureLens_spec [OF c] show ?thesis by blast
qed

lemma sameIdentity_trans: "sameIdentity a b \<Longrightarrow> sameIdentity b c \<Longrightarrow> sameIdentity a c"
  by (simp add: sameIdentity_def)

lemma sameTable_trans: "sameTable a b \<Longrightarrow> sameTable b c \<Longrightarrow> sameTable a c"
  by (simp add: sameTable_def)

lemma sameTable_refl: "sameTable a a" and sameIdentity_refl: "sameIdentity v v"
  by (simp_all add: step_keeps)

definition accepted :: "'db viewEnv \<Rightarrow> View \<Rightarrow> bool" where
  "accepted env v \<longleftrightarrow> (\<exists>cid db1 r db2. AddView (defra env) db1 (vQuery v) (vSdl v) cid = (r, db2)
     \<and> addOk r)"

lemma RegisterView_refused:
  assumes "RegisterView env v m = (e, v', m')" "Validate v \<noteq> None \<or> map_of (activeViews m) (vName v) \<noteq> None"
  shows "e \<noteq> None \<and> sameIdentity v v' \<and> sameTable m m'"
proof (cases "Validate v")
  case None
  have i: "sameIdentity v (fixQueryInputData v)" by (simp add: fixQuery_keeps)
  then have "vName (fixQueryInputData v) = vName v" by (simp add: sameIdentity_def)
  with None assms i show ?thesis by (auto simp: RegisterView_def Let_def sameTable_refl)
next
  case (Some x)
  with assms have "e = Some x" "v' = v" "m' = m" by (simp_all add: RegisterView_def)
  then show ?thesis by (simp add: sameTable_refl sameIdentity_refl)
qed

lemma RegisterView_cases:
  assumes "RegisterView env v m = (e, v', m')"
  obtains (failed) x where "e = Some x" "sameIdentity v v'" "sameTable m m'"
  | (ok) m3 where "e = None" "sameIdentity v v'" "sameTable m m3" "Validate v = None" "map_of (activeViews m) (vName v) = None"
      "accepted env v'"
      "m' = (updateMetrics m3)\<lparr>activeViews := AList.update (vName v) (activeEntry v') (activeViews m)\<rparr>"
proof -
  define v1 where "v1 = fixQueryInputData v"
  have i1: "sameIdentity v v1" by (simp add: v1_def fixQuery_keeps)
  show thesis
  proof (cases "Validate v = None \<and> map_of (activeViews m) (vName v1) = None")
    case False
    then have "Validate v \<noteq> None \<or> map_of (activeViews m) (vName v) \<noteq> None"
      using i1 by (auto simp: sameIdentity_def)
    from RegisterView_refused [OF assms this] show ?thesis using failed by blast
  next
    case True
    obtain e2 v2 m1 where p: "prepareWasm env v1 m = (e2, v2, m1)" by (metis prod_cases3)
    note k2 = prepareWasm_keeps [OF p]
    obtain r m2 where l: "setupLens env v2 m1 = (r, m2)" by fastforce
    note k3 = setupLens_keeps [OF l]
    define v3 where "v3 = fixCollectionName v2"
    have i3: "sameIdentity v v3" using i1 k2 fixQuery_keeps(2) [of v2] by (simp add: v3_def sameIdentity_def)
    have t: "sameTable m m1" "sameTable m m2" using k2 k3 sameTable_trans by blast+
    show ?thesis
    proof (cases "e2 = None \<and> (\<exists>cid. r = Inr cid)")
      case False
      with assms True p l t k2 i1 have "e \<noteq> None \<and> sameIdentity v v' \<and> sameTable m m'"
        by (auto simp: RegisterView_def v1_def [symmetric] Let_def sameIdentity_def split: option.splits sum.splits)
      then show ?thesis using failed by blast
    next
      case noerr: True
      then obtain cid where cid: "e2 = None" "r = Inr cid" by blast
      obtain e4 v4 m3 where c: "configureLensAndSubscribe env cid v3 m2 = (e4, v4, m3)" by (metis prod_cases3)
      note k4 = configureLensAndSubscribe_spec [OF c]
      have i4: "sameIdentity v v4" "sameTable m m3" using k4 i3 t sameIdentity_trans sameTable_trans by blast+
      note red = RegisterView_def v1_def [symmetric] v3_def [symmetric] Let_def
      show ?thesis
      proof (cases e4)
        case (Some x)
        with assms True p l cid c i4 show ?thesis by (intro failed [of x]) (simp_all add: red)
      next
        case None
        have "accepted env v4" using k4 None unfolding accepted_def by blast
        moreover have "activeViews (updateMetrics m3) = activeViews m" using i4 by (simp add: updateMetrics_def sameTable_def)
        moreover have "vName v4 = vName v" "vName v1 = vName v" using i4 i1 by (simp_all add: sameIdentity_def)
        ultimately show ?thesis using assms True p l cid c i4 None by (intro ok [of m3]) (auto simp: red)
      qed
    qed
  qed
qed

subsection \<open>Sequences of registrations\<close>

fun registerSeq :: "('db viewEnv \<times> View) list \<Rightarrow> 'db Manager \<Rightarrow> 'db Manager" where
  "registerSeq [] m = m"
| "registerSeq ((env, v) # rs) m = registerSeq rs (snd (snd (RegisterView env v m)))"

lemma registerSeq_append: "registerSeq (xs @ ys) m = registerSeq ys (registerSeq xs m)"
  by (induction xs m rule: registerSeq.induct) simp_all

lemma RegisterView_keeps_entry:
  assumes "map_of (activeViews m) name = Some av"
  shows "map_of (activeViews (snd (snd (RegisterView env v m)))) name = Some av"
proof -
  obtain e v' m' where r: "RegisterView env v m = (e, v', m')" by (metis prod_cases3)
  from r show ?thesis
  proof (cases rule: RegisterView_cases)
    case (failed x)
    with assms r show ?thesis by (simp add: sameTable_def)
  next
    case (ok m3)
    then have "name \<noteq> vName v" using assms by auto
    with ok assms r show ?thesis by (simp add: update_conv)
  qed
qed

lemma registerSeq_keeps_entry:
  "map_of (activeViews m) name = Some av \<Longrightarrow> map_of (activeViews (registerSeq rs m)) name = Some av"
proof (induction rs m rule: registerSeq.induct)
  case (2 env v rs m)
  from 2(1) [OF RegisterView_keeps_entry [OF 2(2)]] show ?case by simp
qed simp

definition countersOk :: "'db Manager \<Rightarrow> bool" where
  "countersOk m \<longleftrightarrow> distinct (map fst (activeViews m)) \<and> (\<forall>x. metrics m = Some x \<longrightarrow>
     ViewsRegistered x = wrap64 (int (length (activeViews m))) \<and> ViewsActive x = int (length (activeViews m) - 1))"

lemma wrap64_inc: "wrap64 (wrap64 x + 1) = wrap64 (x + 1)"
proof -
  have "(wrap64 x + 1 + 2 ^ 63) mod 2 ^ 64 = ((x + 2 ^ 63) mod 2 ^ 64 + 1) mod 2 ^ 64" by (simp add: wrap64_def add.commute)
  also have "\<dots> = (x + 2 ^ 63 + 1) mod 2 ^ 64" by (rule mod_add_left_eq)
  also have "\<dots> = (x + 1 + 2 ^ 63) mod 2 ^ 64" by (simp add: add.commute)
  finally show ?thesis by (simp only: wrap64_def [of "wrap64 x + 1"] wrap64_def [of "x + 1"])
qed

lemma RegisterView_countersOk:
  assumes "countersOk m"
  shows "countersOk (snd (snd (RegisterView env v m)))"
proof -
  obtain e v' m' where r: "RegisterView env v m = (e, v', m')" by (metis prod_cases3)
  from r show ?thesis
  proof (cases rule: RegisterView_cases)
    case (failed x)
    with assms r show ?thesis by (simp add: sameTable_def countersOk_def)
  next
    case (ok m3)
    from ok(5) have "vName v \<notin> set (map fst (activeViews m))" by (metis map_of_eq_None_iff list.set_map)
    with assms r ok alist_update_new [OF ok(5)] show ?thesis
      by (auto simp: countersOk_def updateMetrics_def sameTable_def SetViewsActive_def IncrementViewsRegistered_def
          inc64_def wrap64_inc wrap64_inc [unfolded add.commute [of _ 1]] add.commute)
  qed
qed

lemma registerSeq_countersOk: "countersOk m \<Longrightarrow> countersOk (registerSeq rs m)"
  by (induction rs m rule: registerSeq.induct) (simp_all add: RegisterView_countersOk)

lemma countersOk_new: "countersOk (NewManager db fs (Some (NewHostMetrics now)) reg)"
  by (simp add: countersOk_def NewManager_def NewHostMetrics_def wrap64_def)

subsection \<open>Collection names in queries\<close>

lemma replaceFirst_prefixed:
  assumes "src \<noteq> []" "hd src \<notin> set ws"
  shows "replaceFirst (ws @ src @ rest) src new = ws @ new @ rest"
proof -
  have "indexStr (ws @ src @ rest) src = Some (length ws)"
    using assms(2)
  proof (induction ws)
    case Nil
    obtain c cs where "src = c # cs" using assms(1) by (cases src) auto
    then show ?case by (simp add: hasPrefix_def)
  next
    case (Cons c ws)
    then have "\<not> hasPrefix (c # ws @ src @ rest) src" using assms(1) by (cases src) (auto simp: hasPrefix_def)
    with Cons show ?case by simp
  qed
  then show ?thesis by (simp add: replaceFirst_def)
qed

lemma extract_parts:
  obtains ws rest where "query = ws @ extractCollectionFromQuery query @ rest" "list_all trimLeftChar ws"
    "extractCollectionFromQuery query \<noteq> [] \<longrightarrow> \<not> trimLeftChar (hd (extractCollectionFromQuery query))"
    "rest = [] \<or> nameEnd (hd rest)"
proof -
  define d where "d = dropWhile trimLeftChar query"
  let ?c = "takeWhile (\<lambda>r. \<not> nameEnd r) d" and ?r = "dropWhile (\<lambda>r. \<not> nameEnd r) d"
  have e: "extractCollectionFromQuery query = ?c" by (simp add: extractCollectionFromQuery_def d_def)
  have "query = takeWhile trimLeftChar query @ ?c @ ?r" by (simp add: d_def)
  moreover have "list_all trimLeftChar (takeWhile trimLeftChar query)" by (auto simp: list_all_iff dest: set_takeWhileD)
  moreover have "\<not> trimLeftChar (hd ?c)" if c: "?c \<noteq> []"
  proof -
    from c have "d \<noteq> []" by auto
    then have "\<not> trimLeftChar (hd d)" using hd_dropWhile [of trimLeftChar query] by (simp add: d_def)
    then show ?thesis using c by (cases d) (auto split: if_splits)
  qed
  moreover have "?r = [] \<or> nameEnd (hd ?r)" using hd_dropWhile [of "\<lambda>r. \<not> nameEnd r" d] by blast
  ultimately show thesis using that e by metis
qed

lemma extract_of_parts:
  assumes "list_all trimLeftChar ws" "c \<noteq> []" "\<not> trimLeftChar (hd c)" "list_all (\<lambda>x. \<not> nameEnd x) c"
    "rest = [] \<or> nameEnd (hd rest)"
  shows "extractCollectionFromQuery (ws @ c @ rest) = c"
proof -
  have "dropWhile trimLeftChar (ws @ c @ rest) = dropWhile trimLeftChar (c @ rest)"
    using assms(1) by (simp add: dropWhile_append2 list_all_iff)
  also have "\<dots> = c @ rest" using assms(2,3) by (cases c) auto
  finally show ?thesis using assms(4,5) unfolding extractCollectionFromQuery_def
    by (cases rest) (auto simp: takeWhile_append list_all_iff)
qed

lemma extract_no_nameEnd: "list_all (\<lambda>x. \<not> nameEnd x) (extractCollectionFromQuery q)"
  by (auto simp: extractCollectionFromQuery_def list_all_iff dest: set_takeWhileD)

text \<open>The correction adds the chain prefix to the collection at the head of the query and nothing else.\<close>

lemma fixCollectionName_exact:
  assumes "extractCollectionFromQuery (vQuery v) = c" "c \<noteq> []" "\<not> hasPrefix c (CollectionChain @ ''__'')"
  shows "\<exists>ws rest. vQuery v = ws @ c @ rest \<and> vQuery (fixCollectionName v) = ws @ CollectionChain @ ''__'' @ c @ rest
    \<and> extractCollectionFromQuery (vQuery (fixCollectionName v)) = CollectionChain @ ''__'' @ c"
proof -
  obtain ws rest where q: "vQuery v = ws @ c @ rest" "list_all trimLeftChar ws" "\<not> trimLeftChar (hd c)" "rest = [] \<or> nameEnd (hd rest)"
    using extract_parts [of "vQuery v"] assms(1,2) by metis
  have "hd c \<notin> set ws" using q(2,3) by (auto simp: list_all_iff)
  then have f: "vQuery (fixCollectionName v) = ws @ (CollectionChain @ ''__'' @ c) @ rest"
    using assms q(1) replaceFirst_prefixed [of c ws rest] by (simp add: fixCollectionName_def Let_def)
  have "extractCollectionFromQuery (ws @ (CollectionChain @ ''__'' @ c) @ rest) = CollectionChain @ ''__'' @ c"
  proof (rule extract_of_parts [OF q(2) _ _ _ q(4)])
    show "list_all (\<lambda>x. \<not> nameEnd x) (CollectionChain @ ''__'' @ c)"
      using extract_no_nameEnd [of "vQuery v"] assms(1) by (simp add: nameEnd_def)
  qed (simp_all add: trimLeftChar_def)
  with f q(1) show ?thesis by (intro exI [of _ ws] exI [of _ rest]) simp
qed

lemma fixCollectionName_idem: "fixCollectionName (fixCollectionName v) = fixCollectionName v"
proof (cases "extractCollectionFromQuery (vQuery v) \<noteq> [] \<and> \<not> hasPrefix (extractCollectionFromQuery (vQuery v)) (CollectionChain @ ''__'')")
  case True
  from fixCollectionName_exact [OF refl] True
  have "extractCollectionFromQuery (vQuery (fixCollectionName v)) = CollectionChain @ ''__'' @ extractCollectionFromQuery (vQuery v)" by blast
  then have p: "hasPrefix (extractCollectionFromQuery (vQuery (fixCollectionName v))) (CollectionChain @ ''__'')" by (simp add: hasPrefix_def)
  have "\<not> Q \<Longrightarrow> (if P \<and> Q then a else b) = b" for P Q and a b :: View by simp
  then show ?thesis using p unfolding fixCollectionName_def [of "fixCollectionName v"] Let_def by metis
next
  case False
  then have "fixCollectionName v = v" by (auto simp: fixCollectionName_def Let_def)
  then show ?thesis by simp
qed

subsection \<open>Properties\<close>

text \<open>
  C22. Registration is all or nothing for the table: a successful call had a valid view whose
  name was not active, a query that DefraDB accepted, and adds exactly one entry, under the
  view's name and with its contract address, schema and stored query; a failing call changes neither
  the table nor the metrics.
\<close>

theorem register_view_exact:
  assumes "RegisterView env v m = (e, v', m')"
  shows "(e = None \<longrightarrow> Validate v = None \<and> \<not> IsActive m (vName v) \<and> accepted env v'
      \<and> map_of (activeViews m') = (map_of (activeViews m))(vName v \<mapsto> activeEntry v')
      \<and> avContractAddress (activeEntry v') = vContractAddress v
      \<and> DestinationCollectionVersionID (avLens (activeEntry v')) = vSdl v)
    \<and> (e \<noteq> None \<longrightarrow> activeViews m' = activeViews m \<and> metrics m' = metrics m)"
  using assms
proof (cases rule: RegisterView_cases)
  case (failed x)
  then show ?thesis by (simp add: sameTable_def)
next
  case (ok m3)
  then show ?thesis by (simp add: IsActive_def update_conv' sameIdentity_def activeEntry_def)
qed

definition demoOps :: "unit defraOps" where
  "demoOps = \<lparr>AddView = \<lambda>db q s c. (None, db), AddLens = \<lambda>db ms. (Some ''cid'', db), GetCollectionByName = \<lambda>db n. True,
     AddP2PCollections = \<lambda>db ns. (True, db)\<rparr>"

definition demoViewEnv :: "unit viewEnv" where
  "demoViewEnv = \<lparr>defra = demoOps, hashOf = \<lambda>s. [1, 2], writable = \<lambda>p. True, wasmDir = Some ''/r'', parseArgs = \<lambda>s. None\<rparr>"

definition plainView :: "string \<Rightarrow> View" where
  "plainView n = \<lparr>vName = n, vContractAddress = ''0x1'', vQuery = ''Log { inputData }'', vSdl = ''type V @x'', vLenses = []\<rparr>"

definition demoManager :: "unit Manager" where
  "demoManager = NewManager () Map.empty (Some (NewHostMetrics 0)) None"

lemma demo_register: "fst (RegisterView demoViewEnv (plainView ''V'') demoManager) = None"
  by code_simp

theorem register_view_exact_witness:
  "\<exists>v' m'. RegisterView demoViewEnv (plainView ''V'') demoManager = (None, v', m')
     \<and> map_of (activeViews m') = [''V'' \<mapsto> activeEntry v'] \<and> accepted demoViewEnv v'"
proof -
  obtain v' m' where r: "RegisterView demoViewEnv (plainView ''V'') demoManager = (None, v', m')"
    using demo_register by (metis prod_cases3 fst_conv)
  from register_view_exact [OF r] have "map_of (activeViews m') = [''V'' \<mapsto> activeEntry v'] \<and> accepted demoViewEnv v'"
    by (simp add: plainView_def demoManager_def NewManager_def)
  with r show ?thesis by blast
qed

text \<open>
  The gauge of active views lags: after any sequence of registration attempts on a new
  manager, the counter of registered views equals the number of active views, but the gauge
  shows one less, because it is set before the view is entered.
\<close>

theorem views_active_lags:
  assumes "m = registerSeq rs (NewManager db fs (Some (NewHostMetrics now)) reg)"
    and "metrics m = Some x" "GetViewCount m < 2 ^ 63"
  shows "ViewsRegistered x = int (GetViewCount m) \<and> ViewsActive x = int (GetViewCount m - 1)"
proof -
  have "countersOk m" unfolding assms(1) by (rule registerSeq_countersOk [OF countersOk_new])
  moreover have "int64_range (int (GetViewCount m))" using assms(3) by (simp add: int64_range_def)
  ultimately show ?thesis using assms(2) by (simp add: countersOk_def GetViewCount_def)
qed

theorem views_active_lags_witness:
  "\<exists>m x. m = registerSeq [(demoViewEnv, plainView ''V''), (demoViewEnv, plainView ''W'')] demoManager
     \<and> metrics m = Some x \<and> GetViewCount m = 2 \<and> ViewsRegistered x = 2 \<and> ViewsActive x = 1"
proof -
  let ?m = "registerSeq [(demoViewEnv, plainView ''V''), (demoViewEnv, plainView ''W'')] demoManager"
  have c: "GetViewCount ?m = 2" "metrics ?m \<noteq> None" by code_simp+
  then obtain x where x: "metrics ?m = Some x" by blast
  have "ViewsRegistered x = int (GetViewCount ?m) \<and> ViewsActive x = int (GetViewCount ?m - 1)"
    by (rule views_active_lags [OF _ x, unfolded demoManager_def [symmetric], OF demoManager_def [THEN arg_cong]]) (simp only: c, simp)
  with c x show ?thesis by (intro exI [of _ ?m] exI [of _ x]) simp
qed

end
