(* ===== verification/Hub_Client.thy ===== *)
theory Hub_Client
  imports View_Manager Billing_Config
begin

text \<open>
  \<open>pkg/shinzohub\<close> except the event stream: the requests to the hub's REST gateway for views
  (\<open>query.go\<close>), the height (\<open>height.go\<close>) and balances (\<open>balance.go\<close>), and the decoding of a view
  bundle (\<open>view_processor.go\<close>). An exchange with the gateway is an argument: what a GET of an
  endpoint yields. So are the JSON decodings, \<open>url.QueryEscape\<close> and the bundle format.
\<close>

text \<open>\<open>TransportError\<close> and \<open>BodyError\<close> carry whether the error reports a timeout.\<close>

datatype httpOutcome = BadRequest | TransportError bool | BodyError bool | Response nat string

datatype lcd_error =
    ErrLCDNotConfigured | ErrBuildRequest | ErrGet bool | ErrReadBody bool | ErrLCDHTTPStatus nat
  | ErrDecode | ErrLCDEmptyData string | ErrInvalidHeight string | ErrInvalidAmount string | ErrCtx

text \<open>The steps every method shares: request, body, status.\<close>

definition lcdGet :: "(string \<Rightarrow> httpOutcome) \<Rightarrow> string \<Rightarrow> lcd_error + string" where
  "lcdGet http endpoint =
     (case http endpoint of
        BadRequest \<Rightarrow> Inl ErrBuildRequest
      | TransportError t \<Rightarrow> Inl (ErrGet t)
      | BodyError t \<Rightarrow> Inl (ErrReadBody t)
      | Response status body \<Rightarrow> if status \<noteq> 200 then Inl (ErrLCDHTTPStatus status) else Inr body)"

record LCDView =
  lvName :: string
  lvCreator :: string
  lvContractAddress :: string
  lvData :: string
  lvHeight :: string

definition GetViewBundle ::
  "(string \<Rightarrow> httpOutcome) \<Rightarrow> (string \<Rightarrow> LCDView option) \<Rightarrow> string \<Rightarrow> string \<Rightarrow> lcd_error + string" where
  "GetViewBundle http decodeView lcdURL contractAddress =
     (if lcdURL = [] then Inl ErrLCDNotConfigured
      else (case lcdGet http (lcdURL @ ''/shinzonetwork/view/v1/views/'' @ contractAddress @ ''?include_data=true'') of
          Inl e \<Rightarrow> Inl e
        | Inr body \<Rightarrow>
            (case decodeView body of
               None \<Rightarrow> Inl ErrDecode
             | Some lv \<Rightarrow> if lvData lv = [] then Inl (ErrLCDEmptyData contractAddress) else Inr (lvData lv))))"

definition LatestBlockNumber ::
  "(string \<Rightarrow> httpOutcome) \<Rightarrow> (string \<Rightarrow> string option) \<Rightarrow> string \<Rightarrow> lcd_error + nat" where
  "LatestBlockNumber http decodeHeight lcdURL =
     (if lcdURL = [] then Inl ErrLCDNotConfigured
      else (case lcdGet http (lcdURL @ ''/cosmos/base/tendermint/v1beta1/blocks/latest'') of
          Inl e \<Rightarrow> Inl e
        | Inr body \<Rightarrow>
            (case decodeHeight body of
               None \<Rightarrow> Inl ErrDecode
             | Some h \<Rightarrow> (case parseUint64 h of None \<Rightarrow> Inl (ErrInvalidHeight h) | Some n \<Rightarrow> Inr n))))"

definition GetQueryBalance ::
  "(string \<Rightarrow> httpOutcome) \<Rightarrow> (string \<Rightarrow> string option) \<Rightarrow> string \<Rightarrow> string \<Rightarrow> lcd_error + int" where
  "GetQueryBalance http decodeAmount lcdURL bech32Address =
     (if lcdURL = [] then Inl ErrLCDNotConfigured
      else (case lcdGet http (lcdURL @ ''/shinzonetwork/querybalance/v1/balance/'' @ bech32Address) of
          Inl e \<Rightarrow> Inl e
        | Inr body \<Rightarrow>
            (case decodeAmount body of
               None \<Rightarrow> Inl ErrDecode
             | Some amount \<Rightarrow>
                 if amount = [] then Inr 0
                 else (case setString10 amount of None \<Rightarrow> Inl (ErrInvalidAmount amount) | Some n \<Rightarrow> Inr n))))"

subsection \<open>Bundles\<close>

datatype wire_error = WireBase64 | WireBundle | WireInvalid view_error

definition ProcessViewFromWireFormat ::
  "(byte list \<Rightarrow> (string \<times> string \<times> Lens list) option) \<Rightarrow> string \<Rightarrow> wire_error + View" where
  "ProcessViewFromWireFormat unbundle wireBase64 =
     (case b64Decode wireBase64 of
        None \<Rightarrow> Inl WireBase64
      | Some wire \<Rightarrow>
          (case NewViewFromWire unbundle wire of
             None \<Rightarrow> Inl WireBundle
           | Some v \<Rightarrow> (case Validate v of Some e \<Rightarrow> Inl (WireInvalid e) | None \<Rightarrow> Inr v)))"

definition SetupViewInDefraDB ::
  "'db defraOps \<Rightarrow> (string \<Rightarrow> gfields option) \<Rightarrow> View \<Rightarrow> 'db \<Rightarrow> view_error option \<times> View \<times> 'db" where
  "SetupViewInDefraDB ops args v db =
     (case SetupLensInDefraDB ops args v db of
        (Inl e, db1) \<Rightarrow> (Some e, v, db1)
      | (Inr lensCID, db1) \<Rightarrow>
          (case ConfigureLens ops lensCID v db1 of
             (Some e, v2, db2) \<Rightarrow> (Some e, v2, db2)
           | (None, v2, db2) \<Rightarrow> (case SubscribeTo ops v2 db2 of (e, db3) \<Rightarrow> (e, v2, db3))))"

fun decodeLCDViews :: "(byte list \<Rightarrow> (string \<times> string \<times> Lens list) option) \<Rightarrow> LCDView list \<Rightarrow> View list" where
  "decodeLCDViews unbundle [] = []"
| "decodeLCDViews unbundle (lv # lvs) =
     (if lvData lv = [] then decodeLCDViews unbundle lvs
      else (case ProcessViewFromWireFormat unbundle (lvData lv) of
          Inl e \<Rightarrow> decodeLCDViews unbundle lvs
        | Inr v \<Rightarrow> v\<lparr>vContractAddress := lvContractAddress lv\<rparr> # decodeLCDViews unbundle lvs))"

subsection \<open>Pagination\<close>

definition pageEndpoint :: "(string \<Rightarrow> string) \<Rightarrow> string \<Rightarrow> string \<Rightarrow> string" where
  "pageEndpoint escape lcdURL nextKey =
     lcdURL @ ''/shinzonetwork/view/v1/views?include_data=true&pagination.limit=100''
       @ (if nextKey = [] then [] else ''&pagination.key='' @ escape nextKey)"

record hubEnv =
  hubGet :: "string \<Rightarrow> httpOutcome"
  hubEscape :: "string \<Rightarrow> string"
  hubPage :: "string \<Rightarrow> (LCDView list \<times> string) option"
  hubUnbundle :: "byte list \<Rightarrow> (string \<times> string \<times> Lens list) option"

text \<open>
  The loop of \<open>FetchAllRegisteredViews\<close>; the views found so far are returned beside an error. A
  hub that keeps naming a next key keeps the loop running: then the value is \<open>None\<close>.
\<close>

partial_function (option) fetchPages ::
  "hubEnv \<Rightarrow> string \<Rightarrow> string \<Rightarrow> View list \<Rightarrow> (View list \<times> lcd_error option) option" where
  "fetchPages env lcdURL nextKey views =
     (case lcdGet (hubGet env) (pageEndpoint (hubEscape env) lcdURL nextKey) of
        Inl e \<Rightarrow> Some (views, Some e)
      | Inr body \<Rightarrow>
          (case hubPage env body of
             None \<Rightarrow> Some (views, Some ErrDecode)
           | Some (lvs, next) \<Rightarrow>
               (let views' = views @ decodeLCDViews (hubUnbundle env) lvs in
                if next = [] then Some (views', None) else fetchPages env lcdURL next views')))"

definition FetchAllRegisteredViews :: "hubEnv \<Rightarrow> string \<Rightarrow> (View list \<times> lcd_error option) option" where
  "FetchAllRegisteredViews env lcdURL =
     (if lcdURL = [] then Some ([], Some ErrLCDNotConfigured) else fetchPages env lcdURL [] [])"

subsection \<open>Facts\<close>

lemma ProcessViewFromWireFormat_valid:
  "ProcessViewFromWireFormat unbundle w = Inr v \<Longrightarrow> Validate v = None"
  by (auto simp: ProcessViewFromWireFormat_def split: option.splits)

lemma NewViewFromBundle_address: "vContractAddress (NewViewFromBundle b) = []"
  by (cases b) (auto simp: NewViewFromBundle_def ExtractNameFromSDL_def split: option.splits)

lemma Validate_address [simp]: "Validate (v\<lparr>vContractAddress := a\<rparr>) = Validate v"
  by (simp add: Validate_def)

lemma decodeLCDViews_valid:
  "v \<in> set (decodeLCDViews unbundle lvs) \<Longrightarrow>
     Validate v = None \<and> (\<exists>lv \<in> set lvs. lvData lv \<noteq> [] \<and> vContractAddress v = lvContractAddress lv)"
proof (induction lvs)
  case (Cons lv lvs)
  show ?case
  proof (cases "ProcessViewFromWireFormat unbundle (lvData lv)")
    case (Inl e)
    with Cons show ?thesis by (auto split: if_splits)
  next
    case (Inr w)
    with Cons ProcessViewFromWireFormat_valid [OF Inr] show ?thesis by (auto split: if_splits)
  qed
qed simp

text \<open>The pages a hub serves from a key on: a finite chain of pages, each naming the next key.\<close>

fun servesPages :: "hubEnv \<Rightarrow> string \<Rightarrow> string \<Rightarrow> LCDView list list \<Rightarrow> bool" where
  "servesPages env lcdURL key [] = False"
| "servesPages env lcdURL key [p] \<longleftrightarrow>
     (case lcdGet (hubGet env) (pageEndpoint (hubEscape env) lcdURL key) of
        Inl e \<Rightarrow> False | Inr body \<Rightarrow> hubPage env body = Some (p, []))"
| "servesPages env lcdURL key (p # ps) \<longleftrightarrow>
     (case lcdGet (hubGet env) (pageEndpoint (hubEscape env) lcdURL key) of
        Inl e \<Rightarrow> False
      | Inr body \<Rightarrow>
          (case hubPage env body of
             None \<Rightarrow> False
           | Some (q, next) \<Rightarrow> q = p \<and> next \<noteq> [] \<and> servesPages env lcdURL next ps))"

lemma fetchPages_chain:
  "servesPages env lcdURL key ps \<Longrightarrow>
     fetchPages env lcdURL key views = Some (views @ concat (map (decodeLCDViews (hubUnbundle env)) ps), None)"
proof (induction env lcdURL key ps arbitrary: views rule: servesPages.induct)
  case (2 env lcdURL key p)
  then show ?case by (subst fetchPages.simps) (auto simp: Let_def split: sum.splits)
next
  case (3 env lcdURL key p q ps)
  then obtain body nxt where n: "lcdGet (hubGet env) (pageEndpoint (hubEscape env) lcdURL key) = Inr body"
    "hubPage env body = Some (p, nxt)" "nxt \<noteq> []" "servesPages env lcdURL nxt (q # ps)"
    by (auto split: sum.splits option.splits)
  from "3.IH" [OF n(1,2) refl n(4)] n show ?case by (subst fetchPages.simps) (simp add: Let_def)
qed simp

text \<open>A hub that answers a key with a page naming the same key never lets the loop end.\<close>

lemma fetchPages_same_key:
  assumes "lcdGet (hubGet env) (pageEndpoint (hubEscape env) lcdURL key) = Inr body" "hubPage env body = Some (p, key)" "key \<noteq> []"
  shows "fetchPages env lcdURL key views = None"
proof (rule ccontr)
  assume "fetchPages env lcdURL key views \<noteq> None"
  then obtain r where r: "fetchPages env lcdURL key views = Some r" by blast
  have "env = env \<longrightarrow> lcdURL = lcdURL \<longrightarrow> key = key \<longrightarrow> False"
  proof (rule fetchPages.raw_induct [where P = "\<lambda>e l k vs s. e = env \<longrightarrow> l = lcdURL \<longrightarrow> k = key \<longrightarrow> False", OF _ r], goal_cases)
    case (1 f e l k vs s)
    show ?case
    proof (intro impI)
      assume "e = env" "l = lcdURL" "k = key"
      with 1(2) assms have "f env lcdURL key (vs @ decodeLCDViews (hubUnbundle env) p) = Some s" by (simp add: Let_def)
      with 1(1) show False by blast
    qed
  qed
  then show False by simp
qed

subsection \<open>Properties\<close>

text \<open>
  C24. When the hub serves its registry as a finite chain of pages, \<open>FetchAllRegisteredViews\<close> ends, without
  an error, and returns the decodable views of all pages in order; every one of them is valid and
  carries the contract address of the entry it was decoded from.
\<close>

theorem fetch_all_pages:
  assumes "lcdURL \<noteq> []" "servesPages env lcdURL [] ps"
  shows "\<exists>vs. FetchAllRegisteredViews env lcdURL = Some (vs, None)
    \<and> vs = concat (map (decodeLCDViews (hubUnbundle env)) ps)
    \<and> (\<forall>v \<in> set vs. Validate v = None \<and> (\<exists>lv \<in> set (concat ps). lvData lv \<noteq> [] \<and> vContractAddress v = lvContractAddress lv))"
proof (intro exI conjI ballI)
  show "FetchAllRegisteredViews env lcdURL = Some (concat (map (decodeLCDViews (hubUnbundle env)) ps), None)"
    using assms fetchPages_chain [OF assms(2), of "[]"] by (simp add: FetchAllRegisteredViews_def)
next
  fix v assume "v \<in> set (concat (map (decodeLCDViews (hubUnbundle env)) ps))"
  then obtain p where p: "p \<in> set ps" "v \<in> set (decodeLCDViews (hubUnbundle env) p)" by auto
  show "Validate v = None" using decodeLCDViews_valid [OF p(2)] by blast
  show "\<exists>lv \<in> set (concat ps). lvData lv \<noteq> [] \<and> vContractAddress v = lvContractAddress lv"
    using decodeLCDViews_valid [OF p(2)] p(1) by auto
qed (rule refl)

definition demoEntry :: "string \<Rightarrow> string \<Rightarrow> LCDView" where
  "demoEntry addr d = \<lparr>lvName = ''V'', lvCreator = ''c'', lvContractAddress = addr, lvData = d, lvHeight = ''1''\<rparr>"

text \<open>A hub with two pages: a view and an entry without data, then a view and a broken bundle.\<close>

definition demoHub :: hubEnv where
  "demoHub =
     \<lparr>hubGet = (\<lambda>e. Response 200 (if e = pageEndpoint id ''h'' [] then ''1'' else ''2'')), hubEscape = id,
      hubPage = (\<lambda>b. if b = ''1'' then Some ([demoEntry ''0xa'' ''AA=='', demoEntry ''0xb'' []], ''k'')
                     else Some ([demoEntry ''0xc'' ''AQ=='', demoEntry ''0xd'' ''?''], [])),
      hubUnbundle = (\<lambda>w. Some (''Log { x }'', ''type V @x'', []))\<rparr>"

theorem fetch_all_pages_witness:
  "\<exists>vs. FetchAllRegisteredViews demoHub ''h'' = Some (vs, None) \<and> map vContractAddress vs = [''0xa'', ''0xc'']"
proof -
  let ?ps = "[[demoEntry ''0xa'' ''AA=='', demoEntry ''0xb'' []], [demoEntry ''0xc'' ''AQ=='', demoEntry ''0xd'' ''?'']]"
  have s: "servesPages demoHub ''h'' [] ?ps" by code_simp
  have c: "map vContractAddress (concat (map (decodeLCDViews (hubUnbundle demoHub)) ?ps)) = [''0xa'', ''0xc'']" by code_simp
  from fetch_all_pages [OF _ s] c show ?thesis by auto
qed

end
