(* ===== verification/GraphQL_Fields.thy ===== *)
theory GraphQL_Fields
  imports Host_Prelude
begin

text \<open>
  \<open>pkg/acp/parser.go\<close>: which top-level fields a GraphQL request selects. The parser
  (\<open>gqlparser\<close>) is third-party code: \<open>parseQuery\<close> is an argument that yields the syntax tree
  of the operations and fragments. An HTTP request is a record of what the code reads of it;
  the JSON decoding of a request body is the argument \<open>jsonPayload\<close>.
\<close>

datatype selection =
    SField (selAlias: string) (selName: string)
  | SInline "selection list"
  | SSpread string

record queryDocument =
  Operations :: "(string \<times> selection list) list"
  Fragments :: "(string \<times> selection list) list"

record topLevelField =
  ResponseKey :: string
  tlName :: string

datatype gql_error = ParseFailed | FragmentDepthExceeded | FragmentCycle string | UndeclaredFragment string | ReadBodyFailed

abbreviation maxFragmentDepth :: nat where "maxFragmentDepth \<equiv> 16"

text \<open>
  \<open>collectTopLevelFields\<close>: \<open>seen\<close> is threaded through the whole walk; a fragment's name is
  in \<open>visitedFrags\<close> only while its selections are walked.
\<close>

function collectTopLevelFields ::
  "(string \<times> selection list) list \<Rightarrow> selection list \<Rightarrow> string list \<Rightarrow> string list \<Rightarrow> nat
     \<Rightarrow> gql_error + topLevelField list \<times> string list" where
  "collectTopLevelFields frags sels seen visitedFrags depth =
     (if depth > maxFragmentDepth then Inl FragmentDepthExceeded
      else (case sels of
          [] \<Rightarrow> Inr ([], seen)
        | SField alias name # rest \<Rightarrow>
            if alias \<in> set seen then collectTopLevelFields frags rest seen visitedFrags depth
            else (case collectTopLevelFields frags rest (alias # seen) visitedFrags depth of
                Inl e \<Rightarrow> Inl e
              | Inr (fs, seen') \<Rightarrow> Inr (\<lparr>ResponseKey = alias, tlName = name\<rparr> # fs, seen'))
        | SInline nested # rest \<Rightarrow>
            (case collectTopLevelFields frags nested seen visitedFrags (depth + 1) of
                Inl e \<Rightarrow> Inl e
              | Inr (fs, seen') \<Rightarrow>
                  (case collectTopLevelFields frags rest seen' visitedFrags depth of
                     Inl e \<Rightarrow> Inl e | Inr (fs', seen'') \<Rightarrow> Inr (fs @ fs', seen'')))
        | SSpread name # rest \<Rightarrow>
            if name \<in> set visitedFrags then Inl (FragmentCycle name)
            else (case map_of frags name of
                None \<Rightarrow> Inl (UndeclaredFragment name)
              | Some body \<Rightarrow>
                  (case collectTopLevelFields frags body seen (name # visitedFrags) (depth + 1) of
                     Inl e \<Rightarrow> Inl e
                   | Inr (fs, seen') \<Rightarrow>
                       (case collectTopLevelFields frags rest seen' visitedFrags depth of
                          Inl e \<Rightarrow> Inl e | Inr (fs', seen'') \<Rightarrow> Inr (fs @ fs', seen''))))))"
  by pat_completeness auto
termination
  by (relation "measures [\<lambda>(frags, sels, seen, vis, depth). Suc maxFragmentDepth - depth,
                          \<lambda>(frags, sels, seen, vis, depth). length sels]") auto

declare collectTopLevelFields.simps [simp del]

fun collectOperations ::
  "queryDocument \<Rightarrow> string \<Rightarrow> (string \<times> selection list) list \<Rightarrow> string list \<Rightarrow> gql_error + topLevelField list" where
  "collectOperations doc operationName [] seen = Inr []"
| "collectOperations doc operationName ((name, sels) # ops) seen =
     (if operationName \<noteq> [] \<and> name \<noteq> operationName then collectOperations doc operationName ops seen
      else (case collectTopLevelFields (Fragments doc) sels seen [] 0 of
          Inl e \<Rightarrow> Inl e
        | Inr (fs, seen') \<Rightarrow>
            (case collectOperations doc operationName ops seen' of Inl e \<Rightarrow> Inl e | Inr fs' \<Rightarrow> Inr (fs @ fs'))))"

definition topLevelFields ::
  "(string \<Rightarrow> queryDocument option) \<Rightarrow> string \<Rightarrow> string \<Rightarrow> gql_error + topLevelField list" where
  "topLevelFields parseQuery query operationName =
     (if query = [] then Inr []
      else (case parseQuery query of
          None \<Rightarrow> Inl ParseFailed
        | Some doc \<Rightarrow> collectOperations doc operationName (Operations doc) []))"

definition collectionNames :: "topLevelField list \<Rightarrow> string list" where
  "collectionNames fs = dedupOn id [] (map tlName fs)"

definition collectionsFromQuery ::
  "(string \<Rightarrow> queryDocument option) \<Rightarrow> string \<Rightarrow> string \<Rightarrow> gql_error + string list" where
  "collectionsFromQuery parseQuery query operationName =
     (case topLevelFields parseQuery query operationName of Inl e \<Rightarrow> Inl e | Inr fs \<Rightarrow> Inr (collectionNames fs))"

definition responseKeys :: "topLevelField list \<Rightarrow> string \<Rightarrow> string list" where
  "responseKeys fs name = map ResponseKey (filter (\<lambda>f. tlName f = name) fs)"

subsection \<open>Requests\<close>

record graphQLRequest =
  Query :: string
  OperationName :: string
  Variables :: "string option"
  Extensions :: "string option"

datatype requestBody = NilBody | UnreadableBody | Body string

record httpRequest =
  Method :: string
  urlPath :: string
  urlQuery :: "(string \<times> string) list"
  contentTypeHeader :: string
  reqBody :: requestBody

definition urlParam :: "httpRequest \<Rightarrow> string \<Rightarrow> string" where
  "urlParam r k = (case map_of (urlQuery r) k of None \<Rightarrow> [] | Some v \<Rightarrow> v)"

definition rawOrNil :: "string \<Rightarrow> string option" where
  "rawOrNil s = (if s = [] then None else Some s)"

definition contentTypeOf :: "httpRequest \<Rightarrow> string" where
  "contentTypeOf r =
     (let ct = contentTypeHeader r in
      toLower (trimSpace (case indexByte ct (CHR '';'') of None \<Rightarrow> ct | Some semi \<Rightarrow> take semi ct)))"

definition emptyRequest :: graphQLRequest where
  "emptyRequest = \<lparr>Query = [], OperationName = [], Variables = None, Extensions = None\<rparr>"

definition parseGraphQLRequest ::
  "(string \<Rightarrow> graphQLRequest option) \<Rightarrow> httpRequest \<Rightarrow> gql_error + graphQLRequest" where
  "parseGraphQLRequest jsonPayload r =
     (if Method r = ''GET''
      then Inr \<lparr>Query = urlParam r ''query'', OperationName = urlParam r ''operationName'',
                Variables = rawOrNil (urlParam r ''variables''), Extensions = None\<rparr>
      else if Method r = ''POST'' then
        (if urlParam r ''query'' \<noteq> []
         then Inr \<lparr>Query = urlParam r ''query'', OperationName = urlParam r ''operationName'',
                   Variables = rawOrNil (urlParam r ''variables''), Extensions = None\<rparr>
         else (case reqBody r of
             NilBody \<Rightarrow> Inr emptyRequest
           | UnreadableBody \<Rightarrow> Inl ReadBodyFailed
           | Body b \<Rightarrow>
               if b = [] then Inr emptyRequest
               else if contentTypeOf r = ''application/graphql'' then Inr (emptyRequest\<lparr>Query := b\<rparr>)
               else (case jsonPayload b of None \<Rightarrow> Inl ParseFailed | Some p \<Rightarrow> Inr p)))
      else Inr emptyRequest)"

definition ExtractCollections ::
  "(string \<Rightarrow> queryDocument option) \<Rightarrow> (string \<Rightarrow> graphQLRequest option) \<Rightarrow> httpRequest \<Rightarrow> gql_error + string list" where
  "ExtractCollections parseQuery jsonPayload r =
     (case parseGraphQLRequest jsonPayload r of
        Inl e \<Rightarrow> Inl e | Inr req \<Rightarrow> collectionsFromQuery parseQuery (Query req) (OperationName req))"

subsection \<open>The fields an operation really selects\<close>

text \<open>Field \<open>(alias, name)\<close> is selected at the top level of a selection set.\<close>

inductive selects :: "(string \<times> selection list) list \<Rightarrow> selection list \<Rightarrow> string \<Rightarrow> string \<Rightarrow> bool" for frags where
  field: "selects frags (SField a n # rest) a n"
| inline: "selects frags nested a n \<Longrightarrow> selects frags (SInline nested # rest) a n"
| spread: "map_of frags f = Some body \<Longrightarrow> selects frags body a n \<Longrightarrow> selects frags (SSpread f # rest) a n"
| rest: "selects frags sels a n \<Longrightarrow> selects frags (sel # sels) a n"

inductive_simps selects_simps [simp]:
  "selects frags [] a n"
  "selects frags (SField a' n' # sels) a n"
  "selects frags (SInline nested # sels) a n"
  "selects frags (SSpread f # sels) a n"

lemma collect_spec:
  assumes "collectTopLevelFields frags sels seen visitedFrags depth = Inr (fs, seen')"
  shows "set seen' = set seen \<union> ResponseKey ` set fs \<and> distinct (map ResponseKey fs)
    \<and> ResponseKey ` set fs \<inter> set seen = {}
    \<and> (\<forall>a n. selects frags sels a n \<longrightarrow> a \<in> set seen')
    \<and> (\<forall>f \<in> set fs. selects frags sels (ResponseKey f) (tlName f))"
  using assms
proof (induction frags sels seen visitedFrags depth arbitrary: fs seen' rule: collectTopLevelFields.induct)
  case (1 frags sels seen vis depth)
  note eq = "1.prems" [unfolded collectTopLevelFields.simps [of frags sels seen vis depth]]
  from eq have d: "\<not> depth > maxFragmentDepth" by (auto split: if_splits)
  show ?case
  proof (cases sels)
    case Nil
    with eq d show ?thesis by simp
  next
    case (Cons sel rest)
    show ?thesis
    proof (cases sel)
      case (SField a n)
      note IH1 = "1.IH"(1) [OF d Cons SField] and IH2 = "1.IH"(2) [OF d Cons SField]
      show ?thesis
      proof (cases "a \<in> set seen")
        case True
        with eq d Cons SField have r: "collectTopLevelFields frags rest seen vis depth = Inr (fs, seen')" by simp
        from IH1 [OF True r] True Cons SField show ?thesis by (auto intro: selects.rest)
      next
        case False
        with eq d Cons SField obtain fs1 where
          r: "collectTopLevelFields frags rest (a # seen) vis depth = Inr (fs1, seen')"
          and fs: "fs = \<lparr>ResponseKey = a, tlName = n\<rparr> # fs1" by (auto split: sum.splits prod.splits)
        from IH2 [OF False r] False fs Cons SField show ?thesis by (auto intro: selects.rest)
      qed
    next
      case (SInline nested)
      with eq d Cons obtain fs1 seen1 fs2 where
        r1: "collectTopLevelFields frags nested seen vis (depth + 1) = Inr (fs1, seen1)"
        and r2: "collectTopLevelFields frags rest seen1 vis depth = Inr (fs2, seen')"
        and fs: "fs = fs1 @ fs2" by (auto split: sum.splits prod.splits)
      from "1.IH"(3) [OF d Cons SInline r1] "1.IH"(4) [OF d Cons SInline r1 refl r2] fs Cons SInline
      show ?thesis by (auto intro: selects.rest selects.inline)
    next
      case (SSpread f)
      with eq d Cons obtain body fs1 seen1 fs2 where
        f: "f \<notin> set vis" "map_of frags f = Some body"
        and r1: "collectTopLevelFields frags body seen (f # vis) (depth + 1) = Inr (fs1, seen1)"
        and r2: "collectTopLevelFields frags rest seen1 vis depth = Inr (fs2, seen')"
        and fs: "fs = fs1 @ fs2" by (auto split: sum.splits prod.splits if_splits option.splits)
      from "1.IH"(5) [OF d Cons SSpread f r1] "1.IH"(6) [OF d Cons SSpread f r1 refl r2] fs f Cons SSpread
      show ?thesis by (auto intro: selects.rest selects.spread)
    qed
  qed
qed

lemma collectOperations_spec:
  assumes "collectOperations doc opn ops seen = Inr fs"
  shows "(\<forall>nm sels a n. (nm, sels) \<in> set ops \<and> (opn = [] \<or> nm = opn) \<and> selects (Fragments doc) sels a n \<longrightarrow>
        a \<in> set seen \<union> ResponseKey ` set fs)
    \<and> (\<forall>f \<in> set fs. \<exists>nm sels. (nm, sels) \<in> set ops \<and> (opn = [] \<or> nm = opn)
          \<and> selects (Fragments doc) sels (ResponseKey f) (tlName f))"
  using assms
proof (induction ops arbitrary: seen fs)
  case Nil
  then show ?case by simp
next
  case (Cons op ops)
  obtain nm sels where op: "op = (nm, sels)" by (cases op)
  show ?case
  proof (cases "opn \<noteq> [] \<and> nm \<noteq> opn")
    case True
    with Cons op have "collectOperations doc opn ops seen = Inr fs" by simp
    from Cons.IH [OF this] True op show ?thesis by auto
  next
    case False
    with Cons.prems op obtain fs1 seen1 fs2 where
      r1: "collectTopLevelFields (Fragments doc) sels seen [] 0 = Inr (fs1, seen1)"
      and r2: "collectOperations doc opn ops seen1 = Inr fs2" and fs: "fs = fs1 @ fs2"
      by (auto split: sum.splits prod.splits)
    note s1 = collect_spec [OF r1] and s2 = Cons.IH [OF r2]
    have "a \<in> set seen \<union> ResponseKey ` set fs"
      if "(nm', sels') \<in> set (op # ops)" "opn = [] \<or> nm' = opn" "selects (Fragments doc) sels' a n" for nm' sels' a n
    proof (cases "(nm', sels') = op")
      case True
      with that s1 op have "a \<in> set seen1" by blast
      with s1 fs show ?thesis by auto
    next
      case False
      with that s2 have "a \<in> set seen1 \<union> ResponseKey ` set fs2" by auto
      with s1 fs show ?thesis by auto
    qed
    moreover have "\<exists>nm sels. (nm, sels) \<in> set (op # ops) \<and> (opn = [] \<or> nm = opn)
        \<and> selects (Fragments doc) sels (ResponseKey f) (tlName f)" if "f \<in> set fs" for f
    proof (cases "f \<in> set fs1")
      case True
      with s1 op False show ?thesis by (intro exI [of _ nm] exI [of _ sels]) auto
    next
      case False
      with that fs s2 show ?thesis by (metis Un_iff list.set_intros(2) set_append)
    qed
    ultimately show ?thesis by blast
  qed
qed

lemma set_collectionNames: "set (collectionNames fs) = tlName ` set fs"
  by (simp add: collectionNames_def dedup_id)

text \<open>
  Two selections under one response key hide the second name; they are one field only when
  their names agree, which GraphQL validation requires of an executable operation.
\<close>

lemma alias_conflict_hides_name:
  "collectTopLevelFields [] [SField ''x'' ''Block'', SField ''x'' ''PaidView''] [] [] 0
     = Inr ([\<lparr>ResponseKey = ''x'', tlName = ''Block''\<rparr>], [''x''])"
  by (simp add: collectTopLevelFields.simps)

subsection \<open>Properties\<close>

text \<open>
  C16. The gate sees every collection a request reads: when the walk succeeds and selections
  that share a response key agree on the field, the collection names it returns are exactly
  the names selected at the top level of the operations that may run, through inline fragments
  and fragment spreads of any shape.
\<close>

theorem gated_collections_exact:
  assumes "query \<noteq> []" "parseQuery query = Some doc" "topLevelFields parseQuery query opn = Inr fs"
    and "\<forall>s t a n n'. s \<in> runnable \<and> t \<in> runnable \<and> selects (Fragments doc) s a n \<and> selects (Fragments doc) t a n' \<longrightarrow> n = n'"
    and "runnable = {sels. \<exists>nm. (nm, sels) \<in> set (Operations doc) \<and> (opn = [] \<or> nm = opn)}"
  shows "set (collectionNames fs) = {n. \<exists>sels \<in> runnable. \<exists>a. selects (Fragments doc) sels a n}"
proof -
  from assms(1-3) have "collectOperations doc opn (Operations doc) [] = Inr fs" by (simp add: topLevelFields_def)
  from collectOperations_spec [OF this] have
    c: "\<And>sels a n. sels \<in> runnable \<Longrightarrow> selects (Fragments doc) sels a n \<Longrightarrow> a \<in> ResponseKey ` set fs"
    and s: "\<And>f. f \<in> set fs \<Longrightarrow> \<exists>sels \<in> runnable. selects (Fragments doc) sels (ResponseKey f) (tlName f)"
    unfolding assms(5) by (fastforce, blast)
  have "n \<in> tlName ` set fs" if "sels \<in> runnable" "selects (Fragments doc) sels a n" for sels a n
  proof -
    from c [OF that] obtain f where f: "f \<in> set fs" "a = ResponseKey f" by auto
    from s [OF f(1)] obtain t where t: "t \<in> runnable" "selects (Fragments doc) t (ResponseKey f) (tlName f)" by blast
    have "n = tlName f" using assms(4) that t f(2) by blast
    with f show ?thesis by blast
  qed
  with s show ?thesis unfolding set_collectionNames by blast
qed

definition demoDoc :: queryDocument where
  "demoDoc = \<lparr>Operations = [([], [SField ''b'' ''Block'', SSpread ''F''])],
     Fragments = [(''F'', [SInline [SField ''v'' ''PaidView'']])]\<rparr>"

theorem gated_collections_exact_witness:
  "\<exists>fs. topLevelFields (\<lambda>q. Some demoDoc) ''q'' [] = Inr fs \<and> set (collectionNames fs) = {''Block'', ''PaidView''}"
proof -
  let ?sels = "[SField ''b'' ''Block'', SSpread ''F'']" and ?p = "\<lambda>q. Some demoDoc"
  obtain fs where t: "topLevelFields ?p ''q'' [] = Inr fs"
    by (simp add: topLevelFields_def demoDoc_def collectTopLevelFields.simps)
  have sel: "selects (Fragments demoDoc) ?sels a n \<longleftrightarrow> (a, n) \<in> {(''b'', ''Block''), (''v'', ''PaidView'')}" for a n
    by (auto simp: demoDoc_def)
  have r: "{?sels} = {sels. \<exists>nm. (nm, sels) \<in> set (Operations demoDoc) \<and> ([] = [] \<or> nm = [])}"
    by (auto simp: demoDoc_def)
  have "set (collectionNames fs) = {n. \<exists>sels \<in> {?sels}. \<exists>a. selects (Fragments demoDoc) sels a n}"
    by (rule gated_collections_exact [OF _ _ t _ r]) (use sel in auto)
  also have "\<dots> = {''Block'', ''PaidView''}" using sel by auto
  finally show ?thesis using t by blast
qed

end
