(* ===== verification/Billing_Gate.thy ===== *)
theory Billing_Gate
  imports GraphQL_Fields Billing_Config View_Manager
begin

text \<open>
  \<open>pkg/acp/middleware.go\<close>, \<open>capture.go\<close> and \<open>registry.go\<close>: the gate in front of the GraphQL
  endpoint. The wrapped handler is the list of writes it makes for a request; the capturing
  writer is folded over it. The signature library (\<open>CheckFreshness\<close>, \<open>VerifyRequest\<close>), the
  address type, the GraphQL parser and the JSON decoding are arguments, in the record
  \<open>gateEnv\<close>. The registry of views and the authorizer are interfaces: their laws are locales,
  interpreted on the view manager and on the balance authorizer with its epoch clock.
\<close>

subsection \<open>The capturing writer\<close>

datatype writerOp = SetContentType string | OpWriteHeader nat | OpWrite string | OpFlush

text \<open>\<open>cwThrough\<close> is what reaches the wrapped writer, \<open>cwContentType\<close> its header.\<close>

record captureWriter =
  cwStatus :: nat
  cwStreaming :: bool
  cwBody :: string
  cwContentType :: string
  cwThrough :: "writerOp list"

definition newCaptureWriter :: captureWriter where
  "newCaptureWriter = \<lparr>cwStatus = 200, cwStreaming = False, cwBody = [], cwContentType = [], cwThrough = []\<rparr>"

definition cwWriteHeader :: "nat \<Rightarrow> captureWriter \<Rightarrow> captureWriter" where
  "cwWriteHeader status c =
     c\<lparr>cwStatus := status, cwStreaming := (cwStreaming c \<or> hasPrefix (cwContentType c) ''text/event-stream''),
       cwThrough := cwThrough c @ [OpWriteHeader status]\<rparr>"

definition cwWrite :: "string \<Rightarrow> captureWriter \<Rightarrow> captureWriter" where
  "cwWrite b c =
     c\<lparr>cwBody := (if cwStreaming c then cwBody c else cwBody c @ b), cwThrough := cwThrough c @ [OpWrite b]\<rparr>"

definition cwFlush :: "captureWriter \<Rightarrow> captureWriter" where
  "cwFlush c = c\<lparr>cwThrough := cwThrough c @ [OpFlush]\<rparr>"

fun cwStep :: "writerOp \<Rightarrow> captureWriter \<Rightarrow> captureWriter" where
  "cwStep (SetContentType t) c = c\<lparr>cwContentType := t, cwThrough := cwThrough c @ [SetContentType t]\<rparr>"
| "cwStep (OpWriteHeader s) c = cwWriteHeader s c"
| "cwStep (OpWrite b) c = cwWrite b c"
| "cwStep OpFlush c = cwFlush c"

definition captureRun :: "writerOp list \<Rightarrow> captureWriter" where
  "captureRun ops = fold cwStep ops newCaptureWriter"

subsection \<open>The gate\<close>

record Extensions =
  RequestSignature :: string
  extNonce :: string
  extQueryHash :: string
  RequestTimestamp :: nat
  PoolAddress :: string

record 'p gateEnv =
  parseQuery :: "string \<Rightarrow> queryDocument option"
  jsonPayload :: "string \<Rightarrow> graphQLRequest option"
  decodeExtensions :: "string \<Rightarrow> Extensions option"
  CheckFreshness :: "nat \<Rightarrow> int \<Rightarrow> int \<Rightarrow> bool"
  VerifyRequest :: "nat \<Rightarrow> string \<Rightarrow> string option \<Rightarrow> Extensions \<Rightarrow> 'p option"
  HexToAddress :: "string \<Rightarrow> 'p"
  zeroAddress :: 'p
  responseData :: "string \<Rightarrow> (string \<rightharpoonup> string) option"
  arrayLength :: "string \<Rightarrow> nat option"

record Middleware =
  chainID :: nat
  maxRequestAge :: int
  hasRecorder :: bool

text \<open>\<open>viewRows\<close>: the counter is 64 bits wide.\<close>

fun countRows :: "'p gateEnv \<Rightarrow> (string \<rightharpoonup> string) \<Rightarrow> string list \<Rightarrow> nat \<times> bool \<Rightarrow> nat \<times> bool" where
  "countRows env dat [] acc = acc"
| "countRows env dat (key # keys) (rows, served) =
     (case dat key of
        None \<Rightarrow> countRows env dat keys (rows, served)
      | Some raw \<Rightarrow>
          if trimSpace raw = ''null'' then countRows env dat keys (rows, served)
          else (case arrayLength env raw of
              None \<Rightarrow> countRows env dat keys (rows, served)
            | Some n \<Rightarrow> countRows env dat keys ((rows + n) mod 2 ^ 64, True)))"

definition viewRows :: "'p gateEnv \<Rightarrow> string \<Rightarrow> string list \<Rightarrow> nat \<times> bool" where
  "viewRows env body viewKeys =
     (case responseData env body of None \<Rightarrow> (0, False) | Some dat \<Rightarrow> countRows env dat viewKeys (0, False))"

datatype ext_error = NoExtensions | ParseExtensions | NoRequestSignature

definition parseExtensions :: "'p gateEnv \<Rightarrow> string option \<Rightarrow> ext_error + Extensions" where
  "parseExtensions env raw =
     (case raw of
        None \<Rightarrow> Inl NoExtensions
      | Some s \<Rightarrow>
          if s = [] then Inl NoExtensions
          else (case decodeExtensions env s of
              None \<Rightarrow> Inl ParseExtensions
            | Some ext \<Rightarrow> if RequestSignature ext = [] then Inl NoRequestSignature else Inr ext))"

text \<open>\<open>None\<close> is the refusal (503) of a registered view without an address.\<close>

fun collectViewLookups :: "(string \<Rightarrow> bool) \<Rightarrow> (string \<Rightarrow> string option) \<Rightarrow> string list \<Rightarrow> string list option" where
  "collectViewLookups isView address [] = Some []"
| "collectViewLookups isView address (name # names) =
     (if \<not> isView name then collectViewLookups isView address names
      else (case address name of
          None \<Rightarrow> None
        | Some _ \<Rightarrow> map_option (Cons name) (collectViewLookups isView address names)))"

datatype gateReply = ErrorReply nat string | Forwarded "writerOp list"

record 'p serviceRecord =
  srPayer :: 'p
  srExtensions :: Extensions
  srView :: string
  srRows :: nat

definition submitRecord :: "Middleware \<Rightarrow> 'p \<Rightarrow> Extensions \<Rightarrow> string \<Rightarrow> nat \<Rightarrow> 'p serviceRecord option" where
  "submitRecord mw payer ext view rows =
     (if \<not> hasRecorder mw then None
      else Some \<lparr>srPayer = payer, srExtensions = ext, srView = view, srRows = rows\<rparr>)"

text \<open>The end of the allow path: the request is served through the capturing writer.\<close>

definition serveBilled ::
  "'p gateEnv \<Rightarrow> Middleware \<Rightarrow> (httpRequest \<Rightarrow> writerOp list) \<Rightarrow> httpRequest \<Rightarrow> topLevelField list
     \<Rightarrow> 'p \<Rightarrow> Extensions \<Rightarrow> string \<Rightarrow> gateReply \<times> 'p serviceRecord option" where
  "serveBilled env mw nextHandler r fs payer ext view =
     (let cw = captureRun (nextHandler r);
          (rows, served) = viewRows env (cwBody cw) (responseKeys fs view) in
      (Forwarded (cwThrough cw),
       if served \<and> cwStatus cw div 100 = 2 then submitRecord mw payer ext view rows else None))"

definition handleGraphQL ::
  "'p gateEnv \<Rightarrow> Middleware \<Rightarrow> (string \<Rightarrow> bool) \<Rightarrow> (string \<Rightarrow> string option)
     \<Rightarrow> ('p \<Rightarrow> 's \<Rightarrow> (auth_error + bool) \<times> 's) \<Rightarrow> int \<Rightarrow> (httpRequest \<Rightarrow> writerOp list) \<Rightarrow> httpRequest \<Rightarrow> 's
     \<Rightarrow> (gateReply \<times> 'p serviceRecord option) \<times> 's" where
  "handleGraphQL env mw isView address authz now nextHandler r s =
     (case parseGraphQLRequest (jsonPayload env) r of
        Inl e \<Rightarrow> ((ErrorReply 400 ''bad graphql request'', None), s)
      | Inr req \<Rightarrow>
      (case topLevelFields (parseQuery env) (Query req) (OperationName req) of
        Inl e \<Rightarrow> ((ErrorReply 400 ''bad graphql request'', None), s)
      | Inr fs \<Rightarrow>
      (case collectViewLookups isView address (collectionNames fs) of
        None \<Rightarrow> ((ErrorReply 503 ''view metadata unavailable'', None), s)
      | Some lookups \<Rightarrow>
        if length lookups = 0 then ((Forwarded (nextHandler r), None), s)
        else if length lookups > 1 then ((ErrorReply 400 ''a billed query may touch only one view'', None), s)
        else
      (case parseExtensions env (Extensions req) of
        Inl e \<Rightarrow> ((ErrorReply 403 ''forbidden: missing request signature'', None), s)
      | Inr ext \<Rightarrow>
        if \<not> CheckFreshness env (RequestTimestamp ext) now (maxRequestAge mw)
        then ((ErrorReply 403 ''forbidden: stale or future request'', None), s)
        else
      (case VerifyRequest env (chainID mw) (Query req) (Variables req) ext of
        None \<Rightarrow> ((ErrorReply 403 ''forbidden: request verification failed'', None), s)
      | Some payer \<Rightarrow>
        if HexToAddress env (PoolAddress ext) = zeroAddress env
        then ((ErrorReply 403 ''forbidden: query names no pool'', None), s)
        else
      (case authz payer s of
        (Inl e, s') \<Rightarrow> ((ErrorReply 503 ''authorization backend unavailable'', None), s')
      | (Inr False, s') \<Rightarrow> ((ErrorReply 402 ''payment required: insufficient query balance'', None), s')
      | (Inr True, s') \<Rightarrow> (serveBilled env mw nextHandler r fs payer ext (hd lookups), s')))))))"

definition Wrap ::
  "'p gateEnv \<Rightarrow> Middleware \<Rightarrow> (string \<Rightarrow> bool) \<Rightarrow> (string \<Rightarrow> string option)
     \<Rightarrow> ('p \<Rightarrow> 's \<Rightarrow> (auth_error + bool) \<times> 's) \<Rightarrow> int \<Rightarrow> (httpRequest \<Rightarrow> writerOp list) \<Rightarrow> httpRequest \<Rightarrow> 's
     \<Rightarrow> (gateReply \<times> 'p serviceRecord option) \<times> 's" where
  "Wrap env mw isView address authz now nextHandler r s =
     (if urlPath r \<noteq> ''/api/v0/graphql'' then ((Forwarded (nextHandler r), None), s)
      else handleGraphQL env mw isView address authz now nextHandler r s)"

text \<open>\<open>managerAdapter\<close> of \<open>registry.go\<close>.\<close>

definition IsView :: "'db Manager \<Rightarrow> string \<Rightarrow> bool" where
  "IsView m name = IsActive m name"

definition adapterAddress :: "'db Manager \<Rightarrow> string \<Rightarrow> string option" where
  "adapterAddress m name = ContractAddress m name"

text \<open>\<open>BalanceAuthorizer.Authorize\<close> with its epoch read from the clock.\<close>

definition clockAuthorize ::
  "nat option \<Rightarrow> int \<Rightarrow> ('p \<Rightarrow> string option) \<Rightarrow> (string \<Rightarrow> int option) \<Rightarrow> ('p BalanceAuthorizer \<Rightarrow> 'p BalanceAuthorizer)
     \<Rightarrow> 'p \<Rightarrow> EpochClock \<times> 'p BalanceAuthorizer \<Rightarrow> (auth_error + bool) \<times> (EpochClock \<times> 'p BalanceAuthorizer)" where
  "clockAuthorize height now encode balance others payer s =
     (case s of (c, a) \<Rightarrow>
        (case Epoch height now c of (er, c') \<Rightarrow>
           (case Authorize (case er of Inl e \<Rightarrow> None | Inr ep \<Rightarrow> Some ep) encode balance others payer a of
              (res, a') \<Rightarrow> (res, (c', a')))))"

subsection \<open>Facts about the parts\<close>

lemma captureRun_through: "cwThrough (captureRun ops) = ops"
proof -
  have step: "cwThrough (cwStep x c) = cwThrough c @ [x]" for x c
    by (cases x) (simp_all add: cwWriteHeader_def cwWrite_def cwFlush_def)
  have "cwThrough (fold cwStep ops c) = cwThrough c @ ops" for c
    by (induction ops arbitrary: c) (simp_all add: step)
  then show ?thesis by (simp add: captureRun_def newCaptureWriter_def)
qed

lemma collectViewLookups_filter:
  "collectViewLookups isView address names =
     (if \<exists>n \<in> set names. isView n \<and> address n = None then None else Some (filter isView names))"
  by (induction names) (auto split: option.splits)

lemma countRows_bound: "fst acc < 2 ^ 64 \<Longrightarrow> fst (countRows env dat keys acc) < 2 ^ 64"
  by (induction env dat keys acc rule: countRows.induct) (auto split: option.splits)

lemma viewRows_bound: "fst (viewRows env body keys) < 2 ^ 64"
proof (cases "responseData env body")
  case (Some dat)
  then show ?thesis using countRows_bound [of "(0, False)" env dat keys] by (simp add: viewRows_def)
qed (simp add: viewRows_def)

text \<open>Forwarding with a view in the request means that every check of the gate passed.\<close>

lemma handleGraphQL_forwarded:
  assumes "handleGraphQL env mw isView address authz now nextHandler r s = ((Forwarded ops, rec), s')"
    and "parseGraphQLRequest (jsonPayload env) r = Inr req"
    and "topLevelFields (parseQuery env) (Query req) (OperationName req) = Inr fs"
    and "view \<in> set (collectionNames fs)" "isView view"
  obtains ext payer where "filter isView (collectionNames fs) = [view]" "address view \<noteq> None"
    "parseExtensions env (Extensions req) = Inr ext"
    "CheckFreshness env (RequestTimestamp ext) now (maxRequestAge mw)"
    "VerifyRequest env (chainID mw) (Query req) (Variables req) ext = Some payer"
    "HexToAddress env (PoolAddress ext) \<noteq> zeroAddress env"
    "authz payer s = (Inr True, s')"
    "(Forwarded ops, rec) = serveBilled env mw nextHandler r fs payer ext view"
proof -
  note h = assms(1) [unfolded handleGraphQL_def assms(2) sum.case assms(3)]
  from h obtain lookups where l: "collectViewLookups isView address (collectionNames fs) = Some lookups"
    by (auto split: option.splits)
  then have f: "lookups = filter isView (collectionNames fs)" and a: "address view \<noteq> None"
    using assms(4,5) by (auto simp: collectViewLookups_filter split: if_splits)
  have v: "view \<in> set lookups" using f assms(4,5) by simp
  then have ne: "lookups \<noteq> []" by auto
  with h l have one: "\<not> length lookups > 1" by (auto split: if_splits)
  with ne have "lookups = [view]" using v by (cases lookups; cases "tl lookups") auto
  note h2 = h [unfolded l option.case this, simplified]
  from h2 obtain ext where e: "parseExtensions env (Extensions req) = Inr ext" by (auto split: sum.splits)
  note h3 = h2 [unfolded e sum.case]
  from h3 have fr: "CheckFreshness env (RequestTimestamp ext) now (maxRequestAge mw)" by (auto split: if_splits)
  with h3 obtain payer where p: "VerifyRequest env (chainID mw) (Query req) (Variables req) ext = Some payer"
    by (auto split: option.splits)
  with h3 fr have z: "HexToAddress env (PoolAddress ext) \<noteq> zeroAddress env" by (auto split: if_splits)
  note h4 = h3 [unfolded p option.case]
  from h4 fr z have au: "authz payer s = (Inr True, s')" "(Forwarded ops, rec) = serveBilled env mw nextHandler r fs payer ext view"
    by (auto split: prod.splits sum.splits bool.splits)
  show thesis using that [OF _ a e fr p z au] f \<open>lookups = [view]\<close> by simp
qed

subsection \<open>The interfaces of the gate\<close>

locale view_registry =
  fixes isView :: "string \<Rightarrow> bool" and address :: "string \<Rightarrow> string option"
  assumes addressed: "address n = Some a \<Longrightarrow> isView n \<and> a \<noteq> []"

locale authorizer =
  fixes authz :: "'p \<Rightarrow> 's \<Rightarrow> (auth_error + bool) \<times> 's" and inv :: "'s \<Rightarrow> bool" and justified :: "'s \<Rightarrow> 'p \<Rightarrow> bool"
  assumes yes: "inv s \<Longrightarrow> fst (authz p s) = Inr True \<Longrightarrow> justified s p"

locale gate = view_registry isView address + authorizer authz inv justified
  for isView :: "string \<Rightarrow> bool" and address :: "string \<Rightarrow> string option"
    and authz :: "'p \<Rightarrow> 's \<Rightarrow> (auth_error + bool) \<times> 's" and inv :: "'s \<Rightarrow> bool" and justified :: "'s \<Rightarrow> 'p \<Rightarrow> bool"
begin

lemma forwarded_is_paid:
  assumes "inv s"
    and "handleGraphQL env mw isView address authz now nextHandler r s = ((Forwarded ops, rec), s')"
    and "parseGraphQLRequest (jsonPayload env) r = Inr req"
    and "topLevelFields (parseQuery env) (Query req) (OperationName req) = Inr fs"
    and "view \<in> set (collectionNames fs)" "isView view"
  shows "ops = nextHandler r \<and> (\<exists>ext payer a. filter isView (collectionNames fs) = [view]
     \<and> address view = Some a \<and> a \<noteq> []
     \<and> CheckFreshness env (RequestTimestamp ext) now (maxRequestAge mw)
     \<and> VerifyRequest env (chainID mw) (Query req) (Variables req) ext = Some payer
     \<and> HexToAddress env (PoolAddress ext) \<noteq> zeroAddress env
     \<and> justified s payer
     \<and> (\<forall>sr. rec = Some sr \<longrightarrow> srPayer sr = payer \<and> srExtensions sr = ext \<and> srView sr = view
          \<and> srRows sr = fst (viewRows env (cwBody (captureRun ops)) (responseKeys fs view)))
     \<and> (rec \<noteq> None \<longleftrightarrow> hasRecorder mw \<and> snd (viewRows env (cwBody (captureRun ops)) (responseKeys fs view))
          \<and> cwStatus (captureRun ops) div 100 = 2))"
proof -
  from handleGraphQL_forwarded [OF assms(2-6)] obtain ext payer where
    h: "filter isView (collectionNames fs) = [view]" "address view \<noteq> None"
    "CheckFreshness env (RequestTimestamp ext) now (maxRequestAge mw)"
    "VerifyRequest env (chainID mw) (Query req) (Variables req) ext = Some payer"
    "HexToAddress env (PoolAddress ext) \<noteq> zeroAddress env" "authz payer s = (Inr True, s')"
    and sb: "(Forwarded ops, rec) = serveBilled env mw nextHandler r fs payer ext view" by metis
  obtain a where a: "address view = Some a" using h(2) by blast
  have j: "justified s payer" using yes [OF assms(1), of payer] h(6) by simp
  obtain rows served where v: "viewRows env (cwBody (captureRun (nextHandler r))) (responseKeys fs view) = (rows, served)" by fastforce
  from sb v have ops: "ops = nextHandler r"
    and rc: "rec = (if served \<and> cwStatus (captureRun (nextHandler r)) div 100 = 2 then submitRecord mw payer ext view rows else None)"
    by (auto simp: serveBilled_def captureRun_through)
  have "(\<forall>sr. rec = Some sr \<longrightarrow> srPayer sr = payer \<and> srExtensions sr = ext \<and> srView sr = view \<and> srRows sr = rows)
    \<and> (rec \<noteq> None \<longleftrightarrow> hasRecorder mw \<and> served \<and> cwStatus (captureRun ops) div 100 = 2)"
    using rc ops by (auto simp: submitRecord_def)
  with h(1,3,4,5) a addressed [OF a] j ops v show ?thesis
    by (intro conjI exI [of _ ext] exI [of _ payer] exI [of _ a]) simp_all
qed

end

text \<open>A payer is paid up when a balance of at least the minimum was read for the epoch in force.\<close>

definition paidUp ::
  "int \<Rightarrow> (nat \<times> 'p \<times> int) set \<Rightarrow> nat option \<Rightarrow> int \<Rightarrow> ('p \<Rightarrow> string option) \<Rightarrow> (string \<Rightarrow> int option)
     \<Rightarrow> EpochClock \<times> 'p BalanceAuthorizer \<Rightarrow> 'p \<Rightarrow> bool" where
  "paidUp m L height now encode balance s payer \<longleftrightarrow>
     (\<exists>e. fst (Epoch height now (fst s)) = Inr e \<and>
        ((\<exists>b \<ge> m. (e, payer, b) \<in> L) \<or> (\<exists>addr b. encode payer = Some addr \<and> balance addr = Some b \<and> m \<le> b)))"

lemma clockAuthorize_yes:
  assumes "authReach m L (snd s)" "fst (clockAuthorize height now encode balance others payer s) = Inr True"
  shows "paidUp m L height now encode balance s payer"
proof -
  obtain c a where s: "s = (c, a)" by (cases s)
  obtain er c' where e: "Epoch height now c = (er, c')" by fastforce
  let ?ep = "case er of Inl e \<Rightarrow> None | Inr ep \<Rightarrow> Some ep"
  from assms(2) s e have yes: "fst (Authorize ?ep encode balance others payer a) = Inr True"
    by (auto simp: clockAuthorize_def split: prod.splits)
  then obtain ep where ep: "er = Inr ep" by (cases er) (auto simp: Authorize_def)
  have "authReach m L a" using assms(1) s by simp
  from Authorize_yes [OF this] yes ep show ?thesis using e s by (auto simp: paidUp_def)
qed

interpretation gt: gate "IsView mgr" "adapterAddress mgr" "clockAuthorize height now encode balance others"
  "\<lambda>s. authReach m L (snd s)" "paidUp m L height now encode balance"
  for mgr :: "'db Manager" and height now encode balance others m L
proof unfold_locales
  show "adapterAddress mgr n = Some a \<Longrightarrow> IsView mgr n \<and> a \<noteq> []" for n a
    by (auto simp: adapterAddress_def ContractAddress_def IsView_def IsActive_def split: option.splits if_splits)
  show "authReach m L (snd s) \<Longrightarrow> fst (clockAuthorize height now encode balance others p s) = Inr True
    \<Longrightarrow> paidUp m L height now encode balance s p" for s p
    by (rule clockAuthorize_yes)
qed

subsection \<open>Properties\<close>

text \<open>
  C18. A billed view is served only to a payer that paid: when the gate forwards a request that
  touches an active view, it is the only view of the request and has a contract address, the
  request is fresh and its signature verifies for a payer, the pool is not the zero address, and
  a balance of at least the minimum was read for the payer in the epoch in force, under any
  interleaving of authorizations. The response passes unchanged, and a record for exactly that
  payer, view and row count is submitted if and only if the view served rows with a 2xx status.
\<close>

theorem gate_forwards_only_paid:
  assumes "authReach m L a"
    and "handleGraphQL env mw (IsView mgr) (adapterAddress mgr) (clockAuthorize height t encode balance others) now nextHandler r (c, a)
      = ((Forwarded ops, rec), s')"
    and "parseGraphQLRequest (jsonPayload env) r = Inr req"
    and "topLevelFields (parseQuery env) (Query req) (OperationName req) = Inr fs"
    and "view \<in> set (collectionNames fs)" "IsView mgr view"
  shows "ops = nextHandler r \<and> (\<exists>ext payer addr. filter (IsView mgr) (collectionNames fs) = [view]
     \<and> adapterAddress mgr view = Some addr \<and> addr \<noteq> []
     \<and> CheckFreshness env (RequestTimestamp ext) now (maxRequestAge mw)
     \<and> VerifyRequest env (chainID mw) (Query req) (Variables req) ext = Some payer
     \<and> HexToAddress env (PoolAddress ext) \<noteq> zeroAddress env
     \<and> paidUp m L height t encode balance (c, a) payer
     \<and> (\<forall>sr. rec = Some sr \<longrightarrow> srPayer sr = payer \<and> srExtensions sr = ext \<and> srView sr = view
          \<and> srRows sr = fst (viewRows env (cwBody (captureRun ops)) (responseKeys fs view)))
     \<and> (rec \<noteq> None \<longleftrightarrow> hasRecorder mw \<and> snd (viewRows env (cwBody (captureRun ops)) (responseKeys fs view))
          \<and> cwStatus (captureRun ops) div 100 = 2))"
  by (rule gt.forwarded_is_paid [OF _ assms(2-6)]) (simp add: assms(1))

definition demoExt :: Extensions where
  "demoExt = \<lparr>RequestSignature = ''0xs'', extNonce = ''n'', extQueryHash = ''h'', RequestTimestamp = 100, PoolAddress = ''pool''\<rparr>"

definition demoGate :: "string gateEnv" where
  "demoGate = \<lparr>parseQuery = \<lambda>q. Some \<lparr>Operations = [([], [SField ''v'' ''V''])], Fragments = []\<rparr>,
     jsonPayload = \<lambda>b. Some \<lparr>Query = ''q'', OperationName = [], Variables = None, Extensions = Some ''e''\<rparr>,
     decodeExtensions = \<lambda>s. Some demoExt, CheckFreshness = \<lambda>ts now age. \<bar>now - int ts\<bar> \<le> age,
     VerifyRequest = \<lambda>i q v x. Some ''payer'', HexToAddress = id, zeroAddress = [],
     responseData = \<lambda>b. Some [''v'' \<mapsto> ''rows''], arrayLength = \<lambda>s. Some 3\<rparr>"

definition demoRequest :: httpRequest where
  "demoRequest = \<lparr>Method = ''POST'', urlPath = ''/api/v0/graphql'', urlQuery = [], contentTypeHeader = [], reqBody = Body ''b''\<rparr>"

definition demoActive :: "unit Manager" where
  "demoActive = demoManager\<lparr>activeViews := [(''V'', activeEntry (plainView ''V''))]\<rparr>"

theorem gate_forwards_only_paid_witness:
  "\<exists>rec s'. handleGraphQL demoGate \<lparr>chainID = 1, maxRequestAge = 120, hasRecorder = True\<rparr> (IsView demoActive) (adapterAddress demoActive)
      (clockAuthorize (Some 700) 0 Some (\<lambda>p. Some 25) id) 110 (\<lambda>r. [OpWriteHeader 200, OpWrite ''x'']) demoRequest
      (NewEpochClock 100 30, NewBalanceAuthorizer 10) = ((Forwarded [OpWriteHeader 200, OpWrite ''x''], rec), s') \<and> rec \<noteq> None"
proof -
  let ?mw = "\<lparr>chainID = 1, maxRequestAge = 120, hasRecorder = True\<rparr>"
  let ?next = "\<lambda>r. [OpWriteHeader 200, OpWrite ''x'']" and ?az = "clockAuthorize (Some 700) 0 Some (\<lambda>p. Some 25) id"
  let ?fs = "[\<lparr>ResponseKey = ''v'', tlName = ''V''\<rparr>]"
  let ?req = "\<lparr>Query = ''q'', OperationName = [], Variables = None, Extensions = Some ''e''\<rparr>"
  have r: "parseGraphQLRequest (jsonPayload demoGate) demoRequest = Inr ?req"
    by (simp add: parseGraphQLRequest_def demoRequest_def demoGate_def urlParam_def contentTypeOf_def trimSpace_def toLower_def)
  have f: "topLevelFields (parseQuery demoGate) (Query ?req) (OperationName ?req) = Inr ?fs"
    by (simp add: topLevelFields_def demoGate_def collectTopLevelFields.simps)
  have n: "collectionNames ?fs = [''V'']" by (simp add: collectionNames_def)
  have v: "IsView demoActive ''V''" "adapterAddress demoActive ''V'' = Some ''0x1''"
    by (simp_all add: IsView_def IsActive_def adapterAddress_def ContractAddress_def demoActive_def activeEntry_def plainView_def)
  have x: "parseExtensions demoGate (Extensions ?req) = Inr demoExt" by (simp add: parseExtensions_def demoGate_def demoExt_def)
  have az: "fst (?az ''payer'' (NewEpochClock 100 30, NewBalanceAuthorizer 10)) = Inr True"
    by (simp add: clockAuthorize_def Epoch_def refresh_def NewEpochClock_def Authorize_def cachedFunded_def NewBalanceAuthorizer_def Let_def)
  then obtain s' where az': "?az ''payer'' (NewEpochClock 100 30, NewBalanceAuthorizer 10) = (Inr True, s')" by (metis prod.collapse)
  have th: "cwThrough (captureRun (?next demoRequest)) = [OpWriteHeader 200, OpWrite ''x'']" by (rule captureRun_through)
  have h0: "fst (handleGraphQL demoGate ?mw (IsView demoActive) (adapterAddress demoActive) ?az 110 ?next demoRequest (NewEpochClock 100 30, NewBalanceAuthorizer 10))
      = serveBilled demoGate ?mw ?next demoRequest ?fs ''payer'' demoExt ''V''"
    unfolding handleGraphQL_def r sum.case f n collectViewLookups.simps v x
    by (simp add: v demoGate_def demoExt_def az')
  have "fst (serveBilled demoGate ?mw ?next demoRequest ?fs ''payer'' demoExt ''V'') = Forwarded [OpWriteHeader 200, OpWrite ''x'']"
    by (simp add: serveBilled_def th Let_def split: prod.splits)
  with h0 obtain rec s'' where h: "handleGraphQL demoGate ?mw (IsView demoActive) (adapterAddress demoActive) ?az 110 ?next demoRequest
      (NewEpochClock 100 30, NewBalanceAuthorizer 10) = ((Forwarded [OpWriteHeader 200, OpWrite ''x''], rec), s'')" by (metis prod.collapse)
  have m: "''V'' \<in> set (collectionNames ?fs)" by (simp add: n)
  have "snd (viewRows demoGate (cwBody (captureRun [OpWriteHeader 200, OpWrite ''x''])) (responseKeys ?fs ''V''))"
    "cwStatus (captureRun [OpWriteHeader 200, OpWrite ''x'']) div 100 = 2"
    by (simp_all add: viewRows_def demoGate_def responseKeys_def trimSpace_def isSpace_def captureRun_def newCaptureWriter_def cwWriteHeader_def cwWrite_def)
  with gate_forwards_only_paid [OF authReach.new h r f m v(1)] have "rec \<noteq> None" by auto
  with h show ?thesis by blast
qed

text \<open>A request without active views is passed on untouched.\<close>

lemma gate_passes_unbilled:
  assumes "parseGraphQLRequest (jsonPayload env) r = Inr req"
    and "topLevelFields (parseQuery env) (Query req) (OperationName req) = Inr fs" "\<forall>n \<in> set (collectionNames fs). \<not> isView n"
  shows "handleGraphQL env mw isView address authz now nextHandler r s = ((Forwarded (nextHandler r), None), s)"
  using assms by (auto simp: handleGraphQL_def collectViewLookups_filter)

definition harmless ::
  "('p \<Rightarrow> 's \<Rightarrow> (auth_error + bool) \<times> 's) \<Rightarrow> writerOp list \<Rightarrow> 's \<Rightarrow> (gateReply \<times> 'p serviceRecord option) \<times> 's \<Rightarrow> bool" where
  "harmless authz response s res \<longleftrightarrow>
     (case res of
        ((ErrorReply st msg, rec), s') \<Rightarrow> rec = None \<and> st \<in> {400, 402, 403, 503} \<and>
          (s' = s \<or> (\<exists>payer. s' = snd (authz payer s) \<and> (st = 402 \<or> msg = ''authorization backend unavailable'')))
      | ((Forwarded ops, rec), s') \<Rightarrow> ops = response)"

lemma harmless_cases:
  "st \<in> {400, 402, 403, 503} \<Longrightarrow> harmless authz response s ((ErrorReply st msg, None), s)"
  "harmless authz response s ((Forwarded response, rec), s')"
  "authz payer s = (x, s') \<Longrightarrow> harmless authz response s ((ErrorReply 402 msg, None), s')"
  "authz payer s = (x, s') \<Longrightarrow> harmless authz response s ((ErrorReply 503 ''authorization backend unavailable'', None), s')"
  "harmless authz (nextHandler r) s (serveBilled env mw nextHandler r fs payer ext view, s')"
  by (auto simp: harmless_def serveBilled_def captureRun_through Let_def split: prod.splits) (metis snd_conv)+

text \<open>
  C19. A refusal has no effect: when the gate answers with an error, the wrapped handler's response
  is not forwarded, no record is submitted, the status is one of the documented ones, and the
  authorizer is touched only when it was asked (402, or 503 for its own failure); every forwarded
  response is the wrapped handler's, write for write.
\<close>

theorem gate_refusal_no_effect:
  "case handleGraphQL env mw isView address authz now nextHandler r s of
      ((ErrorReply st msg, rec), s') \<Rightarrow> rec = None \<and> st \<in> {400, 402, 403, 503} \<and>
        (s' = s \<or> (\<exists>payer. s' = snd (authz payer s) \<and> (st = 402 \<or> msg = ''authorization backend unavailable'')))
    | ((Forwarded ops, rec), s') \<Rightarrow> ops = nextHandler r"
proof -
  have "harmless authz (nextHandler r) s (handleGraphQL env mw isView address authz now nextHandler r s)"
    unfolding handleGraphQL_def
    by (simp add: harmless_cases split: sum.split option.split) (auto intro: harmless_cases split: prod.split sum.split bool.split)
  then show ?thesis unfolding harmless_def .
qed

end
