(* ===== verification/Hub_Events.thy ===== *)
theory Hub_Events
  imports Hub_Client Billing_Gate "HOL-Library.Sublist"
begin

text \<open>
  \<open>pkg/shinzohub/events.go\<close> and the consumer of its channel in \<open>pkg/host/host.go\<close>
  (\<open>handleIncomingEvents\<close>, \<open>ProcessViewRegistrationEvent\<close>). The WebSocket connection, the clock and
  the random jitter are arguments: an \<open>iteration\<close> says what one round of the event loop meets, a
  \<open>reconnectRound\<close> what one attempt to reconnect meets. Durations are nanoseconds. The only event
  type that implements \<open>ShinzoEvent\<close> is \<open>ViewRegisteredEvent\<close>.
\<close>

record EventAttribute =
  attrKey :: string
  attrValue :: string
  attrIndex :: bool

record Event =
  evType :: string
  evAttributes :: "EventAttribute list"

record TxResultResult =
  trData :: string
  trEvents :: "Event list option"
  GasUsed :: string
  GasWanted :: string

record TxResultData =
  txHeight :: string
  txBytes :: string
  txResult :: TxResultResult
  txEvents :: "Event list option"

record RPCData =
  rdType :: string
  rdValue :: TxResultData

record RPCResult =
  rrQuery :: string
  rrData :: RPCData

record RPCResponse =
  JSONRPCVersion :: string
  rpcID :: int
  rpcResult :: RPCResult

record ViewRegisteredEvent =
  ViewID :: string
  evContract :: string
  evViewName :: string
  evCreator :: string
  evView :: View

definition emptyView :: View where
  "emptyView = \<lparr>vName = [], vContractAddress = [], vQuery = [], vSdl = [], vLenses = []\<rparr>"

abbreviation eventTypeViewRegistered :: string where "eventTypeViewRegistered \<equiv> ''view.view_registered''"
abbreviation eventTypeViewRegistrationFailed :: string where "eventTypeViewRegistrationFailed \<equiv> ''view.view_registration_failed''"
abbreviation eventTypeViewRegistrationTimedOut :: string where "eventTypeViewRegistrationTimedOut \<equiv> ''view.view_registration_timed_out''"

definition getSubscriptionQueries :: "string list" where
  "getSubscriptionQueries =
     [''tm.event='' @ [CHR 0x27] @ ''Tx'' @ [CHR 0x27] @ '' AND '' @ eventTypeViewRegistered @ ''.view_id EXISTS'',
      ''tm.event='' @ [CHR 0x27] @ ''Tx'' @ [CHR 0x27] @ '' AND '' @ eventTypeViewRegistrationFailed @ ''.view_id EXISTS'',
      ''tm.event='' @ [CHR 0x27] @ ''Tx'' @ [CHR 0x27] @ '' AND '' @ eventTypeViewRegistrationTimedOut @ ''.view_id EXISTS'']"

subsection \<open>Events of a message\<close>

fun readAttrs :: "EventAttribute list \<Rightarrow> ViewRegisteredEvent \<Rightarrow> ViewRegisteredEvent" where
  "readAttrs [] e = e"
| "readAttrs (a # as) e = readAttrs as
     (if attrKey a = ''view_id'' then e\<lparr>ViewID := attrValue a\<rparr>
      else if attrKey a = ''contract_address'' then e\<lparr>evContract := attrValue a\<rparr>
      else if attrKey a = ''creator'' then e\<lparr>evCreator := attrValue a\<rparr> else e)"

text \<open>The failed and timed-out registrations are only logged.\<close>

fun collectEvents :: "Event list \<Rightarrow> ViewRegisteredEvent list" where
  "collectEvents [] = []"
| "collectEvents (ev # evs) =
     (if evType ev = eventTypeViewRegistered
      then (let e = readAttrs (evAttributes ev) \<lparr>ViewID = [], evContract = [], evViewName = [], evCreator = [], evView = emptyView\<rparr> in
            if ViewID e \<noteq> [] \<and> evContract e \<noteq> [] \<and> evCreator e \<noteq> [] then e # collectEvents evs else collectEvents evs)
      else collectEvents evs)"

definition extractShinzoEvents :: "RPCResponse \<Rightarrow> ViewRegisteredEvent list" where
  "extractShinzoEvents msg =
     (if JSONRPCVersion msg \<noteq> ''2.0'' \<or> rdType (rrData (rpcResult msg)) \<noteq> ''tendermint/event/Tx'' then []
      else (case trEvents (txResult (rdValue (rrData (rpcResult msg)))) of None \<Rightarrow> [] | Some evs \<Rightarrow> collectEvents evs))"

subsection \<open>Hydration\<close>

text \<open>
  What the hydration of one event meets: the REST client (\<open>None\<close> when there is none), the answer
  of the gateway at each attempt, whether the end of the context is seen in the wait after an
  attempt, and whether it is chosen instead of the send to the channel.
\<close>

record hydEnv =
  hyLCD :: "string option"
  hyHttp :: "nat \<Rightarrow> string \<Rightarrow> httpOutcome"
  hyDecode :: "string \<Rightarrow> LCDView option"
  hyUnbundle :: "byte list \<Rightarrow> (string \<times> string \<times> Lens list) option"
  hyCancelled :: "nat \<Rightarrow> bool"
  hySendCancelled :: bool

datatype hydrate_error =
  HydNoLCD | HydNoContract | HydFetch lcd_error | HydCancelled | HydGaveUp lcd_error | HydDecode wire_error

abbreviation hydrateMaxAttempts :: nat where "hydrateMaxAttempts \<equiv> 3"
abbreviation hydrateBaseDelay :: int where "hydrateBaseDelay \<equiv> 100 * 10 ^ 6"

fun isTransientHydrationErr :: "lcd_error \<Rightarrow> bool" where
  "isTransientHydrationErr (ErrLCDHTTPStatus n) = True"
| "isTransientHydrationErr (ErrLCDEmptyData c) = True"
| "isTransientHydrationErr (ErrGet timeout) = timeout"
| "isTransientHydrationErr (ErrReadBody timeout) = timeout"
| "isTransientHydrationErr e = False"

text \<open>The wait with jitter \<open>r\<close>; durations are positive here, so \<open>div\<close> is Go's division.\<close>

definition jittered :: "int \<Rightarrow> int \<Rightarrow> int" where
  "jittered b r = wrap64 (wrap64 (b + r) - b div 4)"

text \<open>The attempts from number \<open>attempt\<close> on, with \<open>left\<close> more allowed after it.\<close>

fun fetchAttempts :: "(nat \<Rightarrow> lcd_error + string) \<Rightarrow> (nat \<Rightarrow> bool) \<Rightarrow> nat \<Rightarrow> nat \<Rightarrow> hydrate_error + string" where
  "fetchAttempts get cancelled attempt left =
     (case get attempt of
        Inr w \<Rightarrow> Inr w
      | Inl e \<Rightarrow>
          if \<not> isTransientHydrationErr e then Inl (HydFetch e)
          else (case left of
              0 \<Rightarrow> Inl (HydGaveUp e)
            | Suc k \<Rightarrow> if cancelled attempt then Inl HydCancelled else fetchAttempts get cancelled (attempt + 1) k))"

definition fetchBundleWithRetry :: "hydEnv \<Rightarrow> string \<Rightarrow> string \<Rightarrow> hydrate_error + string" where
  "fetchBundleWithRetry env lcdURL contractAddr =
     fetchAttempts (\<lambda>n. GetViewBundle (hyHttp env n) (hyDecode env) lcdURL contractAddr) (hyCancelled env) 1 (hydrateMaxAttempts - 1)"

definition hydrateViewBundle :: "hydEnv \<Rightarrow> ViewRegisteredEvent \<Rightarrow> hydrate_error + ViewRegisteredEvent" where
  "hydrateViewBundle env vre =
     (case hyLCD env of
        None \<Rightarrow> Inl HydNoLCD
      | Some lcdURL \<Rightarrow>
          if evContract vre = [] then Inl HydNoContract
          else (case fetchBundleWithRetry env lcdURL (evContract vre) of
              Inl e \<Rightarrow> Inl e
            | Inr wireBase64 \<Rightarrow>
                (case ProcessViewFromWireFormat (hyUnbundle env) wireBase64 of
                   Inl e \<Rightarrow> Inl (HydDecode e)
                 | Inr v \<Rightarrow> Inr (vre\<lparr>evView := v\<lparr>vContractAddress := evContract vre\<rparr>\<rparr>))))"

text \<open>
  The events of a message: those sent to the channel, and whether all were handled (false when the
  end of the context was chosen over a send, which closes the connection).
\<close>

fun sendEvents :: "(nat \<Rightarrow> hydEnv) \<Rightarrow> nat \<Rightarrow> ViewRegisteredEvent list \<Rightarrow> ViewRegisteredEvent list \<times> bool" where
  "sendEvents envs i [] = ([], True)"
| "sendEvents envs i (ev # evs) =
     (case (if vQuery (evView ev) = [] then hydrateViewBundle (envs i) ev else Inr ev) of
        Inl e \<Rightarrow> sendEvents envs (i + 1) evs
      | Inr ev' \<Rightarrow>
          if hySendCancelled (envs i) then ([], False)
          else (case sendEvents envs (i + 1) evs of (sent, done) \<Rightarrow> (ev' # sent, done)))"

definition dispatchEvents :: "(nat \<Rightarrow> hydEnv) \<Rightarrow> RPCResponse option \<Rightarrow> ViewRegisteredEvent list \<times> bool" where
  "dispatchEvents envs message =
     (case message of None \<Rightarrow> ([], True) | Some msg \<Rightarrow> sendEvents envs 0 (extractShinzoEvents msg))"

subsection \<open>The connection\<close>

record wsConn =
  wsSent :: "(nat \<times> string) list"
  wsOpen :: bool

datatype subOutcome = SubOk | SubWriteFails | SubReadFails

datatype dial_error = ErrDial | ErrSubscribe nat | ErrSubscribeResponse nat

definition closeConn :: "wsConn \<Rightarrow> wsConn" where
  "closeConn c = c\<lparr>wsOpen := False\<rparr>"

fun subscribeAll :: "(nat \<Rightarrow> subOutcome) \<Rightarrow> nat \<Rightarrow> string list \<Rightarrow> wsConn \<Rightarrow> dial_error option \<times> wsConn" where
  "subscribeAll sub i [] c = (None, c)"
| "subscribeAll sub i (q # qs) c =
     (case sub i of
        SubWriteFails \<Rightarrow> (Some (ErrSubscribe i), closeConn c)
      | SubReadFails \<Rightarrow> (Some (ErrSubscribeResponse i), closeConn (c\<lparr>wsSent := wsSent c @ [(i + 1, q)]\<rparr>))
      | SubOk \<Rightarrow> subscribeAll sub (i + 1) qs (c\<lparr>wsSent := wsSent c @ [(i + 1, q)]\<rparr>))"

definition dialAndSubscribe :: "bool \<Rightarrow> (nat \<Rightarrow> subOutcome) \<Rightarrow> (dial_error \<times> wsConn option) + wsConn" where
  "dialAndSubscribe dialled sub =
     (if \<not> dialled then Inl (ErrDial, None)
      else (case subscribeAll sub 0 getSubscriptionQueries \<lparr>wsSent = [], wsOpen = True\<rparr> of
          (Some e, c) \<Rightarrow> Inl (e, Some c)
        | (None, c) \<Rightarrow> Inr c))"

text \<open>
  The keep-alive goroutine of a connection: the messages it writes until it is stopped or a write
  fails. A tick carries whether its write succeeds.
\<close>

datatype pingEvent = PingStopped | PingTick bool

fun startPing :: "pingEvent list \<Rightarrow> (string \<times> string) list list" where
  "startPing [] = []"
| "startPing (PingStopped # evs) = []"
| "startPing (PingTick ok # evs) =
     (let msg = [(''jsonrpc'', ''2.0''), (''method'', ''status''), (''id'', ''999''), (''params'', ''{}'')] in
      if ok then msg # startPing evs else [])"

record reconnectRound =
  rdJitter :: "int \<Rightarrow> int"
  rdCancelled :: bool
  rdDialled :: bool
  rdSub :: "nat \<Rightarrow> subOutcome"

abbreviation second :: int where "second \<equiv> 10 ^ 9"

text \<open>
  \<open>rdJitter\<close> is \<open>rand.Int64N\<close> in the round. \<open>reconnect\<close>: the waits, the result (\<open>None\<close> while the rounds given do not end the loop, \<open>Some None\<close>
  when the context ended) and the backoff it leaves.
\<close>

fun reconnect :: "reconnectRound list \<Rightarrow> int \<Rightarrow> int \<Rightarrow> int list \<times> wsConn option option \<times> int" where
  "reconnect [] b maxB = ([], None, b)"
| "reconnect (r # rs) b maxB =
     (let wait = jittered b (rdJitter r (b div 2)) in
      if rdCancelled r then ([wait], Some None, b)
      else (case dialAndSubscribe (rdDialled r) (rdSub r) of
          Inr c \<Rightarrow> ([wait], Some (Some c), b)
        | Inl e \<Rightarrow>
            (case reconnect rs (if wrap64 (b * 2) > maxB then maxB else wrap64 (b * 2)) maxB of
               (ws, res, b') \<Rightarrow> (wait # ws, res, b'))))"

subsection \<open>The event loop\<close>

datatype readOutcome = ReadMsg "RPCResponse option" | ReadErr bool | ReadPanic

record iteration =
  itCtxHead :: bool
  itRead :: readOutcome
  itNow :: int
  itCtxErr :: bool
  itEnvs :: "nat \<Rightarrow> hydEnv"
  itRounds :: "reconnectRound list"

datatype loopStatus = Running | Reconnecting | Ended

record loopState =
  lsConn :: wsConn
  lsPing :: bool
  lsConnectedAt :: int
  lsBackoff :: int
  lsOut :: "ViewRegisteredEvent list"
  lsStatus :: loopStatus

definition isTimeoutError :: "bool \<Rightarrow> bool" where
  "isTimeoutError timeout = timeout"

abbreviation maxBackoff :: int where "maxBackoff \<equiv> 60 * second"

definition handleReadError :: "iteration \<Rightarrow> bool \<Rightarrow> loopState \<Rightarrow> loopState" where
  "handleReadError it err s =
     (if itCtxErr it then s\<lparr>lsConn := closeConn (lsConn s), lsStatus := Ended\<rparr>
      else if isTimeoutError err then s\<lparr>lsConnectedAt := itNow it\<rparr>
      else
        (let s1 = s\<lparr>lsPing := False, lsConn := closeConn (lsConn s)\<rparr> in
         case reconnect (itRounds it) (lsBackoff s) maxBackoff of
           (_, None, b) \<Rightarrow> s1\<lparr>lsBackoff := b, lsStatus := Reconnecting\<rparr>
         | (_, Some None, b) \<Rightarrow> s1\<lparr>lsBackoff := b, lsStatus := Ended\<rparr>
         | (_, Some (Some c), b) \<Rightarrow> s1\<lparr>lsConn := c, lsPing := True, lsConnectedAt := itNow it, lsBackoff := b\<rparr>))"

definition processNextMessage :: "iteration \<Rightarrow> loopState \<Rightarrow> loopState" where
  "processNextMessage it s =
     (case itRead it of
        ReadPanic \<Rightarrow> s\<lparr>lsStatus := Ended\<rparr>
      | ReadErr err \<Rightarrow> handleReadError it err s
      | ReadMsg message \<Rightarrow>
          (let s1 = s\<lparr>lsBackoff := (if itNow it - lsConnectedAt s > 60 * second then second else lsBackoff s)\<rparr> in
           case dispatchEvents (itEnvs it) message of
             (sent, True) \<Rightarrow> s1\<lparr>lsOut := lsOut s @ sent\<rparr>
           | (sent, False) \<Rightarrow> s1\<lparr>lsOut := lsOut s @ sent, lsConn := closeConn (lsConn s), lsStatus := Ended\<rparr>))"

text \<open>
  The loop over what its rounds meet. \<open>Ended\<close> is the state after the deferred \<open>close(out)\<close>, also
  after a recovered panic; in \<open>Reconnecting\<close> the goroutine is still inside \<open>reconnect\<close>.
\<close>

fun eventLoop :: "iteration list \<Rightarrow> loopState \<Rightarrow> loopState" where
  "eventLoop [] s = s"
| "eventLoop (it # its) s =
     (if lsStatus s \<noteq> Running then s
      else if itCtxHead it then s\<lparr>lsConn := closeConn (lsConn s), lsStatus := Ended\<rparr>
      else eventLoop its (processNextMessage it s))"

definition StartEventSubscription :: "int \<Rightarrow> bool \<Rightarrow> (nat \<Rightarrow> subOutcome) \<Rightarrow> dial_error + loopState" where
  "StartEventSubscription now dialled sub =
     (case dialAndSubscribe dialled sub of
        Inl (e, _) \<Rightarrow> Inl e
      | Inr c \<Rightarrow> Inr \<lparr>lsConn = c, lsPing = True, lsConnectedAt = now, lsBackoff = second, lsOut = [], lsStatus = Running\<rparr>)"

subsection \<open>The host's side of the channel\<close>

text \<open>
  The host's view state: its manager, if any (it carries the files), the files when there is no
  manager, and the file of saved views.
\<close>

record 'db hubHost =
  hhManager :: "'db Manager option"
  hhFiles :: files
  hhViewsFile :: viewsFile

datatype host_error = ErrViewManagerNil | ErrViewMissingQuery | ErrViewMissingSDL | ErrWriteWasm view_error | ErrRegister view_error

definition postWasm :: "'db viewEnv \<Rightarrow> View \<Rightarrow> 'db hubHost \<Rightarrow> view_error option \<times> View \<times> 'db hubHost" where
  "postWasm env v h =
     (if length (vLenses v) > 0
      then (case PostWasmToFile (hashOf env) (writable env) (wasmDir env) v
                   (case hhManager h of Some m \<Rightarrow> disk m | None \<Rightarrow> hhFiles h) of
              (e, v', fs) \<Rightarrow>
                (e, v', case hhManager h of Some m \<Rightarrow> h\<lparr>hhManager := Some (m\<lparr>disk := fs\<rparr>)\<rparr> | None \<Rightarrow> h\<lparr>hhFiles := fs\<rparr>))
      else (None, v, h))"

definition ProcessViewRegistrationEvent ::
  "'db viewEnv \<Rightarrow> viewsFile option \<Rightarrow> ViewRegisteredEvent \<Rightarrow> 'db hubHost \<Rightarrow> host_error option \<times> 'db hubHost" where
  "ProcessViewRegistrationEvent env failed ev h =
     (case hhManager h of
        None \<Rightarrow> (Some ErrViewManagerNil, h)
      | Some m0 \<Rightarrow>
          if vQuery (evView ev) = [] then (Some ErrViewMissingQuery, h)
          else if vSdl (evView ev) = [] then (Some ErrViewMissingSDL, h)
          else (case postWasm env (evView ev) h of
              (Some e, _, h1) \<Rightarrow> (Some (ErrWriteWasm e), h1)
            | (None, v1, h1) \<Rightarrow>
                (case RegisterView env v1 (case hhManager h1 of Some m \<Rightarrow> m | None \<Rightarrow> m0) of
                   (Some e, _, m) \<Rightarrow> (Some (ErrRegister e), h1\<lparr>hhManager := Some m\<rparr>)
                 | (None, v2, m) \<Rightarrow>
                     (None, h1\<lparr>hhManager := Some m, hhViewsFile := snd (SaveViewToRegistry failed v2 (hhViewsFile h1))\<rparr>))))"

text \<open>One event received by \<open>handleIncomingEvents\<close>.\<close>

definition handleEvent :: "'db viewEnv \<Rightarrow> viewsFile option \<Rightarrow> ViewRegisteredEvent \<Rightarrow> 'db hubHost \<Rightarrow> 'db hubHost" where
  "handleEvent env failed ev h =
     (if vQuery (evView ev) = [] then h
      else if vSdl (evView ev) = [] then h
      else (case postWasm env (evView ev) h of
          (Some e, _, h1) \<Rightarrow> h1
        | (None, v1, h1) \<Rightarrow>
            (case hhManager h1 of
               None \<Rightarrow> h1
             | Some m0 \<Rightarrow>
                 (case RegisterView env v1 m0 of
                    (Some e, _, m) \<Rightarrow> h1\<lparr>hhManager := Some m\<rparr>
                  | (None, v2, m) \<Rightarrow>
                      h1\<lparr>hhManager := Some m, hhViewsFile := snd (SaveViewToRegistry failed v2 (hhViewsFile h1))\<rparr>))))"

text \<open>The environment of DefraDB, the files and the save are those at the time of each event.\<close>

fun handleIncomingEvents ::
  "('db viewEnv \<times> viewsFile option \<times> ViewRegisteredEvent) list \<Rightarrow> 'db hubHost \<Rightarrow> 'db hubHost" where
  "handleIncomingEvents [] h = h"
| "handleIncomingEvents ((env, failed, ev) # evs) h = handleIncomingEvents evs (handleEvent env failed ev h)"

record shinzoHubURLs =
  hubRpc :: string
  hubWs :: string
  hubLcd :: string

definition deriveShinzoHubURLs :: "string \<Rightarrow> shinzoHubURLs" where
  "deriveShinzoHubURLs hostname =
     (if hostname = [] then \<lparr>hubRpc = [], hubWs = [], hubLcd = []\<rparr>
      else \<lparr>hubRpc = ''http://'' @ hostname @ '':26657'', hubWs = ''ws://'' @ hostname @ '':26657/websocket'',
            hubLcd = ''http://'' @ hostname @ '':1317''\<rparr>)"

subsection \<open>Facts about messages and hydration\<close>

definition complete_ids :: "ViewRegisteredEvent \<Rightarrow> bool" where
  "complete_ids e \<longleftrightarrow> ViewID e \<noteq> [] \<and> evContract e \<noteq> [] \<and> evCreator e \<noteq> []"

text \<open>What the consumer of the channel relies on.\<close>

definition good_event :: "ViewRegisteredEvent \<Rightarrow> bool" where
  "good_event e \<longleftrightarrow> complete_ids e \<and> Validate (evView e) = None \<and> vContractAddress (evView e) = evContract e"

lemma readAttrs_view [simp]: "evView (readAttrs as e) = evView e"
  by (induction as e rule: readAttrs.induct) auto

lemma collectEvents_ids: "e \<in> set (collectEvents evs) \<Longrightarrow> complete_ids e \<and> evView e = emptyView"
  by (induction evs) (auto simp: complete_ids_def Let_def split: if_splits)

lemma extract_ids: "e \<in> set (extractShinzoEvents msg) \<Longrightarrow> complete_ids e \<and> evView e = emptyView"
  by (auto simp: extractShinzoEvents_def collectEvents_ids split: if_splits option.splits)

lemma hydrate_good:
  assumes "hydrateViewBundle env e = Inr e'" "complete_ids e"
  shows "good_event e' \<and> ViewID e' = ViewID e \<and> evContract e' = evContract e \<and> evCreator e' = evCreator e"
  using assms ProcessViewFromWireFormat_valid
  by (auto simp: hydrateViewBundle_def good_event_def complete_ids_def split: option.splits sum.splits if_splits)

lemma sendEvents_good:
  assumes "\<And>e. e \<in> set evs \<Longrightarrow> complete_ids e \<and> evView e = emptyView"
  shows "list_all good_event (fst (sendEvents envs i evs))
    \<and> subseq (map evContract (fst (sendEvents envs i evs))) (map evContract evs)"
  using assms
proof (induction evs arbitrary: i)
  case Nil
  then show ?case by simp
next
  case (Cons e evs)
  have e: "complete_ids e" "vQuery (evView e) = []" using Cons.prems [of e] by (simp_all add: emptyView_def)
  note IH = Cons.IH [of "i + 1", OF Cons.prems [OF list.set_intros(2)]]
  show ?case
  proof (cases "hydrateViewBundle (envs i) e")
    case (Inl x)
    with e IH show ?thesis by (auto intro: list_emb_Cons)
  next
    case (Inr e')
    from hydrate_good [OF Inr e(1)] Inr e IH show ?thesis by (auto split: prod.splits)
  qed
qed

lemma dispatch_good: "list_all good_event (fst (dispatchEvents envs message))"
  using sendEvents_good [OF extract_ids] by (simp add: dispatchEvents_def split: option.split)

lemma fetchAttempts_iff:
  "fetchAttempts get cancelled a left = Inr w \<longleftrightarrow>
     (\<exists>k \<le> left. get (a + k) = Inr w
        \<and> (\<forall>j < k. (\<exists>e. get (a + j) = Inl e \<and> isTransientHydrationErr e) \<and> \<not> cancelled (a + j)))"
proof (induction left arbitrary: a)
  case 0
  then show ?case by (auto split: sum.splits)
next
  case (Suc left)
  show ?case
  proof (cases "\<exists>e. get a = Inl e \<and> isTransientHydrationErr e \<and> \<not> cancelled a")
    case True
    then obtain e where e: "get a = Inl e" "isTransientHydrationErr e" "\<not> cancelled a" by blast
    have "(\<exists>k \<le> Suc left. get (a + k) = Inr w \<and> (\<forall>j < k. (\<exists>e. get (a + j) = Inl e \<and> isTransientHydrationErr e) \<and> \<not> cancelled (a + j)))
      \<longleftrightarrow> (\<exists>k \<le> left. get (a + 1 + k) = Inr w \<and> (\<forall>j < k. (\<exists>e. get (a + 1 + j) = Inl e \<and> isTransientHydrationErr e) \<and> \<not> cancelled (a + 1 + j)))"
      (is "?L \<longleftrightarrow> ?R")
    proof
      assume ?L
      then obtain k where k: "k \<le> Suc left" "get (a + k) = Inr w"
        "\<forall>j < k. (\<exists>e. get (a + j) = Inl e \<and> isTransientHydrationErr e) \<and> \<not> cancelled (a + j)" by blast
      with e(1) obtain k' where "k = Suc k'" by (cases k) auto
      with k show ?R by (intro exI [of _ k']) auto
    next
      assume ?R
      then obtain k where k: "k \<le> left" "get (a + 1 + k) = Inr w"
        "\<forall>j < k. (\<exists>e. get (a + 1 + j) = Inl e \<and> isTransientHydrationErr e) \<and> \<not> cancelled (a + 1 + j)" by blast
      have "(\<exists>e. get (a + j) = Inl e \<and> isTransientHydrationErr e) \<and> \<not> cancelled (a + j)" if "j < Suc k" for j
        using that k(3) e by (cases j) auto
      with k show ?L by (intro exI [of _ "Suc k"]) auto
    qed
    then show ?thesis using e Suc.IH [of "a + 1"] by simp
  next
    case False
    then have "fetchAttempts get cancelled a (Suc left) = Inr w \<longleftrightarrow> get a = Inr w" by (auto split: sum.splits)
    moreover have "k = 0" if "\<forall>j < k. (\<exists>e. get (a + j) = Inl e \<and> isTransientHydrationErr e) \<and> \<not> cancelled (a + j)" for k
      using that [rule_format, of 0] False by (cases k) auto
    ultimately show ?thesis by (metis add.right_neutral le0 less_nat_zero_code)
  qed
qed

subsection \<open>Facts about the connection\<close>

definition fullConn :: wsConn where
  "fullConn = \<lparr>wsSent = enumerate 1 getSubscriptionQueries, wsOpen = True\<rparr>"

lemma dial_ok: "dialAndSubscribe d sub = Inr c \<Longrightarrow> c = fullConn"
  by (auto simp: dialAndSubscribe_def fullConn_def getSubscriptionQueries_def split: if_splits subOutcome.splits)

lemma dial_closes: "dialAndSubscribe d sub = Inl (e, Some c) \<Longrightarrow> \<not> wsOpen c"
  by (auto simp: dialAndSubscribe_def getSubscriptionQueries_def closeConn_def split: if_splits subOutcome.splits)

lemma dial_succeeds: "d \<Longrightarrow> sub 0 = SubOk \<Longrightarrow> sub 1 = SubOk \<Longrightarrow> sub 2 = SubOk \<Longrightarrow> dialAndSubscribe d sub = Inr fullConn"
  by (simp add: dialAndSubscribe_def fullConn_def getSubscriptionQueries_def eval_nat_numeral)

definition backoffOk :: "int \<Rightarrow> bool" where
  "backoffOk b \<longleftrightarrow> second \<le> b \<and> b \<le> maxBackoff"

lemma backoffOk_range: "backoffOk b \<Longrightarrow> int64_range (b * 2) \<and> int64_range (b + r) \<and> int64_range (b + r - b div 4)"
  if "0 \<le> r" "r < b" for r
  using that by (auto simp: backoffOk_def int64_range_def)

lemma jittered_bounds:
  assumes "backoffOk b" "0 \<le> r" "r < b div 2"
  shows "b - b div 4 \<le> jittered b r \<and> jittered b r \<le> b + b div 4"
proof -
  have "r < b" using assms by (auto simp: backoffOk_def)
  with backoffOk_range [OF assms(2)] assms(1) have "jittered b r = b + r - b div 4" by (simp add: jittered_def)
  with assms show ?thesis by (auto simp: backoffOk_def)
qed

definition nextBackoff :: "int \<Rightarrow> int" where
  "nextBackoff b = min (b * 2) maxBackoff"

lemma nextBackoff_step:
  assumes "backoffOk b"
  shows "(if wrap64 (b * 2) > maxBackoff then maxBackoff else wrap64 (b * 2)) = nextBackoff b" "backoffOk (nextBackoff b)"
  using assms backoffOk_range [of 0 b] by (auto simp: nextBackoff_def backoffOk_def)

definition nearBackoff :: "int \<Rightarrow> int \<Rightarrow> bool" where
  "nearBackoff b w \<longleftrightarrow> b - b div 4 \<le> w \<and> w \<le> b + b div 4"

lemma min_double: "min (2 ^ k * nextBackoff b) maxBackoff = min (2 ^ Suc k * b) maxBackoff" if "backoffOk b"
proof (cases "b * 2 \<le> maxBackoff")
  case True
  then have "nextBackoff b = 2 * b" by (simp add: nextBackoff_def)
  then show ?thesis by simp
next
  case False
  have p: "(1 :: int) \<le> 2 ^ k" by simp
  have "maxBackoff \<le> 2 ^ k * maxBackoff" using mult_right_mono [OF p, of maxBackoff] by simp
  moreover have "maxBackoff \<le> 2 ^ k * (b * 2)" using mult_mono [OF p, of maxBackoff "b * 2"] False by simp
  moreover have "nextBackoff b = maxBackoff" using False by (simp add: nextBackoff_def)
  moreover have "2 ^ Suc k * b = 2 ^ k * (b * 2)" by simp
  ultimately show ?thesis by (simp only: min_absorb2)
qed

lemma reconnect_retry:
  assumes "backoffOk b" "\<not> rdCancelled r" "dialAndSubscribe (rdDialled r) (rdSub r) = Inl e"
    "reconnect rs (nextBackoff b) maxBackoff = (ws, res, b')"
  shows "reconnect (r # rs) b maxBackoff = (jittered b (rdJitter r (b div 2)) # ws, res, b')"
  using assms(2-4) unfolding reconnect.simps nextBackoff_step(1) [OF assms(1)] Let_def by simp

lemma reconnect_spec:
  assumes "backoffOk b" "reconnect rs b maxBackoff = (ws, res, b')"
  shows "backoffOk b' \<and> (\<forall>c. res = Some (Some c) \<longrightarrow> c = fullConn)"
  using assms
proof (induction rs arbitrary: b ws)
  case (Cons r rs)
  show ?case
  proof (cases "rdCancelled r")
    case False
    then show ?thesis
    proof (cases "dialAndSubscribe (rdDialled r) (rdSub r)")
      case (Inl e)
      obtain ws1 res1 b1 where "reconnect rs (nextBackoff b) maxBackoff = (ws1, res1, b1)" by (metis prod_cases3)
      with reconnect_retry [OF Cons.prems(1) False Inl] Cons.prems(2) Cons.IH [OF nextBackoff_step(2) [OF Cons.prems(1)]]
      show ?thesis by (simp del: reconnect.simps)
    next
      case (Inr c)
      with Cons.prems False dial_ok [OF Inr] show ?thesis by (auto simp: Let_def)
    qed
  qed (use Cons.prems in \<open>auto simp: Let_def\<close>)
qed simp

text \<open>\<open>rand.Int64N n\<close> returns a value from 0 to \<open>n - 1\<close>.\<close>

definition jitterOk :: "reconnectRound \<Rightarrow> bool" where
  "jitterOk r \<longleftrightarrow> (\<forall>n > 0. 0 \<le> rdJitter r n \<and> rdJitter r n < n)"

lemma reconnect_waits_near:
  assumes "backoffOk b" "list_all jitterOk rs" "reconnect rs b maxBackoff = (ws, res, b')" "k < length ws"
  shows "nearBackoff (min (2 ^ k * b) maxBackoff) (ws ! k)"
  using assms
proof (induction rs arbitrary: b ws k res b')
  case (Cons r rs)
  have "0 \<le> rdJitter r (b div 2)" "rdJitter r (b div 2) < b div 2"
    using Cons.prems(1,2) by (auto simp: jitterOk_def backoffOk_def)
  with jittered_bounds [OF Cons.prems(1)] Cons.prems(1)
  have w: "nearBackoff (min b maxBackoff) (jittered b (rdJitter r (b div 2)))" by (simp add: nearBackoff_def backoffOk_def)
  obtain ws1 res1 b1 where r: "reconnect rs (nextBackoff b) maxBackoff = (ws1, res1, b1)" by (metis prod_cases3)
  have "ws = [jittered b (rdJitter r (b div 2))] \<or> ws = jittered b (rdJitter r (b div 2)) # ws1"
  proof (cases "rdCancelled r")
    case False
    then show ?thesis
      using Cons.prems(3) reconnect_retry [OF Cons.prems(1) False _ r]
      by (cases "dialAndSubscribe (rdDialled r) (rdSub r)") (auto simp: Let_def)
  qed (use Cons.prems(3) in \<open>auto simp: Let_def\<close>)
  moreover have "nearBackoff (min (2 ^ k' * nextBackoff b) maxBackoff) (ws1 ! k')" if "k' < length ws1" for k'
    using Cons.IH [OF nextBackoff_step(2) [OF Cons.prems(1)] _ r that] Cons.prems(2) by simp
  ultimately show ?case using w Cons.prems(4) min_double [OF Cons.prems(1)] by (cases k) auto
qed simp

lemma reconnect_succeeds:
  assumes "backoffOk b" "list_all (\<lambda>r. \<not> rdCancelled r) rs"
    "list_ex (\<lambda>r. rdDialled r \<and> rdSub r 0 = SubOk \<and> rdSub r 1 = SubOk \<and> rdSub r 2 = SubOk) rs"
  shows "fst (snd (reconnect rs b maxBackoff)) = Some (Some fullConn)"
  using assms
proof (induction rs arbitrary: b)
  case (Cons r rs)
  show ?case
  proof (cases "dialAndSubscribe (rdDialled r) (rdSub r)")
    case (Inl e)
    with Cons.prems(3) dial_succeeds have "list_ex (\<lambda>r. rdDialled r \<and> rdSub r 0 = SubOk \<and> rdSub r 1 = SubOk \<and> rdSub r 2 = SubOk) rs" by auto
    with Cons.IH [OF nextBackoff_step(2) [OF Cons.prems(1)]] Cons.prems(2)
    have "fst (snd (reconnect rs (nextBackoff b) maxBackoff)) = Some (Some fullConn)" by simp
    moreover obtain ws res b' where r: "reconnect rs (nextBackoff b) maxBackoff = (ws, res, b')" by (metis prod_cases3)
    ultimately show ?thesis using reconnect_retry [OF Cons.prems(1) _ Inl r] Cons.prems(2) by (simp del: reconnect.simps)
  next
    case (Inr c)
    with Cons.prems dial_ok [OF Inr] show ?thesis by (simp add: Let_def)
  qed
qed simp

subsection \<open>The loop's invariant\<close>

definition loopInv :: "loopState \<Rightarrow> bool" where
  "loopInv s \<longleftrightarrow> list_all good_event (lsOut s) \<and> backoffOk (lsBackoff s)
     \<and> (lsStatus s = Running \<longrightarrow> lsConn s = fullConn \<and> lsPing s)"

lemma start_inv: "StartEventSubscription now d sub = Inr s \<Longrightarrow> loopInv s \<and> lsStatus s = Running \<and> lsOut s = []"
  using dial_ok by (auto simp: StartEventSubscription_def loopInv_def backoffOk_def split: sum.splits)

lemma handleReadError_inv:
  assumes "loopInv s" "lsStatus s = Running"
  shows "loopInv (handleReadError it err s) \<and> lsOut (handleReadError it err s) = lsOut s"
proof -
  obtain ws res b where r: "reconnect (itRounds it) (lsBackoff s) maxBackoff = (ws, res, b)" by (metis prod_cases3)
  have "backoffOk (lsBackoff s)" using assms by (simp add: loopInv_def)
  from reconnect_spec [OF this r] assms r show ?thesis
    by (auto simp: handleReadError_def Let_def loopInv_def split: option.splits)
qed

lemma processNextMessage_inv:
  assumes "loopInv s" "lsStatus s = Running"
  shows "loopInv (processNextMessage it s)"
proof (cases "itRead it")
  case (ReadMsg message)
  obtain sent fin where d: "dispatchEvents (itEnvs it) message = (sent, fin)" by fastforce
  with dispatch_good [of "itEnvs it" message] have "list_all good_event sent" by simp
  with d ReadMsg assms show ?thesis
    by (cases fin) (auto simp: processNextMessage_def Let_def loopInv_def backoffOk_def)
qed (use assms handleReadError_inv [OF assms] in \<open>auto simp: processNextMessage_def loopInv_def\<close>)

lemma eventLoop_inv: "loopInv s \<Longrightarrow> loopInv (eventLoop its s)"
proof (induction its s rule: eventLoop.induct)
  case (2 it its s)
  then show ?case by (auto simp: processNextMessage_inv) (simp add: loopInv_def)
qed simp

subsection \<open>The host's side\<close>

definition addressed :: "'db Manager \<Rightarrow> bool" where
  "addressed m \<longleftrightarrow> (\<forall>n. IsView m n \<longrightarrow> adapterAddress m n \<noteq> None)"

lemma postWasm_keeps:
  assumes "postWasm env v h = (e, v', h')" "hhManager h = Some m"
  shows "sameIdentity v v' \<and> (\<exists>m'. hhManager h' = Some m' \<and> sameTable m m')"
  using assms by (auto simp: postWasm_def PostWasmToFile_def step_keeps split: if_splits prod.splits option.splits)

text \<open>What one event does to the table of active views: nothing, or one entry with its address.\<close>

definition entersView :: "ViewRegisteredEvent \<Rightarrow> 'db Manager \<Rightarrow> 'db Manager \<Rightarrow> bool" where
  "entersView ev m m' \<longleftrightarrow> map_of (activeViews m') = map_of (activeViews m)
     \<or> map_of (activeViews m) (vName (evView ev)) = None
       \<and> (\<exists>av. map_of (activeViews m') = (map_of (activeViews m))(vName (evView ev) \<mapsto> av)
            \<and> avContractAddress av = vContractAddress (evView ev))"

lemma RegisterView_enters:
  assumes "RegisterView env v m1 = (e, v', m')" "sameIdentity (evView ev) v" "sameTable m m1"
  shows "entersView ev m m'"
  using assms(1)
proof (cases rule: RegisterView_cases)
  case (failed x)
  with assms(3) show ?thesis by (simp add: entersView_def sameTable_def)
next
  case (ok m3)
  with assms(2,3) show ?thesis
    by (auto simp: entersView_def step_keeps update_conv' activeEntry_def)
qed

lemma handleEvent_enters:
  assumes "hhManager h = Some m"
  shows "\<exists>m'. hhManager (handleEvent env failed ev h) = Some m' \<and> entersView ev m m'"
proof (cases "vQuery (evView ev) = [] \<or> vSdl (evView ev) = []")
  case True
  with assms show ?thesis by (auto simp: handleEvent_def entersView_def)
next
  case False
  obtain e v1 h1 where p: "postWasm env (evView ev) h = (e, v1, h1)" by (metis prod_cases3)
  from postWasm_keeps [OF p assms] obtain m1 where
    m1: "sameIdentity (evView ev) v1" "hhManager h1 = Some m1" "sameTable m m1" by blast
  obtain e2 v2 m2 where r: "RegisterView env v1 m1 = (e2, v2, m2)" by (metis prod_cases3)
  have "entersView ev m m1" using m1(3) by (simp add: entersView_def sameTable_def)
  with RegisterView_enters [OF r m1(1,3)] False p m1(2) r show ?thesis
    by (cases e; cases e2) (simp_all add: handleEvent_def)
qed

lemma addressed_iff: "addressed m \<longleftrightarrow> (\<forall>n av. map_of (activeViews m) n = Some av \<longrightarrow> avContractAddress av \<noteq> [])"
  by (auto simp: addressed_def IsView_def IsActive_def adapterAddress_def ContractAddress_def split: option.splits)

text \<open>The views of \<open>m'\<close> are those of \<open>m\<close> and views of the events, under the events' addresses.\<close>

definition viewsFrom :: "ViewRegisteredEvent list \<Rightarrow> 'db Manager \<Rightarrow> 'db Manager \<Rightarrow> bool" where
  "viewsFrom evs m m' \<longleftrightarrow>
     (\<forall>n. if IsView m n then IsView m' n \<and> adapterAddress m' n = adapterAddress m n
          else IsView m' n \<longrightarrow> (\<exists>e \<in> set evs. vName (evView e) = n \<and> adapterAddress m' n = Some (evContract e)))"

lemma viewsFromD:
  assumes "viewsFrom evs m m'"
  shows "IsView m n \<Longrightarrow> IsView m' n" "IsView m n \<Longrightarrow> adapterAddress m' n = adapterAddress m n"
    "IsView m' n \<Longrightarrow> \<not> IsView m n \<Longrightarrow> \<exists>e \<in> set evs. vName (evView e) = n \<and> adapterAddress m' n = Some (evContract e)"
  using assms [unfolded viewsFrom_def, rule_format, of n] by (auto split: if_splits)

lemma enters_viewsFrom: "entersView ev m m' \<Longrightarrow> good_event ev \<Longrightarrow> viewsFrom [ev] m m'"
  by (auto simp: viewsFrom_def entersView_def good_event_def complete_ids_def IsView_def IsActive_def adapterAddress_def
      ContractAddress_def split: if_splits)

lemma viewsFrom_trans:
  assumes "viewsFrom xs m m1" "viewsFrom ys m1 m2"
  shows "viewsFrom (xs @ ys) m m2"
proof -
  have "if IsView m n then IsView m2 n \<and> adapterAddress m2 n = adapterAddress m n
          else IsView m2 n \<longrightarrow> (\<exists>e \<in> set (xs @ ys). vName (evView e) = n \<and> adapterAddress m2 n = Some (evContract e))" for n
  proof (cases "IsView m1 n")
    case True
    then have "IsView m2 n" "adapterAddress m2 n = adapterAddress m1 n" using assms(2) by (auto simp: viewsFrom_def)
    with True assms(1) [unfolded viewsFrom_def, rule_format, of n] show ?thesis by (auto split: if_splits)
  next
    case False
    with assms(1) [unfolded viewsFrom_def, rule_format, of n] have "\<not> IsView m n" by (auto split: if_splits)
    with False assms(2) [unfolded viewsFrom_def, rule_format, of n] show ?thesis by (auto split: if_splits)
  qed
  then show ?thesis unfolding viewsFrom_def by blast
qed

lemma handleIncomingEvents_views:
  assumes "list_all (\<lambda>(env, failed, ev). good_event ev) evs" "hhManager h = Some m"
  shows "\<exists>m'. hhManager (handleIncomingEvents evs h) = Some m' \<and> viewsFrom (map (snd \<circ> snd) evs) m m'"
  using assms
proof (induction evs h arbitrary: m rule: handleIncomingEvents.induct)
  case (1 h)
  then show ?case by (simp add: viewsFrom_def)
next
  case (2 env failed ev evs h)
  obtain m1 where m1: "hhManager (handleEvent env failed ev h) = Some m1" "entersView ev m m1"
    using handleEvent_enters [OF "2.prems"(2)] by blast
  with "2.prems"(1) have v: "viewsFrom [ev] m m1" by (intro enters_viewsFrom) simp_all
  have "list_all (\<lambda>(env, failed, ev). good_event ev) evs" using "2.prems"(1) by simp
  from "2.IH" [OF this m1(1)] obtain m' where
    m': "hhManager (handleIncomingEvents evs (handleEvent env failed ev h)) = Some m'" "viewsFrom (map (snd \<circ> snd) evs) m1 m'" by blast
  with viewsFrom_trans [OF v m'(2)] show ?case by (simp add: comp_def)
qed

lemma viewsFrom_addressed: "viewsFrom evs m m' \<Longrightarrow> addressed m \<Longrightarrow> addressed m'"
  unfolding viewsFrom_def addressed_def by (metis option.discI)

subsection \<open>Properties\<close>

text \<open>
  C25. Whatever the hub sends and however the connection fails, every event on the channel names a
  view, an address and a creator and carries a validated view under the event's address; the backoff stays
  between one second and sixty, and while the loop runs its connection is open and has sent
  the three subscriptions.
\<close>

theorem event_stream_sound:
  assumes "StartEventSubscription now d sub = Inr s0" "s = eventLoop its s0"
  shows "(\<forall>e \<in> set (lsOut s). ViewID e \<noteq> [] \<and> evContract e \<noteq> [] \<and> evCreator e \<noteq> []
      \<and> Validate (evView e) = None \<and> vContractAddress (evView e) = evContract e)
    \<and> second \<le> lsBackoff s \<and> lsBackoff s \<le> 60 * second
    \<and> (lsStatus s = Running \<longrightarrow> wsOpen (lsConn s) \<and> wsSent (lsConn s) = enumerate 1 getSubscriptionQueries)"
proof -
  have "loopInv s" using start_inv [OF assms(1)] by (simp add: assms(2) eventLoop_inv)
  then show ?thesis
    by (auto simp: loopInv_def good_event_def complete_ids_def backoffOk_def fullConn_def list_all_iff)
qed

definition demoMsg :: RPCResponse where
  "demoMsg =
     \<lparr>JSONRPCVersion = ''2.0'', rpcID = 1, rpcResult = \<lparr>rrQuery = [], rrData = \<lparr>rdType = ''tendermint/event/Tx'',
        rdValue = \<lparr>txHeight = ''1'', txBytes = [],
          txResult = \<lparr>trData = [], trEvents = Some [\<lparr>evType = ''view.view_registered'', evAttributes =
            [\<lparr>attrKey = ''view_id'', attrValue = ''7'', attrIndex = True\<rparr>, \<lparr>attrKey = ''contract_address'', attrValue = ''0xa'', attrIndex = True\<rparr>,
             \<lparr>attrKey = ''creator'', attrValue = ''c'', attrIndex = True\<rparr>]\<rparr>], GasUsed = [], GasWanted = []\<rparr>, txEvents = None\<rparr>\<rparr>\<rparr>\<rparr>"

text \<open>A gateway that answers 404 at first and serves the bundle at the second attempt.\<close>

definition demoHyd :: hydEnv where
  "demoHyd =
     \<lparr>hyLCD = Some ''h'', hyHttp = (\<lambda>n e. if n = 1 then Response 404 [] else Response 200 ''b''), hyDecode = (\<lambda>b. Some (demoEntry ''0xa'' ''AA=='')),
      hyUnbundle = (\<lambda>w. Some (''Log { x }'', ''type V @x'', [])), hyCancelled = (\<lambda>n. False), hySendCancelled = False\<rparr>"

definition demoRound :: "bool \<Rightarrow> reconnectRound" where
  "demoRound ok = \<lparr>rdJitter = (\<lambda>n. n div 2), rdCancelled = False, rdDialled = ok, rdSub = (\<lambda>i. SubOk)\<rparr>"

definition demoIt :: "readOutcome \<Rightarrow> iteration" where
  "demoIt r = \<lparr>itCtxHead = False, itRead = r, itNow = 5, itCtxErr = False, itEnvs = (\<lambda>i. demoHyd), itRounds = [demoRound False, demoRound True]\<rparr>"

definition demoLoop :: loopState where
  "demoLoop = \<lparr>lsConn = fullConn, lsPing = True, lsConnectedAt = 0, lsBackoff = second, lsOut = [], lsStatus = Running\<rparr>"

definition demoStream :: loopState where
  "demoStream = eventLoop [demoIt (ReadErr False), demoIt (ReadMsg (Some demoMsg))] demoLoop"

lemma demoStart: "StartEventSubscription 0 True (\<lambda>i. SubOk) = Inr demoLoop"
  by (simp add: StartEventSubscription_def demoLoop_def dial_succeeds)

lemma demoStream_eval: "map (\<lambda>e. (vName (evView e), evContract e)) (lsOut demoStream) = [(''V'', ''0xa'')] \<and> lsStatus demoStream = Running"
  by code_simp

theorem event_stream_sound_witness:
  "\<exists>e. lsOut demoStream = [e] \<and> Validate (evView e) = None \<and> vContractAddress (evView e) = evContract e
     \<and> wsOpen (lsConn demoStream) \<and> lsBackoff demoStream \<le> 60 * second"
proof -
  obtain e where e: "lsOut demoStream = [e]" using demoStream_eval by auto
  with event_stream_sound [OF demoStart demoStream_def] demoStream_eval show ?thesis by simp
qed

text \<open>
  Reconnecting backs off exponentially within bounds: with a jitter source that keeps its
  range, the wait before the k-th retry lies within a quarter of the smaller of \<open>2 ^ k\<close> seconds and
  sixty seconds, and if the context does not end, one round whose dial and subscriptions succeed
  is enough to return an open connection with all subscriptions sent.
\<close>

theorem reconnect_bounded:
  assumes "list_all jitterOk rs" "reconnect rs second maxBackoff = (ws, res, b')"
  shows "(\<forall>k < length ws. let b = min (2 ^ k * second) (60 * second) in b - b div 4 \<le> ws ! k \<and> ws ! k \<le> b + b div 4)
    \<and> (list_all (\<lambda>r. \<not> rdCancelled r) rs \<longrightarrow>
       list_ex (\<lambda>r. rdDialled r \<and> rdSub r 0 = SubOk \<and> rdSub r 1 = SubOk \<and> rdSub r 2 = SubOk) rs \<longrightarrow>
         (\<exists>c. res = Some (Some c) \<and> wsOpen c \<and> wsSent c = enumerate 1 getSubscriptionQueries))"
proof -
  have b: "backoffOk second" by (simp add: backoffOk_def)
  show ?thesis
    using reconnect_waits_near [OF b assms] reconnect_succeeds [OF b, of rs] assms(2)
    by (auto simp: nearBackoff_def Let_def fullConn_def simp del: reconnect.simps)
qed

theorem reconnect_bounded_witness:
  "\<exists>ws c b'. reconnect [demoRound False, demoRound True] second maxBackoff = (ws, Some (Some c), b') \<and> length ws = 2
     \<and> 1500000000 \<le> ws ! 1 \<and> ws ! 1 \<le> 2500000000 \<and> wsOpen c"
proof -
  let ?rs = "[demoRound False, demoRound True]"
  obtain ws res b' where r: "reconnect ?rs second maxBackoff = (ws, res, b')" by (metis prod_cases3)
  have j: "list_all jitterOk ?rs" by (auto simp: jitterOk_def demoRound_def)
  have l: "length (fst (reconnect ?rs second maxBackoff)) = 2" by code_simp
  with r have "length ws = 2" by simp
  moreover from this reconnect_bounded [OF j r, THEN conjunct1, rule_format, of 1]
  have "1500000000 \<le> ws ! 1" "ws ! 1 \<le> 2500000000" by (simp_all add: Let_def)
  moreover obtain c where "res = Some (Some c)" "wsOpen c"
    using reconnect_bounded [OF j r, THEN conjunct2] by (auto simp: demoRound_def)
  ultimately show ?thesis using r by blast
qed

text \<open>
  A connection that stalls is never re-established: the WebSocket library documents read
  errors as permanent, so after a read timeout every further read fails the same way or panics;
  the loop keeps the dead connection, delivers nothing more, and ends with the recovered panic,
  although the context is still live.
\<close>

theorem stalled_connection_ends_stream:
  assumes "lsStatus s = Running" "list_all (\<lambda>it. \<not> itCtxHead it \<and> \<not> itCtxErr it) its"
    and permanent: "list_all (\<lambda>it. itRead it = ReadErr True \<or> itRead it = ReadPanic) its"
  shows "lsOut (eventLoop its s) = lsOut s \<and> lsConn (eventLoop its s) = lsConn s
    \<and> (lsStatus (eventLoop its s) = Ended \<longleftrightarrow> list_ex (\<lambda>it. itRead it = ReadPanic) its)"
  using assms
proof (induction its s rule: eventLoop.induct)
  case (2 it its s)
  show ?case
  proof (cases "itRead it = ReadPanic")
    case True
    with 2 show ?thesis by (cases its) (auto simp: processNextMessage_def)
  next
    case False
    with "2.prems" have "processNextMessage it s = s\<lparr>lsConnectedAt := itNow it\<rparr>"
      by (simp add: processNextMessage_def handleReadError_def isTimeoutError_def)
    with 2 False show ?thesis by simp
  qed
qed simp

theorem stalled_connection_ends_stream_witness:
  "lsStatus (eventLoop [demoIt (ReadErr True), demoIt (ReadErr True), demoIt ReadPanic] demoStream) = Ended
     \<and> lsOut (eventLoop [demoIt (ReadErr True), demoIt (ReadErr True), demoIt ReadPanic] demoStream) = lsOut demoStream"
  using stalled_connection_ends_stream [of demoStream "[demoIt (ReadErr True), demoIt (ReadErr True), demoIt ReadPanic]"] demoStream_eval
  by (simp add: demoIt_def)

text \<open>
  C26. From the hub to the billing gate: whatever the host has consumed of the event stream, with
  whatever failures of DefraDB and the files, the views that were active stay active under their
  addresses, and every view added is the view of a consumed event and is found by the gate under that event's
  contract address. If all views had an address before, all have one after.
\<close>

theorem hub_views_addressed:
  assumes "StartEventSubscription now d sub = Inr s0"
    and "map (snd \<circ> snd) evs = take k (lsOut (eventLoop its s0))" "hhManager h = Some m"
  shows "\<exists>m'. hhManager (handleIncomingEvents evs h) = Some m' \<and> (addressed m \<longrightarrow> addressed m')
    \<and> (\<forall>n. IsView m n \<longrightarrow> IsView m' n \<and> adapterAddress m' n = adapterAddress m n)
    \<and> (\<forall>n. IsView m' n \<longrightarrow> \<not> IsView m n \<longrightarrow>
         (\<exists>e \<in> set (map (snd \<circ> snd) evs). vName (evView e) = n \<and> adapterAddress m' n = Some (evContract e)))"
proof -
  have "list_all good_event (lsOut (eventLoop its s0))" using eventLoop_inv start_inv [OF assms(1)] by (auto simp: loopInv_def)
  then have "list_all good_event (map (snd \<circ> snd) evs)" unfolding assms(2) by (auto simp: list_all_iff dest: in_set_takeD)
  then have "list_all (\<lambda>(env, failed, ev). good_event ev) evs" by (auto simp: list_all_iff)
  from handleIncomingEvents_views [OF this assms(3)] obtain m' where
    m': "hhManager (handleIncomingEvents evs h) = Some m'" "viewsFrom (map (snd \<circ> snd) evs) m m'" by blast
  show ?thesis
  proof (intro exI [of _ m'] conjI allI impI)
    show "addressed m'" if "addressed m" using viewsFrom_addressed [OF m'(2) that] .
  qed (use m' viewsFromD [OF m'(2)] in blast)+
qed

definition demoHost :: "unit hubHost" where
  "demoHost = \<lparr>hhManager = Some demoManager, hhFiles = Map.empty, hhViewsFile = Missing\<rparr>"

theorem hub_views_addressed_witness:
  "\<exists>m'. hhManager (handleIncomingEvents [(demoViewEnv, None, hd (lsOut demoStream))] demoHost) = Some m'
     \<and> IsView m' ''V'' \<and> adapterAddress m' ''V'' = Some ''0xa''"
proof -
  let ?evs = "[(demoViewEnv, None, hd (lsOut demoStream))]"
  have l: "map (snd \<circ> snd) ?evs = take 1 (lsOut demoStream)" using demoStream_eval by auto
  have m: "hhManager demoHost = Some demoManager" by (simp add: demoHost_def)
  have n: "\<not> IsView demoManager ''V''" "evContract (hd (lsOut demoStream)) = ''0xa''"
    "map_option (\<lambda>m. IsView m ''V'') (hhManager (handleIncomingEvents ?evs demoHost)) = Some True" by code_simp+
  from hub_views_addressed [OF demoStart l [unfolded demoStream_def] m] obtain m' where
    "hhManager (handleIncomingEvents ?evs demoHost) = Some m'"
    "IsView m' ''V'' \<longrightarrow> adapterAddress m' ''V'' = Some ''0xa''" unfolding demoStream_def [symmetric] using n(1,2) by auto
  with n(3) show ?thesis by auto
qed

text \<open>
  The two ways to register an event agree: with a view manager, \<open>ProcessViewRegistrationEvent\<close>
  leaves the same state as the channel's consumer, and without one it changes nothing.
\<close>

theorem registration_entry_points_agree:
  "snd (ProcessViewRegistrationEvent env failed ev h) = (case hhManager h of None \<Rightarrow> h | Some m \<Rightarrow> handleEvent env failed ev h)"
proof (cases "hhManager h")
  case (Some m)
  obtain e v1 h1 where p: "postWasm env (evView ev) h = (e, v1, h1)" by (metis prod_cases3)
  from postWasm_keeps [OF p Some] obtain m1 where "hhManager h1 = Some m1" by blast
  with Some p show ?thesis
    by (auto simp: ProcessViewRegistrationEvent_def handleEvent_def split: option.split prod.split)
qed (simp add: ProcessViewRegistrationEvent_def)

text \<open>
  The bundle of a view is fetched exactly when one of three attempts answers it and every
  earlier attempt failed with an error the hub's lag can produce; any other error ends the
  attempts at once.
\<close>

theorem hydration_retries_exact:
  "fetchBundleWithRetry env lcdURL c = Inr w \<longleftrightarrow>
     (\<exists>k < 3. GetViewBundle (hyHttp env (1 + k)) (hyDecode env) lcdURL c = Inr w
       \<and> (\<forall>j < k. (\<exists>e. GetViewBundle (hyHttp env (1 + j)) (hyDecode env) lcdURL c = Inl e \<and> isTransientHydrationErr e)
            \<and> \<not> hyCancelled env (1 + j)))"
  unfolding fetchBundleWithRetry_def fetchAttempts_iff by (simp add: less_Suc_eq_le [symmetric] numeral_3_eq_3)

theorem hydration_retries_exact_witness: "fetchBundleWithRetry demoHyd ''h'' ''0xa'' = Inr ''AA==''"
proof -
  have "GetViewBundle (hyHttp demoHyd (1 + 0)) (hyDecode demoHyd) ''h'' ''0xa'' = Inl (ErrLCDHTTPStatus 404)"
    "GetViewBundle (hyHttp demoHyd (1 + 1)) (hyDecode demoHyd) ''h'' ''0xa'' = Inr ''AA==''" "\<not> hyCancelled demoHyd (1 + 0)"
    by (simp_all add: GetViewBundle_def lcdGet_def demoHyd_def demoEntry_def)
  then show ?thesis unfolding hydration_retries_exact by (intro exI [of _ 1]) auto
qed

end
