(* ===== verification/Accounting.thy ===== *)
theory Accounting
  imports Billing_Gate "HOL-Library.Multiset"
begin

text \<open>
  \<open>pkg/accounting\<close> and the recording half of \<open>pkg/acp/middleware.go\<close>: the service record that
  is signed and posted for a served query, and the bounded pool of goroutines that post records
  beside the request path. Decoding and signing with the billing library and the HTTP exchange
  are arguments; JSON encoding of a record of strings and numbers does not fail.
\<close>

subsection \<open>Posting a record (\<open>client.go\<close>)\<close>

record ServiceRecord =
  rNonce :: string
  rPoolID :: string
  rQueryHash :: string
  rHostAddress :: string
  rRequestTimestamp :: nat
  rRequestSignature :: string
  rRowsQueried :: nat
  rRespondedAt :: nat
  rResponseCIDs :: "string list"
  rResponseSignature :: string
  rAttestedIndexers :: "string list"

datatype submit_error = BuildRequestFailed | PostFailed | AccountingStatus nat string

abbreviation maxErrorBodyBytes :: nat where "maxErrorBodyBytes \<equiv> 512"

definition NewClient :: "string \<Rightarrow> string" where
  "NewClient baseURL = rev (dropWhile (\<lambda>c. c = CHR ''/'') (rev baseURL))"

text \<open>
  \<open>validURL\<close> says whether a request can be built, \<open>post\<close> is the exchange: status and body of
  the answer. The client is its base URL.
\<close>

definition Submit ::
  "(string \<Rightarrow> bool) \<Rightarrow> (string \<Rightarrow> ServiceRecord \<Rightarrow> (nat \<times> string) option) \<Rightarrow> string \<Rightarrow> ServiceRecord \<Rightarrow> submit_error option" where
  "Submit validURL post client rec =
     (let url = client @ ''/v1/service-records'' in
      if \<not> validURL url then Some BuildRequestFailed
      else (case post url rec of
          None \<Rightarrow> Some PostFailed
        | Some (status, body) \<Rightarrow>
            if status < 200 \<or> status \<ge> 300
            then Some (AccountingStatus status (trimSpace (take maxErrorBodyBytes body)))
            else None))"

subsection \<open>Building a record (\<open>recorder.go\<close>)\<close>

record RecordInput =
  inExtensions :: Extensions
  inRowsQueried :: nat
  inAttestedIndexers :: "string list"

record ('h, 'a) QueryResponse =
  qrQueryHash :: 'h
  qrHost :: 'a
  qrPool :: 'a
  qrRowsQueried :: nat
  qrRespondedAt :: nat
  qrResponseCids :: "string list"

text \<open>
  The library: a request's query hash and pool, the hex form of an address, and the signature
  of a response under a chain id (which hashes the list of response CIDs).
\<close>

record ('h, 'a) billingLib =
  decodeRequest :: "Extensions \<Rightarrow> ('h \<times> 'a) option"
  addressHex :: "'a \<Rightarrow> string"
  SignQueryResponse :: "nat \<Rightarrow> ('h, 'a) QueryResponse \<Rightarrow> byte list"

record 'a Recorder =
  recClient :: string
  hostAddress :: 'a
  recChainID :: nat

datatype record_error = DecodeExtensions | SubmitFailed submit_error

definition buildRecord :: "('h, 'a) billingLib \<Rightarrow> 'a Recorder \<Rightarrow> int \<Rightarrow> RecordInput \<Rightarrow> ServiceRecord option" where
  "buildRecord lib rc nowUnix i =
     (case decodeRequest lib (inExtensions i) of
        None \<Rightarrow> None
      | Some (queryHash, pool) \<Rightarrow>
          (let respondedAt = wrapU64 nowUnix;
               signature = SignQueryResponse lib (recChainID rc)
                 \<lparr>qrQueryHash = queryHash, qrHost = hostAddress rc, qrPool = pool, qrRowsQueried = inRowsQueried i,
                  qrRespondedAt = respondedAt, qrResponseCids = []\<rparr> in
           Some \<lparr>rNonce = extNonce (inExtensions i), rPoolID = addressHex lib pool, rQueryHash = extQueryHash (inExtensions i),
                 rHostAddress = addressHex lib (hostAddress rc), rRequestTimestamp = RequestTimestamp (inExtensions i),
                 rRequestSignature = RequestSignature (inExtensions i), rRowsQueried = inRowsQueried i,
                 rRespondedAt = respondedAt, rResponseCIDs = [], rResponseSignature = ''0x'' @ hexEncode signature,
                 rAttestedIndexers = inAttestedIndexers i\<rparr>))"

definition Record ::
  "('h, 'a) billingLib \<Rightarrow> (string \<Rightarrow> bool) \<Rightarrow> (string \<Rightarrow> ServiceRecord \<Rightarrow> (nat \<times> string) option)
     \<Rightarrow> 'a Recorder \<Rightarrow> int \<Rightarrow> RecordInput \<Rightarrow> record_error option" where
  "Record lib validURL post rc nowUnix i =
     (case buildRecord lib rc nowUnix i of
        None \<Rightarrow> Some DecodeExtensions
      | Some sr \<Rightarrow> map_option SubmitFailed (Submit validURL post (recClient rc) sr))"

text \<open>\<open>Middleware.record\<close>: what a submitted record of the gate hands to the recorder.\<close>

definition recordInput :: "string list option \<Rightarrow> 'p serviceRecord \<Rightarrow> RecordInput" where
  "recordInput attesters sr =
     \<lparr>inExtensions = srExtensions sr, inRowsQueried = srRows sr,
      inAttestedIndexers = (case attesters of None \<Rightarrow> [] | Some xs \<Rightarrow> xs)\<rparr>"

subsection \<open>The pool of recording goroutines\<close>

text \<open>
  \<open>submitRecord\<close> sends on a channel of capacity 64 before it starts the goroutine, which
  receives from it when it ends, also after a panic. \<open>blocked\<close> are the handlers waiting to send,
  \<open>inFlight\<close> the goroutines counted by the wait group, \<open>finished\<close> those that ended.
\<close>

abbreviation defaultRecordConcurrency :: nat where "defaultRecordConcurrency \<equiv> 64"

record 'r recordPool =
  blocked :: "'r list"
  inFlight :: "'r list"
  finished :: "'r list"

definition emptyPool :: "'r recordPool" where
  "emptyPool = \<lparr>blocked = [], inFlight = [], finished = []\<rparr>"

inductive poolStep :: "'r option \<Rightarrow> 'r recordPool \<Rightarrow> 'r recordPool \<Rightarrow> bool" where
  arrive: "poolStep (Some x) p (p\<lparr>blocked := x # blocked p\<rparr>)"
| acquire: "x \<in> set (blocked p) \<Longrightarrow> length (inFlight p) < defaultRecordConcurrency \<Longrightarrow>
    poolStep None p (p\<lparr>blocked := remove1 x (blocked p), inFlight := x # inFlight p\<rparr>)"
| finish: "x \<in> set (inFlight p) \<Longrightarrow>
    poolStep None p (p\<lparr>inFlight := remove1 x (inFlight p), finished := x # finished p\<rparr>)"

inductive poolReach :: "'r multiset \<Rightarrow> 'r recordPool \<Rightarrow> bool" where
  init: "poolReach {#} emptyPool"
| arriving: "poolReach M p \<Longrightarrow> poolStep (Some x) p p' \<Longrightarrow> poolReach (add_mset x M) p'"
| internal: "poolReach M p \<Longrightarrow> poolStep None p p' \<Longrightarrow> poolReach M p'"

inductive_cases poolStep_arriveE: "poolStep (Some x) p p'"

text \<open>\<open>Drain\<close> returns through its first case when the wait group is zero.\<close>

definition drained :: "'r recordPool \<Rightarrow> bool" where
  "drained p \<longleftrightarrow> inFlight p = []"

definition accounted :: "'r multiset \<Rightarrow> 'r recordPool \<Rightarrow> bool" where
  "accounted M p \<longleftrightarrow> length (inFlight p) \<le> defaultRecordConcurrency
     \<and> M = mset (blocked p) + mset (inFlight p) + mset (finished p)"

lemma poolReach_accounted: "poolReach M p \<Longrightarrow> accounted M p"
proof (induction rule: poolReach.induct)
  case init
  then show ?case by (simp add: accounted_def emptyPool_def)
next
  case (arriving M p x p')
  then show ?case by (auto simp: accounted_def elim: poolStep_arriveE)
next
  case (internal M p p')
  from internal(2) show ?case
  proof (cases rule: poolStep.cases)
    case (acquire x)
    then show ?thesis using internal(3) by (auto simp: accounted_def insert_DiffM)
  next
    case (finish x)
    then have "length (remove1 x (inFlight p)) \<le> length (inFlight p)" by (simp add: length_remove1)
    with finish show ?thesis using internal(3) by (auto simp: accounted_def insert_DiffM)
  qed
qed

text \<open>While a record is unfinished the pool can move without a new arrival.\<close>

lemma pool_progress: "blocked p \<noteq> [] \<or> inFlight p \<noteq> [] \<Longrightarrow> \<exists>p'. poolStep None p p'"
proof (cases "inFlight p")
  case Nil
  moreover assume "blocked p \<noteq> [] \<or> inFlight p \<noteq> []"
  ultimately obtain x where "x \<in> set (blocked p)" by (cases "blocked p") auto
  with Nil show ?thesis using poolStep.acquire by fastforce
next
  case (Cons x xs)
  then show ?thesis using poolStep.finish [of x p] by auto
qed

subsection \<open>Properties\<close>



text \<open>
  What is posted is what was signed: for a served query the record carries the payer's own
  signed request, the row count counted by the gate, the pool the payer named, and a response
  signature over exactly that pool, row count and time; it is posted to the configured service
  and any answer outside 2xx is reported as a failure.
\<close>

theorem posted_record_is_signed:
  assumes "decodeRequest lib (srExtensions sr) = Some (queryHash, pool)"
  shows "\<exists>post_rec. buildRecord lib rc nowUnix (recordInput attesters sr) = Some post_rec
     \<and> rRequestSignature post_rec = RequestSignature (srExtensions sr) \<and> rRowsQueried post_rec = srRows sr
     \<and> rPoolID post_rec = addressHex lib pool
     \<and> rResponseSignature post_rec = ''0x'' @ hexEncode (SignQueryResponse lib (recChainID rc)
          \<lparr>qrQueryHash = queryHash, qrHost = hostAddress rc, qrPool = pool, qrRowsQueried = rRowsQueried post_rec,
           qrRespondedAt = rRespondedAt post_rec, qrResponseCids = rResponseCIDs post_rec\<rparr>)
     \<and> (Record lib validURL post rc nowUnix (recordInput attesters sr) = None \<longleftrightarrow>
          validURL (recClient rc @ ''/v1/service-records'')
          \<and> (\<exists>status body. post (recClient rc @ ''/v1/service-records'') post_rec = Some (status, body) \<and> 200 \<le> status \<and> status < 300))"
proof -
  obtain post_rec where b: "buildRecord lib rc nowUnix (recordInput attesters sr) = Some post_rec"
    using assms by (simp add: buildRecord_def recordInput_def Let_def)
  have "Record lib validURL post rc nowUnix (recordInput attesters sr) = None \<longleftrightarrow>
      validURL (recClient rc @ ''/v1/service-records'')
      \<and> (\<exists>status body. post (recClient rc @ ''/v1/service-records'') post_rec = Some (status, body) \<and> 200 \<le> status \<and> status < 300)"
    using b by (auto simp: Record_def Submit_def Let_def split: option.splits)
  moreover from b assms have "rRequestSignature post_rec = RequestSignature (srExtensions sr)" "rRowsQueried post_rec = srRows sr"
    "rPoolID post_rec = addressHex lib pool"
    "rResponseSignature post_rec = ''0x'' @ hexEncode (SignQueryResponse lib (recChainID rc)
          \<lparr>qrQueryHash = queryHash, qrHost = hostAddress rc, qrPool = pool, qrRowsQueried = rRowsQueried post_rec,
           qrRespondedAt = rRespondedAt post_rec, qrResponseCids = rResponseCIDs post_rec\<rparr>)"
    by (auto simp: buildRecord_def recordInput_def Let_def)
  ultimately show ?thesis using b by (intro exI [of _ post_rec] conjI) assumption+
qed

definition demoLib :: "(string, string) billingLib" where
  "demoLib = \<lparr>decodeRequest = \<lambda>x. Some (extQueryHash x, PoolAddress x), addressHex = id, SignQueryResponse = \<lambda>i q. [of_nat (qrRowsQueried q)]\<rparr>"

theorem posted_record_is_signed_witness:
  "\<exists>post_rec. buildRecord demoLib \<lparr>recClient = ''http://as'', hostAddress = ''0xh'', recChainID = 1\<rparr> 50
      (recordInput None \<lparr>srPayer = ''p'', srExtensions = demoExt, srView = ''V'', srRows = 3\<rparr>) = Some post_rec
    \<and> rRowsQueried post_rec = 3 \<and> rPoolID post_rec = ''pool''"
proof -
  let ?sr = "\<lparr>srPayer = ''p'', srExtensions = demoExt, srView = ''V'', srRows = 3\<rparr>"
  have d: "decodeRequest demoLib (srExtensions ?sr) = Some (extQueryHash demoExt, PoolAddress demoExt)" by (simp add: demoLib_def)
  from posted_record_is_signed [OF d, of "\<lparr>recClient = ''http://as'', hostAddress = ''0xh'', recChainID = 1\<rparr>" 50 None "\<lambda>u. True" "\<lambda>u x. None"]
  obtain post_rec where "buildRecord demoLib \<lparr>recClient = ''http://as'', hostAddress = ''0xh'', recChainID = 1\<rparr> 50 (recordInput None ?sr) = Some post_rec"
    "rRowsQueried post_rec = srRows ?sr" "rPoolID post_rec = addressHex demoLib (PoolAddress demoExt)"
    by (elim exE conjE) (rule that)
  then show ?thesis by (intro exI [of _ post_rec]) (simp add: demoLib_def demoExt_def)
qed

end
