(* ===== verification/Observed_Attesters.thy ===== *)
theory Observed_Attesters
  imports Host_Prelude "HOL-Library.List_Lexorder" "HOL-Library.Char_ord"
begin

text \<open>
  \<open>pkg/host/observedAttesters.go\<close>: the attesters seen within a time window. The clock is an
  argument of each call; times and the window are nanoseconds. The iteration order of the map
  is the order of the association list; \<open>sort.Strings\<close> orders bytewise.
\<close>

record observedAttesters =
  window :: int
  lastSeen :: "(string \<times> int) list"

definition newObservedAttesters :: "int \<Rightarrow> observedAttesters" where
  "newObservedAttesters w = \<lparr>window = w, lastSeen = []\<rparr>"

definition Observe :: "int \<Rightarrow> string \<Rightarrow> observedAttesters \<Rightarrow> observedAttesters" where
  "Observe now identity obs =
     (if identity = [] then obs else obs\<lparr>lastSeen := AList.update identity now (lastSeen obs)\<rparr>)"

definition Snapshot :: "int \<Rightarrow> observedAttesters \<Rightarrow> string list \<times> observedAttesters" where
  "Snapshot now obs =
     (let cutoff = now - window obs;
          live = filter (\<lambda>(id, seen). \<not> seen < cutoff) (lastSeen obs)
      in (sort (map fst live), obs\<lparr>lastSeen := live\<rparr>))"

subsection \<open>Specification over the history of calls\<close>

datatype attesterCall = CallObserve int string | CallSnapshot int

fun callTime :: "attesterCall \<Rightarrow> int" where
  "callTime (CallObserve t i) = t" | "callTime (CallSnapshot t) = t"

fun runCall :: "attesterCall \<Rightarrow> observedAttesters \<Rightarrow> observedAttesters" where
  "runCall (CallObserve t i) obs = Observe t i obs"
| "runCall (CallSnapshot t) obs = snd (Snapshot t obs)"

definition seenSince :: "int \<Rightarrow> attesterCall list \<Rightarrow> string set" where
  "seenSince cutoff calls = {i. i \<noteq> [] \<and> (\<exists>t. CallObserve t i \<in> set calls \<and> cutoff \<le> t)}"

definition attesters_inv :: "attesterCall list \<Rightarrow> observedAttesters \<Rightarrow> int \<Rightarrow> bool" where
  "attesters_inv calls obs now \<longleftrightarrow>
     distinct (map fst (lastSeen obs)) \<and> (\<forall>(i, s) \<in> set (lastSeen obs). s \<le> now)
     \<and> (\<forall>cutoff. now - window obs \<le> cutoff \<longrightarrow>
          {i. \<exists>s. (i, s) \<in> set (lastSeen obs) \<and> cutoff \<le> s} = seenSince cutoff calls)"

lemma attesters_seen:
  "attesters_inv calls obs now \<Longrightarrow> now - window obs \<le> cutoff \<Longrightarrow>
     {i. \<exists>s. (i, s) \<in> set (lastSeen obs) \<and> cutoff \<le> s} = seenSince cutoff calls"
  unfolding attesters_inv_def by blast

lemma attesters_later:
  "attesters_inv calls obs now \<Longrightarrow> now \<le> t \<Longrightarrow> attesters_inv calls obs t"
  unfolding attesters_inv_def by force

lemma runCall_window [simp]: "window (runCall call obs) = window obs"
  by (cases call) (auto simp: Observe_def Snapshot_def Let_def)

lemma fold_window [simp]: "window (fold runCall calls obs) = window obs"
  by (induction calls arbitrary: obs) auto

lemma seenSince_simps [simp]:
  "seenSince cutoff [] = {}"
  "seenSince cutoff (calls @ [CallSnapshot t]) = seenSince cutoff calls"
  "seenSince cutoff (calls @ [CallObserve t i])
     = seenSince cutoff calls \<union> (if i \<noteq> [] \<and> cutoff \<le> t then {i} else {})"
  by (auto simp: seenSince_def)

lemma runCall_inv:
  assumes inv: "attesters_inv calls obs now" and t: "now \<le> callTime call"
  shows "attesters_inv (calls @ [call]) (runCall call obs) (callTime call)"
proof (cases call)
  case (CallObserve t i)
  show ?thesis
  proof (cases "i = []")
    case True
    moreover from this have "seenSince cutoff (calls @ [call]) = seenSince cutoff calls" for cutoff
      using CallObserve by simp
    ultimately show ?thesis using attesters_later [OF inv assms(2)] CallObserve
      unfolding attesters_inv_def by (simp only: Observe_def runCall.simps simp_thms if_True) blast
  next
    case False
    let ?m = "AList.update i t (lastSeen obs)"
    have d: "distinct (map fst ?m)" using inv by (simp add: attesters_inv_def distinct_update)
    have mem: "(j, s) \<in> set ?m \<longleftrightarrow> (if j = i then s = t else (j, s) \<in> set (lastSeen obs))" for j s
    proof -
      have "distinct (map fst (lastSeen obs))" using inv by (simp add: attesters_inv_def)
      from map_of_eq_Some_iff [OF d, of j s] map_of_eq_Some_iff [OF this, of j s] show ?thesis
        unfolding update_conv' by (auto split: if_splits)
    qed
    have old: "\<forall>(j, s) \<in> set (lastSeen obs). s \<le> t"
      using attesters_later [OF inv assms(2)] CallObserve by (simp add: attesters_inv_def)
    then have "\<forall>(j, s) \<in> set ?m. s \<le> t" by (auto simp: mem split: if_splits)
    moreover have "{j. \<exists>s. (j, s) \<in> set ?m \<and> cutoff \<le> s} = seenSince cutoff calls \<union> (if cutoff \<le> t then {i} else {})"
      if c: "t - window obs \<le> cutoff" for cutoff
    proof -
      have o: "{j. \<exists>s. (j, s) \<in> set (lastSeen obs) \<and> cutoff \<le> s} = seenSince cutoff calls"
        using attesters_seen [OF inv] c assms(2) CallObserve by simp
      show ?thesis using old by (auto simp: mem simp flip: o split: if_splits)
    qed
    ultimately show ?thesis using False d CallObserve by (simp add: attesters_inv_def Observe_def)
  qed
next
  case (CallSnapshot t)
  let ?live = "filter (\<lambda>(id, seen). \<not> seen < t - window obs) (lastSeen obs)"
  have "{j. \<exists>s. (j, s) \<in> set ?live \<and> cutoff \<le> s} = seenSince cutoff calls"
    if "t - window obs \<le> cutoff" for cutoff
  proof -
    have "{j. \<exists>s. (j, s) \<in> set (lastSeen obs) \<and> cutoff \<le> s} = seenSince cutoff calls"
      using attesters_seen [OF inv] that assms(2) CallSnapshot by simp
    with that show ?thesis by force
  qed
  with inv assms(2) CallSnapshot show ?thesis
    by (auto simp: attesters_inv_def Snapshot_def Let_def distinct_map_filter)
qed

lemma runCalls_inv:
  assumes "sorted (map callTime calls)"
  shows "attesters_inv calls (fold runCall calls (newObservedAttesters w))
    (if calls = [] then T else callTime (last calls))"
  using assms
proof (induction calls rule: rev_induct)
  case Nil
  then show ?case by (simp add: attesters_inv_def newObservedAttesters_def)
next
  case (snoc call calls)
  then show ?case
  proof (cases "calls = []")
    case True
    have "attesters_inv [] (newObservedAttesters w) (callTime call)"
      by (simp add: attesters_inv_def newObservedAttesters_def)
    with runCall_inv [OF this order_refl] True show ?thesis by simp
  next
    case False
    with snoc have "callTime (last calls) \<le> callTime call" by (simp add: sorted_append)
    with runCall_inv snoc False show ?thesis by (simp add: sorted_append)
  qed
qed

subsection \<open>Properties\<close>

text \<open>
  With a clock that does not go backwards, a snapshot returns, in sorted order and without
  duplicates, exactly the non-empty identities observed at or after \<open>now - window\<close>,
  whatever observations and snapshots came before: the entries earlier snapshots dropped are
  never missing.
\<close>

theorem attesters_snapshot_exact:
  assumes "sorted (map callTime (calls @ [CallSnapshot now]))"
  shows "fst (Snapshot now (fold runCall calls (newObservedAttesters w)))
    = sorted_list_of_set (seenSince (now - w) calls)"
proof -
  let ?o = "fold runCall calls (newObservedAttesters w)"
  let ?live = "filter (\<lambda>(id, seen). \<not> seen < now - w) (lastSeen ?o)"
  from runCalls_inv [of calls w now] assms(1) have
    inv: "attesters_inv calls ?o (if calls = [] then now else callTime (last calls))"
    by (simp add: sorted_append)
  have d: "distinct (map fst (lastSeen ?o))" using inv by (simp add: attesters_inv_def)
  have le: "(if calls = [] then now else callTime (last calls)) \<le> now"
    using assms(1) by (auto simp: sorted_append)
  have w: "window ?o = w" by (simp add: newObservedAttesters_def)
  have "{i. \<exists>s. (i, s) \<in> set (lastSeen ?o) \<and> now - w \<le> s} = seenSince (now - w) calls"
    by (rule attesters_seen [OF inv]) (use le w in linarith)
  then have "set (map fst ?live) = seenSince (now - w) calls"
    by force
  moreover have "distinct (map fst ?live)" using d by (rule distinct_map_filter)
  ultimately have "sort (map fst ?live) = sorted_list_of_set (seenSince (now - w) calls)"
    by (metis sorted_list_of_set_sort_remdups distinct_remdups_id)
  then show ?thesis unfolding Snapshot_def w Let_def by simp
qed

theorem attesters_snapshot_exact_witness:
  "fst (Snapshot 9 (fold runCall [CallObserve 1 ''b'', CallSnapshot 7, CallObserve 8 ''a''] (newObservedAttesters 5)))
    = sorted_list_of_set (seenSince (9 - 5) [CallObserve 1 ''b'', CallSnapshot 7, CallObserve 8 ''a''])"
  by (rule attesters_snapshot_exact) simp

end
