(* ===== verification/Attestation_Handler.thy ===== *)
theory Attestation_Handler
  imports Attestation_Record Observed_Attesters Event_Queue
begin

text \<open>
  \<open>pkg/host/attestationHandler.go\<close>: from replication events to attestation records. The
  state the handlers share is the record \<open>attState\<close>: the metrics, the attester set, the
  signature cache (\<open>None\<close> when the verifier is not configured), the set of attested blocks,
  the collection-id map, the prune queue with its codec, and the bounded document channel.
  The clock and the measured durations are arguments. Other writers of the store act between
  retries through the argument \<open>between\<close>.
\<close>

record docEvent =
  evDocID :: string
  evCollection :: string

record attState =
  aMetrics :: "HostMetrics option"
  aAttesters :: "observedAttesters option"
  aVerifier :: "BlockSignatureCache option"
  attestedBlocks :: "int set"
  collectionIDToName :: "(string \<times> string) list"
  pruneQueue :: "(codec \<times> EventQueue) option"
  docQueue :: "docEvent list"
  docQueueCap :: nat

abbreviation onMetrics :: "(HostMetrics \<Rightarrow> HostMetrics) \<Rightarrow> attState \<Rightarrow> attState" where
  "onMetrics f st \<equiv> st\<lparr>aMetrics := map_option f (aMetrics st)\<rparr>"

subsection \<open>Startup\<close>

definition knownNames :: "string list" where
  "knownNames =
     [''Ethereum__Mainnet__BlockSignature'', ''Ethereum__Mainnet__Block'', ''Ethereum__Mainnet__Transaction'',
      ''Ethereum__Mainnet__Log'', ''Ethereum__Mainnet__AccessListEntry'', ''Ethereum__Mainnet__AttestationRecord'']"

text \<open>\<open>cols\<close> are the names and identifiers of the store's collections.\<close>

definition initKnownCollectionIDs ::
  "bool \<Rightarrow> (string \<times> string) list option \<Rightarrow> attState \<Rightarrow> bool \<times> attState" where
  "initKnownCollectionIDs hasNode cols st =
     (if \<not> hasNode then (False, st)
      else (case cols of None \<Rightarrow> (False, st)
        | Some cs \<Rightarrow>
            (True, st\<lparr>collectionIDToName :=
               fold (\<lambda>(name, cid) m. if name \<in> set knownNames then AList.update cid name m else m)
                 cs (collectionIDToName st)\<rparr>)))"

definition initDocQueue :: "int \<Rightarrow> int \<Rightarrow> attState \<Rightarrow> int \<times> int \<times> attState" where
  "initDocQueue cfgQueueSize cfgWorkers st =
     (let queueSize = (if cfgQueueSize \<le> 0 then 5000 else cfgQueueSize);
          workerCount = (if cfgWorkers \<le> 0 then 16 else cfgWorkers)
      in (workerCount, queueSize, st\<lparr>docQueue := [], docQueueCap := nat queueSize\<rparr>))"

subsection \<open>Document queue\<close>

text \<open>
  The loop of \<open>enqueueDoc\<close>, run while no worker takes an element: send if there is room,
  else drop the oldest and try again. \<open>None\<close> stands for spinning forever on a channel
  without capacity.
\<close>

function enqueueDoc :: "nat \<Rightarrow> docEvent \<Rightarrow> docEvent list \<Rightarrow> docEvent list option" where
  "enqueueDoc cap evt q =
     (if length q < cap then Some (q @ [evt])
      else if q = [] then None else enqueueDoc cap evt (tl q))"
  by pat_completeness auto
termination
  by (relation "measure (\<lambda>(cap, evt, q). length q)") auto

declare enqueueDoc.simps [simp del]

text \<open>Steps of the channel: the listener enqueues, a worker receives the oldest element.\<close>

datatype chanOp = ChanPush docEvent | ChanTake

fun chanStep :: "nat \<Rightarrow> chanOp \<Rightarrow> docEvent list \<Rightarrow> docEvent list" where
  "chanStep cap (ChanPush e) q = (case enqueueDoc cap e q of Some q' \<Rightarrow> q' | None \<Rightarrow> q)"
| "chanStep cap ChanTake q = tl q"

fun pushed :: "chanOp list \<Rightarrow> docEvent list" where
  "pushed [] = []"
| "pushed (ChanPush e # ops) = e # pushed ops"
| "pushed (ChanTake # ops) = pushed ops"

subsection \<open>Event bus\<close>

record updateEvent =
  updDocID :: string
  updCollectionID :: string
  updIsRelay :: bool

definition collectionsWithMetrics :: "string list" where
  "collectionsWithMetrics =
     [''Ethereum__Mainnet__BlockSignature'', ''Ethereum__Mainnet__Transaction'',
      ''Ethereum__Mainnet__Log'', ''Ethereum__Mainnet__AccessListEntry'']"

text \<open>
  One message of the listener loop: \<open>None\<close> when the message is not an update event. The
  metrics are nil-checked, which \<open>onMetrics\<close> does.
\<close>

definition handleUpdate :: "int \<Rightarrow> updateEvent option \<Rightarrow> attState \<Rightarrow> attState" where
  "handleUpdate now msg st =
     (case msg of None \<Rightarrow> st
      | Some u \<Rightarrow>
          (case map_of (collectionIDToName st) (updCollectionID u) of
             None \<Rightarrow> st
           | Some collectionName \<Rightarrow>
               let st1 = st\<lparr>pruneQueue := map_option (Push collectionName (updDocID u)) (pruneQueue st)\<rparr> in
               if \<not> updIsRelay u then st1
               else
                 let st2 = onMetrics (IncrementDocumentsReceived now) st1;
                     st3 = (if collectionName \<in> set collectionsWithMetrics
                            then onMetrics (IncrementDocumentByType collectionName) st2 else st2)
                 in if collectionName = ''Ethereum__Mainnet__BlockSignature''
                    then st3\<lparr>docQueue := chanStep (docQueueCap st3)
                               (ChanPush \<lparr>evDocID = updDocID u, evCollection = collectionName\<rparr>) (docQueue st3)\<rparr>
                    else st3))"

text \<open>
  The listener over the events it meets: a message with the time at which it is counted. Without
  a node it does nothing, a failed initialisation of the collections is only logged, and without
  a subscription the queue and its workers exist but nothing is received. The number of workers
  started is returned.
\<close>

datatype listenerEvent = ListenerCtxDone | ListenerClosed | ListenerMessage int "updateEvent option"

fun listenLoop :: "listenerEvent list \<Rightarrow> attState \<Rightarrow> attState" where
  "listenLoop [] st = st"
| "listenLoop (ListenerCtxDone # evs) st = st"
| "listenLoop (ListenerClosed # evs) st = st"
| "listenLoop (ListenerMessage now msg # evs) st = listenLoop evs (handleUpdate now msg st)"

definition startEventBusListener ::
  "bool \<Rightarrow> (string \<times> string) list option \<Rightarrow> int \<Rightarrow> int \<Rightarrow> bool \<Rightarrow> listenerEvent list \<Rightarrow> attState \<Rightarrow> int \<times> attState" where
  "startEventBusListener hasNode cols cfgQueueSize cfgWorkers subscribed evs st =
     (if \<not> hasNode then (0, st)
      else (let (_, st1) = initKnownCollectionIDs hasNode cols st;
                (workerCount, _, st2) = initDocQueue cfgQueueSize cfgWorkers st1 in
            (workerCount, if subscribed then listenLoop evs st2 else st2)))"

subsection \<open>Reading a block signature document\<close>

text \<open>\<open>get\<close> is \<open>doc.Get\<close>, with \<open>None\<close> for an error.\<close>

datatype extract_error = MissingBlockNumber | MissingMerkleRoot int | ErrEmptyMerkleRoot int

definition extractBlockSignatureCore :: "(string \<Rightarrow> gany option) \<Rightarrow> extract_error + BlockSignature" where
  "extractBlockSignatureCore get =
     (case get ''blockNumber'' of None \<Rightarrow> Inl MissingBlockNumber
      | Some bv \<Rightarrow>
          let blockNumber = (case bv of AInt64 i \<Rightarrow> i | AFloat64 f \<Rightarrow> f64_to_int64 f | _ \<Rightarrow> 0) in
          (case get ''merkleRoot'' of None \<Rightarrow> Inl (MissingMerkleRoot blockNumber)
           | Some (AStr mroot) \<Rightarrow>
               if mroot = [] then Inl (ErrEmptyMerkleRoot blockNumber)
               else Inr \<lparr>BlockNumber = blockNumber, BlockHash = [], MerkleRoot = mroot, CIDCount = 0, CIDs = [],
                         SignatureType = [], SignatureIdentity = [], SignatureValue = [], CreatedAt = []\<rparr>
           | Some _ \<Rightarrow> Inl (ErrEmptyMerkleRoot blockNumber)))"

definition strOr :: "string \<Rightarrow> gany option \<Rightarrow> string" where
  "strOr old v = (case v of Some (AStr s) \<Rightarrow> s | _ \<Rightarrow> old)"

definition populateBlockSignatureFields :: "(string \<Rightarrow> gany option) \<Rightarrow> BlockSignature \<Rightarrow> BlockSignature" where
  "populateBlockSignatureFields get s =
     s\<lparr>BlockHash := strOr (BlockHash s) (get ''blockHash''),
       CIDCount := (case get ''cidCount'' of
                      Some (AInt64 i) \<Rightarrow> i | Some (AFloat64 f) \<Rightarrow> f64_to_int64 f | _ \<Rightarrow> CIDCount s),
       SignatureType := strOr (SignatureType s) (get ''signatureType''),
       SignatureIdentity := strOr (SignatureIdentity s) (get ''signatureIdentity''),
       SignatureValue := strOr (SignatureValue s) (get ''signatureValue''),
       CreatedAt := strOr (CreatedAt s) (get ''createdAt'')\<rparr>"

definition populateBlockSignatureCIDs :: "(string \<Rightarrow> gany option) \<Rightarrow> BlockSignature \<Rightarrow> BlockSignature" where
  "populateBlockSignatureCIDs get s =
     (case get ''cids'' of
        Some (AStrs v) \<Rightarrow> s\<lparr>CIDs := v\<rparr>
      | Some (AOptStrs v) \<Rightarrow> s\<lparr>CIDs := CIDs s @ stringItems (AOptStrs v)\<rparr>
      | Some (AAnys v) \<Rightarrow> s\<lparr>CIDs := CIDs s @ stringItems (AAnys v)\<rparr>
      | _ \<Rightarrow> s)"

subsection \<open>Verifying and attesting\<close>

definition verifyBlockSignature ::
  "('pk, 'cid) crypto \<Rightarrow> BlockSignature \<Rightarrow> HostMetrics option \<Rightarrow> bool \<times> HostMetrics option" where
  "verifyBlockSignature K s mtr =
     (case VerifyBlockSignature K (Some s) of
        Some _ \<Rightarrow> (False, map_option IncrementSignatureFailures mtr)
      | None \<Rightarrow>
          if CIDs s \<noteq> [] then
            (case VerifyCIDListAgainstMerkleRoot K (Some s) of
               Inl _ \<Rightarrow> (True, mtr)
             | Inr cidMatch \<Rightarrow> if \<not> cidMatch then (False, map_option IncrementSignatureFailures mtr) else (True, mtr))
          else (True, mtr))"

definition attestedID :: "BlockSignature \<Rightarrow> string" where
  "attestedID s = ''block:'' @ showInt (BlockNumber s) @ '':'' @ MerkleRoot s"

definition blockRecord :: "BlockSignature \<Rightarrow> AttestationRecord" where
  "blockRecord s =
     \<lparr>AttestedDocID = attestedID s, SourceDocIDs = [SignatureIdentity s], recCIDs = CIDs s,
      DocType = ''Block'', VoteCount = 1\<rparr>"

definition retryable :: "(post_error \<Rightarrow> string) \<Rightarrow> post_error \<Rightarrow> bool" where
  "retryable errText e \<longleftrightarrow>
     containsStr (errText e) ''transaction conflict'' \<or> containsStr (errText e) ''Please retry''"

definition recordAttested :: "int \<Rightarrow> attState \<Rightarrow> attState" where
  "recordAttested blockNumber st =
     (let st1 = (if blockNumber \<in> attestedBlocks st then st
                 else onMetrics (IncrementDocumentByType ''Ethereum__Mainnet__Block'' \<circ> IncrementAttestationsCreated)
                        (st\<lparr>attestedBlocks := insert blockNumber (attestedBlocks st)\<rparr>))
      in onMetrics (UpdateMostRecentBlock (wrapU64 blockNumber)) st1)"

text \<open>The retry loop; \<open>n\<close> attempts are left, \<open>k\<close> is the index of the next one.\<close>

fun postWithRetries ::
  "('doc, 'db) docstore \<Rightarrow> (post_error \<Rightarrow> string) \<Rightarrow> (nat \<Rightarrow> 'db \<Rightarrow> 'db) \<Rightarrow> AttestationRecord \<Rightarrow> int
     \<Rightarrow> nat \<Rightarrow> nat \<Rightarrow> attState \<times> 'db \<Rightarrow> attState \<times> 'db" where
  "postWithRetries S errText between r blockNumber 0 k (st, db) =
     (onMetrics IncrementAttestationErrors st, db)"
| "postWithRetries S errText between r blockNumber (Suc n) k (st, db) =
     (case PostAttestationRecord S r (between k db) of
        (Some e, db') \<Rightarrow>
          if retryable errText e then postWithRetries S errText between r blockNumber n (Suc k) (st, db')
          else (onMetrics IncrementAttestationErrors st, db')
      | (None, db') \<Rightarrow> (recordAttested blockNumber st, db'))"

definition processAttestationsFromBlockSignature ::
  "bool \<Rightarrow> ('doc, 'db) docstore \<Rightarrow> (post_error \<Rightarrow> string) \<Rightarrow> (nat \<Rightarrow> 'db \<Rightarrow> 'db) \<Rightarrow> BlockSignature
     \<Rightarrow> attState \<times> 'db \<Rightarrow> attState \<times> 'db" where
  "processAttestationsFromBlockSignature hasNode S errText between s sd =
     (if \<not> hasNode then sd
      else if CIDs s = [] then sd
      else postWithRetries S errText between (blockRecord s) (BlockNumber s) 5 0 sd)"

definition processBlockSignatureDocument ::
  "('pk, 'cid) crypto \<Rightarrow> bool \<Rightarrow> ('doc, 'db) docstore \<Rightarrow> (post_error \<Rightarrow> string) \<Rightarrow> (nat \<Rightarrow> 'db \<Rightarrow> 'db)
     \<Rightarrow> int \<Rightarrow> 64 word \<Rightarrow> (string \<Rightarrow> gany option) \<Rightarrow> attState \<times> 'db \<Rightarrow> attState \<times> 'db" where
  "processBlockSignatureDocument K hasNode S errText between now elapsed get sd =
     (case sd of (st, db) \<Rightarrow>
      (case extractBlockSignatureCore get of
         Inl _ \<Rightarrow> (st, db)
       | Inr core \<Rightarrow>
           let s = populateBlockSignatureCIDs get (populateBlockSignatureFields get core);
               timed = (\<lambda>(st, db). (onMetrics (UpdateLastProcessingTime elapsed) st, db))
           in (case aVerifier st of
                 None \<Rightarrow> timed (st, db)
               | Some _ \<Rightarrow>
                   (case verifyBlockSignature K s (aMetrics st) of
                      (False, mtr) \<Rightarrow> (st\<lparr>aMetrics := mtr\<rparr>, db)
                    | (True, mtr) \<Rightarrow>
                        let st1 = st\<lparr>aMetrics := mtr,
                                     aAttesters := map_option (Observe now (SignatureIdentity s)) (aAttesters st)\<rparr>;
                            st2 = onMetrics IncrementSignatureVerifications st1;
                            st3 = st2\<lparr>aVerifier := map_option (cacheAdd (Some s)) (aVerifier st2)\<rparr>
                        in timed (processAttestationsFromBlockSignature hasNode S errText between s (st3, db))))))"

text \<open>
  Fetching with retries: \<open>fetch k\<close> is what attempt \<open>k\<close> returns and \<open>cancelled k\<close> whether
  the context is done in the pause after it.
\<close>

fun fetchLoop :: "(nat \<Rightarrow> 'a option) \<Rightarrow> (nat \<Rightarrow> bool) \<Rightarrow> nat \<Rightarrow> nat \<Rightarrow> 'a option" where
  "fetchLoop fetch cancelled 0 k = None"
| "fetchLoop fetch cancelled (Suc n) k =
     (case fetch k of
        Some d \<Rightarrow> Some d
      | None \<Rightarrow> if n > 0 \<and> cancelled k then None else fetchLoop fetch cancelled n (Suc k))"

definition processBlockSignatureFromEventBus ::
  "bool \<Rightarrow> bool \<Rightarrow> (string \<Rightarrow> bool) \<Rightarrow> (nat \<Rightarrow> (string \<Rightarrow> gany option) option) \<Rightarrow> (nat \<Rightarrow> bool)
     \<Rightarrow> ((string \<Rightarrow> gany option) \<Rightarrow> 's \<Rightarrow> 's) \<Rightarrow> string \<Rightarrow> 's \<Rightarrow> 's" where
  "processBlockSignatureFromEventBus hasNode hasCollection validDocID fetch cancelled process docID s =
     (if \<not> hasNode then s
      else if \<not> hasCollection then s
      else if \<not> validDocID docID then s
      else (case fetchLoop fetch cancelled 10 0 of None \<Rightarrow> s | Some doc \<Rightarrow> process doc s))"

text \<open>One event received by a worker.\<close>

definition docWorker :: "(string \<Rightarrow> 's \<Rightarrow> 's) \<Rightarrow> docEvent \<Rightarrow> 's \<Rightarrow> 's" where
  "docWorker process evt s =
     (if evCollection evt = ''Ethereum__Mainnet__BlockSignature'' then process (evDocID evt) s else s)"

definition truncateString :: "string \<Rightarrow> nat \<Rightarrow> string" where
  "truncateString s maxLen = (if length s \<le> maxLen then s else take maxLen s @ ''...'')"

subsection \<open>Documents without block signatures\<close>

record Document =
  docIdent :: string
  docKind :: string
  docBlockNumber :: nat
  docData :: gfields

definition processDocumentAttestationBatch ::
  "'m verifier \<Rightarrow> ('doc, 'db) docstore \<Rightarrow> Document list \<Rightarrow> 'm \<times> 'db \<Rightarrow> post_error option \<times> 'm \<times> 'db" where
  "processDocumentAttestationBatch verify S docs st =
     (if docs = [] then (None, st)
      else
        let inputs = List.map_filter
              (\<lambda>d. let vs = ExtractVersionsFromDocument (docData d) in
                    if vs = [] then None
                    else Some \<lparr>inDocID = docIdent d, inDocType = docKind d, inVersions = vs\<rparr>) docs in
        if inputs = [] then (None, st)
        else HandleDocumentAttestationBatch verify S inputs st)"

subsection \<open>Lemmas\<close>

lemma enqueueDoc_drops_oldest:
  "0 < cap \<Longrightarrow> enqueueDoc cap e q = Some (drop (Suc (length q) - cap) q @ [e])"
proof (induction cap e q rule: enqueueDoc.induct)
  case (1 cap e q)
  show ?case
  proof (cases "length q < cap")
    case True
    then show ?thesis by (simp add: enqueueDoc.simps)
  next
    case False
    with "1.prems" obtain x q' where q: "q = x # q'" by (cases q) auto
    with False "1.IH" "1.prems" show ?thesis
      by (simp add: enqueueDoc.simps [of cap e "x # q'"] Suc_diff_le)
  qed
qed

lemma pushed_append [simp]: "pushed (xs @ ys) = pushed xs @ pushed ys"
  by (induction xs rule: pushed.induct) auto

lemma attestedID_prefix: "attestedID s = blockAttestedPrefix (BlockNumber s) @ MerkleRoot s"
  by (simp add: attestedID_def blockAttestedPrefix_def)

lemma showInt_no_colon: "CHR '':'' \<notin> set (showInt i)"
proof -
  have "CHR '':'' \<notin> set (showNat n)" for n using showNat_digits [of "CHR '':''" n] by auto
  then show ?thesis by (simp add: showInt_def)
qed

lemma attestedID_not_queried: "attestedID s \<noteq> blockAttestedID n"
proof
  assume "attestedID s = blockAttestedID n"
  then have "showInt (BlockNumber s) @ '':'' @ MerkleRoot s = showInt n"
    by (simp add: attestedID_def blockAttestedID_def)
  then have "CHR '':'' \<in> set (showInt n)" by (metis append_Cons in_set_conv_decomp)
  then show False using showInt_no_colon by blast
qed

lemma split_at_byte:
  "c \<notin> set xs \<Longrightarrow> c \<notin> set ys \<Longrightarrow> xs @ c # us = ys @ c # vs \<Longrightarrow> xs = ys \<and> us = vs"
  by (induction xs arbitrary: ys) (case_tac ys, auto)+

lemma attestedID_inj:
  assumes "attestedID s = attestedID t"
  shows "BlockNumber s = BlockNumber t \<and> MerkleRoot s = MerkleRoot t"
proof -
  from assms have "showInt (BlockNumber s) @ CHR '':'' # MerkleRoot s
      = showInt (BlockNumber t) @ CHR '':'' # MerkleRoot t" by (simp add: attestedID_def)
  from split_at_byte [OF showInt_no_colon showInt_no_colon this] show ?thesis
    by (auto dest: showInt_inj)
qed

lemma populate_core [simp]:
  "BlockNumber (populateBlockSignatureCIDs get (populateBlockSignatureFields get c)) = BlockNumber c"
  "MerkleRoot (populateBlockSignatureCIDs get (populateBlockSignatureFields get c)) = MerkleRoot c"
  by (simp_all add: populateBlockSignatureCIDs_def populateBlockSignatureFields_def split: option.split gany.split)

definition demoState :: attState where
  "demoState = \<lparr>aMetrics = Some (NewHostMetrics 0), aAttesters = Some (newObservedAttesters 300),
     aVerifier = Some (NewBlockSignatureCache 10), attestedBlocks = {}, collectionIDToName = [],
     pruneQueue = None, docQueue = [], docQueueCap = 2\<rparr>"

definition demoGet :: "string \<Rightarrow> gany option" where
  "demoGet = map_of [(''blockNumber'', AInt64 12), (''merkleRoot'', AStr ''01''), (''signatureType'', AStr ''ES256K''),
     (''signatureIdentity'', AStr ''k''), (''signatureValue'', AStr ''0202''), (''cids'', AStrs [''c1''])]"

subsection \<open>Properties\<close>

text \<open>
  C12. Nothing is attested without a valid signature: a block signature document whose
  signature does not verify leaves the store, the signature cache, the attester set and the
  attested blocks as they were; only the failure counter moves.
\<close>

theorem unverified_signature_no_effect:
  assumes "extractBlockSignatureCore get = Inr core" "aVerifier st = Some c"
    and "VerifyBlockSignature K (Some (populateBlockSignatureCIDs get (populateBlockSignatureFields get core))) \<noteq> None"
  shows "processBlockSignatureDocument K hasNode S errText between now elapsed get (st, db)
    = (onMetrics IncrementSignatureFailures st, db)"
  using assms by (auto simp: processBlockSignatureDocument_def verifyBlockSignature_def Let_def)

theorem unverified_signature_no_effect_witness:
  "processBlockSignatureDocument demoCrypto True demoDocStore (\<lambda>e. []) (\<lambda>k db. db) 5 0 demoGet (demoState, None)
    = (onMetrics IncrementSignatureFailures demoState, None)"
proof -
  have e: "extractBlockSignatureCore demoGet = Inr \<lparr>BlockNumber = 12, BlockHash = [], MerkleRoot = ''01'', CIDCount = 0,
     CIDs = [], SignatureType = [], SignatureIdentity = [], SignatureValue = [], CreatedAt = []\<rparr>"
    by (simp add: extractBlockSignatureCore_def demoGet_def)
  have h: "hexDecode ''01'' = Some [1]" "hexDecode ''0202'' = Some [2, 2]" by code_simp+
  show ?thesis
    by (rule unverified_signature_no_effect [OF e, where c = "NewBlockSignatureCache 10"])
      (simp_all add: demoState_def VerifyBlockSignature_def populateBlockSignatureCIDs_def
        populateBlockSignatureFields_def strOr_def demoGet_def h signatureKeyType_def demoCrypto_def
        del: hexDecode.simps)
qed

text \<open>
  An error while checking the CID list does not stop the block: when the signature over
  the root is valid and no entry of a non-empty CID list parses, the signature is still
  accepted, so the record attests CIDs that were never compared with the root.
\<close>

theorem unparseable_cids_accepted:
  assumes "VerifyBlockSignature K (Some s) = None" "CIDs s \<noteq> []" "\<forall>c \<in> set (CIDs s). cidDecode K c = None"
  shows "verifyBlockSignature K s mtr = (True, mtr)"
proof -
  have "List.map_filter (cidDecode K) (CIDs s) = []"
    using assms(3) by (auto simp: List.map_filter_def filter_empty_conv)
  with assms show ?thesis
    by (simp add: verifyBlockSignature_def VerifyCIDListAgainstMerkleRoot_def
        VerifyCIDsAgainstBlockSignature_def ComputeMerkleRootFromStrings_def)
qed

theorem unparseable_cids_accepted_witness:
  "verifyBlockSignature demoCrypto (demoSig\<lparr>CIDs := [[]]\<rparr>) None = (True, None)"
proof -
  have h: "hexDecode ''01'' = Some [1]" "hexDecode ''0101'' = Some [1, 1]" by code_simp+
  show ?thesis
    by (rule unparseable_cids_accepted)
      (simp_all add: VerifyBlockSignature_def demoSig_def demoCrypto_def h signatureKeyType_def del: hexDecode.simps)
qed

text \<open>
  Identifiers of block attestations. Two block signatures share an attestation record
  exactly when they agree on the block number and the Merkle root; the record is found by the
  prefix query for its own block number and by no other.
\<close>

theorem block_attestation_id_exact:
  "(attestedID s = attestedID t \<longleftrightarrow> BlockNumber s = BlockNumber t \<and> MerkleRoot s = MerkleRoot t)
   \<and> (hasPrefix (attestedID s) (blockAttestedPrefix n) \<longleftrightarrow> n = BlockNumber s)"
proof (intro conjI iffI)
  assume "hasPrefix (attestedID s) (blockAttestedPrefix n)"
  from hasPrefixD [OF this] obtain v where
    "showInt (BlockNumber s) @ CHR '':'' # MerkleRoot s = showInt n @ CHR '':'' # v"
    by (auto simp: attestedID_def blockAttestedPrefix_def)
  from split_at_byte [OF showInt_no_colon showInt_no_colon this] show "n = BlockNumber s"
    by (auto dest: showInt_inj)
next
  assume "n = BlockNumber s"
  then show "hasPrefix (attestedID s) (blockAttestedPrefix n)" by (simp add: attestedID_prefix)
next
  assume "BlockNumber s = BlockNumber t \<and> MerkleRoot s = MerkleRoot t"
  then show "attestedID s = attestedID t" by (simp add: attestedID_def)
qed (blast dest: attestedID_inj)+

text \<open>
  The per-document lookup never finds a block attestation: for a store whose equality
  filter is exact and whose block records were all written by the block signature handler,
  \<open>IsDocumentAttestedViaBlock\<close> answers no for every block and every CID, attested or not.
\<close>

theorem block_attestation_lookup_misses:
  assumes "runQuery (viaBlockQuery n)
      = Inr (filter (\<lambda>r. AttestedDocID r = blockAttestedID n \<and> DocType r = ''Block'') store)"
    and "\<forall>r \<in> set store. DocType r = ''Block'' \<longrightarrow> (\<exists>s. r = blockRecord s)"
  shows "IsDocumentAttestedViaBlock runQuery errText n cid = Inr False"
proof -
  have "AttestedDocID r \<noteq> blockAttestedID n" if "r \<in> set store" "DocType r = ''Block''" for r
  proof -
    from assms(2) that obtain s where "r = blockRecord s" by blast
    then show ?thesis using attestedID_not_queried [of s n] by (simp add: blockRecord_def)
  qed
  then have "filter (\<lambda>r. AttestedDocID r = blockAttestedID n \<and> DocType r = ''Block'') store = []"
    by (auto simp: filter_empty_conv)
  with assms(1) show ?thesis by (simp add: IsDocumentAttestedViaBlock_def)
qed

theorem block_attestation_lookup_misses_witness:
  "''c1'' \<in> set (recCIDs (blockRecord demoSig)) \<and>
   IsDocumentAttestedViaBlock
     (\<lambda>q. Inr (filter (\<lambda>r. AttestedDocID r = blockAttestedID 12 \<and> DocType r = ''Block'') [blockRecord demoSig]))
     (\<lambda>e. []) 12 ''c1'' = Inr False"
proof
  show "''c1'' \<in> set (recCIDs (blockRecord demoSig))" by (simp add: blockRecord_def demoSig_def)
  show "IsDocumentAttestedViaBlock
     (\<lambda>q. Inr (filter (\<lambda>r. AttestedDocID r = blockAttestedID 12 \<and> DocType r = ''Block'') [blockRecord demoSig]))
     (\<lambda>e. []) 12 ''c1'' = Inr False"
    by (rule block_attestation_lookup_misses [of _ _ "[blockRecord demoSig]"]) auto
qed

text \<open>
  C13. The document queue drops the oldest: after any interleaving of enqueues and worker
  receives on a channel of positive capacity, the queue holds at most the capacity, is the
  tail of the sequence of events pushed so far, and, right after an enqueue, ends with the
  event just pushed.
\<close>

theorem doc_queue_drop_oldest:
  assumes "0 < cap"
  shows "let q = fold (chanStep cap) ops [] in
    length q \<le> cap \<and> (\<exists>old. pushed ops = old @ q)
    \<and> last (chanStep cap (ChanPush e) q) = e \<and> chanStep cap (ChanPush e) q \<noteq> []"
proof -
  have inv: "length (fold (chanStep cap) ops []) \<le> cap \<and> (\<exists>old. pushed ops = old @ fold (chanStep cap) ops [])"
  proof (induction ops rule: rev_induct)
    case Nil
    then show ?case by simp
  next
    case (snoc x ops)
    then obtain old where l: "length (fold (chanStep cap) ops []) \<le> cap"
      and o: "pushed ops = old @ fold (chanStep cap) ops []" by blast
    show ?case
    proof (cases x)
      case (ChanPush e)
      let ?q = "fold (chanStep cap) ops []" and ?n = "Suc (length (fold (chanStep cap) ops [])) - cap"
      have "pushed (ops @ [x]) = (old @ take ?n ?q) @ (drop ?n ?q @ [e])"
        using ChanPush o by simp
      moreover have "fold (chanStep cap) (ops @ [x]) [] = drop ?n ?q @ [e]"
        using ChanPush assms by (simp add: enqueueDoc_drops_oldest)
      moreover have "length (drop ?n ?q @ [e]) \<le> cap" using l assms by simp
      ultimately show ?thesis by metis
    next
      case ChanTake
      show ?thesis
      proof (cases "fold (chanStep cap) ops []")
        case (Cons y ys)
        with ChanTake l o show ?thesis by (intro conjI exI [of _ "old @ [y]"]) auto
      qed (use ChanTake o in auto)
    qed
  qed
  then show ?thesis using assms by (simp add: Let_def enqueueDoc_drops_oldest)
qed

theorem doc_queue_drop_oldest_witness:
  "let q = fold (chanStep 1) [ChanPush \<lparr>evDocID = ''a'', evCollection = []\<rparr>, ChanPush \<lparr>evDocID = ''b'', evCollection = []\<rparr>] [] in
    length q \<le> 1 \<and> (\<exists>old. pushed [ChanPush \<lparr>evDocID = ''a'', evCollection = []\<rparr>, ChanPush \<lparr>evDocID = ''b'', evCollection = []\<rparr>] = old @ q)
    \<and> last (chanStep 1 (ChanPush \<lparr>evDocID = ''c'', evCollection = []\<rparr>) q) = \<lparr>evDocID = ''c'', evCollection = []\<rparr>
    \<and> chanStep 1 (ChanPush \<lparr>evDocID = ''c'', evCollection = []\<rparr>) q \<noteq> []"
  by (rule doc_queue_drop_oldest) simp

end
