(* ===== verification/Processing_Pipeline.thy ===== *)
theory Processing_Pipeline
  imports Attestation_Handler
begin

text \<open>
  \<open>pkg/host/processingPipeline.go\<close>: batching of document jobs and their asynchronous
  attestation. A batch writer is a function of the events its select receives, in order;
  durations are arguments. The outcome of each attestation attempt is a function of the
  attempt's number, as is whether the context is done at each check.
\<close>

record DocumentJob =
  jobDocID :: string
  jobDocType :: string
  jobBlockNumber :: nat
  jobDocData :: gfields

record ProcessingPipeline =
  ppMetrics :: "HostMetrics option"
  jobQueueSize :: int
  batchWriterCount :: int
  batchSize :: int
  batchFlushIntervalMs :: int
  useBlockSignatures :: bool
  processedCount :: int
  pendingAttestationsCount :: int

definition NewProcessingPipeline ::
  "HostMetrics option \<Rightarrow> int \<Rightarrow> int \<Rightarrow> int \<Rightarrow> int \<Rightarrow> bool \<Rightarrow> ProcessingPipeline" where
  "NewProcessingPipeline mtr queueSize writers bsz flushMs useSigs =
     \<lparr>ppMetrics = mtr, jobQueueSize = queueSize,
      batchWriterCount = (if writers \<le> 0 then 8 else writers),
      batchSize = (if bsz \<le> 0 then 1000 else bsz),
      batchFlushIntervalMs = (if flushMs \<le> 0 then 100 else flushMs),
      useBlockSignatures = useSigs, processedCount = 0, pendingAttestationsCount = 0\<rparr>"

subsection \<open>Batch writer\<close>

datatype writerEvent = JobReceived DocumentJob | QueueClosed | FlushTimer | WriterCtxDone

text \<open>
  The loop of \<open>batchWriter\<close>: the batches it hands to \<open>processBatch\<close>, in order, for the
  events received until it returns. \<open>batch\<close> is the batch under construction; when the events
  run out it is what the writer still holds.
\<close>

definition flushBatch :: "DocumentJob list \<Rightarrow> DocumentJob list list" where
  "flushBatch batch = (if batch = [] then [] else [batch])"

fun batchWriter :: "int \<Rightarrow> writerEvent list \<Rightarrow> DocumentJob list \<Rightarrow> DocumentJob list list \<times> DocumentJob list" where
  "batchWriter bsz [] batch = ([], batch)"
| "batchWriter bsz (QueueClosed # evs) batch = (flushBatch batch, [])"
| "batchWriter bsz (WriterCtxDone # evs) batch = (flushBatch batch, [])"
| "batchWriter bsz (FlushTimer # evs) batch =
     (case batchWriter bsz evs [] of (bs, rest) \<Rightarrow> (flushBatch batch @ bs, rest))"
| "batchWriter bsz (JobReceived job # evs) batch =
     (let batch' = batch @ [job] in
      if int (length batch') \<ge> bsz
      then (case batchWriter bsz evs [] of (bs, rest) \<Rightarrow> (flushBatch batch' @ bs, rest))
      else batchWriter bsz evs batch')"

text \<open>The jobs received before the writer returned.\<close>

fun received :: "writerEvent list \<Rightarrow> DocumentJob list" where
  "received [] = []"
| "received (QueueClosed # evs) = []"
| "received (WriterCtxDone # evs) = []"
| "received (FlushTimer # evs) = received evs"
| "received (JobReceived job # evs) = job # received evs"

subsection \<open>Processing a batch\<close>

definition countJob :: "int \<Rightarrow> DocumentJob \<Rightarrow> HostMetrics \<Rightarrow> HostMetrics" where
  "countJob now job m =
     UpdateMostRecentBlock (jobBlockNumber job)
       (IncrementDocumentByType (jobDocType job) (IncrementDocumentsReceived now m))"

definition jobDocument :: "DocumentJob \<Rightarrow> Document" where
  "jobDocument job =
     \<lparr>docIdent = jobDocID job, docKind = jobDocType job, docBlockNumber = jobBlockNumber job, docData = jobDocData job\<rparr>"

text \<open>The second component is the work of the goroutine it starts, if any.\<close>

definition processBatch ::
  "int \<Rightarrow> DocumentJob list \<Rightarrow> ProcessingPipeline \<Rightarrow> ProcessingPipeline \<times> Document list option" where
  "processBatch now jobs pp =
     (if jobs = [] then (pp, None)
      else
        let pp1 = pp\<lparr>ppMetrics := map_option (fold (countJob now) jobs) (ppMetrics pp),
                     processedCount := wrap64 (processedCount pp + int (length jobs))\<rparr> in
        if useBlockSignatures pp then (pp1, None)
        else (pp1\<lparr>pendingAttestationsCount := wrap64 (pendingAttestationsCount pp1 + 1)\<rparr>,
              Some (map jobDocument jobs)))"

subsection \<open>Asynchronous attestation\<close>

definition isTransactionConflict :: "string option \<Rightarrow> bool" where
  "isTransactionConflict err =
     (case err of None \<Rightarrow> False
      | Some s \<Rightarrow> containsStr s ''transaction conflict'' \<or> containsStr s ''Please retry'')"

datatype attestOutcome = Attested | AttestFailed string | Cancelled

text \<open>
  The retry loop: \<open>attempt k\<close> is the error of attempt \<open>k\<close>, \<open>ctxErr k\<close> whether the context
  is done right after it, \<open>ctxDone k\<close> whether it is done during the pause. \<open>left\<close> attempts
  remain.
\<close>

fun attestLoop ::
  "(nat \<Rightarrow> string option) \<Rightarrow> (nat \<Rightarrow> bool) \<Rightarrow> (nat \<Rightarrow> bool) \<Rightarrow> nat \<Rightarrow> nat \<Rightarrow> string \<Rightarrow> attestOutcome \<times> nat" where
  "attestLoop attempt ctxErr ctxDone 0 k lastErr = (AttestFailed lastErr, k)"
| "attestLoop attempt ctxErr ctxDone (Suc left) k lastErr =
     (case attempt k of
        None \<Rightarrow> (Attested, Suc k)
      | Some e \<Rightarrow>
          if \<not> isTransactionConflict (Some e) then (AttestFailed e, Suc k)
          else if ctxErr k then (AttestFailed e, Suc k)
          else if left > 0 \<and> ctxDone k then (Cancelled, Suc k)
          else attestLoop attempt ctxErr ctxDone left (Suc k) e)"

definition processAttestationAsync ::
  "bool \<Rightarrow> (nat \<Rightarrow> string option) \<Rightarrow> (nat \<Rightarrow> bool) \<Rightarrow> (nat \<Rightarrow> bool) \<Rightarrow> Document list
     \<Rightarrow> ProcessingPipeline \<Rightarrow> ProcessingPipeline" where
  "processAttestationAsync semAcquired attempt ctxErr ctxDone docs pp =
     (let finish = (\<lambda>pp. pp\<lparr>pendingAttestationsCount := wrap64 (pendingAttestationsCount pp - 1)\<rparr>) in
      if \<not> semAcquired then finish pp
      else (case fst (attestLoop attempt ctxErr ctxDone 10 0 []) of
          Cancelled \<Rightarrow> finish pp
        | AttestFailed _ \<Rightarrow>
            finish (pp\<lparr>ppMetrics := map_option (fold (\<lambda>_. IncrementAttestationErrors) docs) (ppMetrics pp)\<rparr>)
        | Attested \<Rightarrow>
            finish (pp\<lparr>ppMetrics := map_option (fold (\<lambda>_. IncrementAttestationsCreated) docs) (ppMetrics pp)\<rparr>)))"

definition GetPendingAttestationsCount :: "ProcessingPipeline \<Rightarrow> int" where
  "GetPendingAttestationsCount pp = pendingAttestationsCount pp"

subsection \<open>Lemmas\<close>

lemma flushBatch_concat [simp]: "concat (flushBatch b) = b"
  by (simp add: flushBatch_def)

lemma batchWriter_all:
  assumes "0 < bsz" "int (length batch) < bsz"
  shows "concat (fst (batchWriter bsz evs batch)) @ snd (batchWriter bsz evs batch) = batch @ received evs
    \<and> (\<forall>b \<in> set (fst (batchWriter bsz evs batch)). b \<noteq> [] \<and> int (length b) \<le> bsz)
    \<and> int (length (snd (batchWriter bsz evs batch))) < bsz"
  using assms
proof (induction bsz evs batch rule: batchWriter.induct)
  case (4 bsz evs batch)
  then show ?case by (auto simp: flushBatch_def split: prod.splits)
next
  case (5 bsz job evs batch)
  show ?case
  proof (cases "int (length (batch @ [job])) \<ge> bsz")
    case True
    with "5" show ?thesis by (auto simp: flushBatch_def Let_def split: prod.splits)
  next
    case False
    with "5" show ?thesis by (simp add: Let_def)
  qed
qed (auto simp: flushBatch_def)

lemma countJob_received:
  "0 \<le> DocumentsReceived m \<Longrightarrow> DocumentsReceived m + int (length jobs) < 2 ^ 63 \<Longrightarrow>
     DocumentsReceived (fold (countJob now) jobs m) = DocumentsReceived m + int (length jobs)"
proof (induction jobs arbitrary: m)
  case Nil
  then show ?case by simp
next
  case (Cons j js)
  have "DocumentsReceived (countJob now j m) = DocumentsReceived m + 1"
    using Cons.prems
    by (simp add: countJob_def UpdateMostRecentBlock_def IncrementDocumentByType_def IncrementDocumentsReceived_def
        inc64_def int64_range_def)
  with Cons show ?case by simp
qed

lemma countJob_block:
  "MostRecentBlock (fold (countJob now) jobs m) = Max (insert (MostRecentBlock m) (jobBlockNumber ` set jobs))"
proof (induction jobs arbitrary: m)
  case Nil
  then show ?case by simp
next
  case (Cons j js)
  have "MostRecentBlock (countJob now j m) = max (jobBlockNumber j) (MostRecentBlock m)"
    by (simp add: countJob_def UpdateMostRecentBlock_def IncrementDocumentByType_def IncrementDocumentsReceived_def)
  with Cons show ?case
    by (cases "js = []") (simp_all add: max.assoc max.left_commute Max_insert)
qed

lemma attestLoop_bound: "snd (attestLoop attempt ctxErr ctxDone n k e) \<le> k + n"
proof (induction n arbitrary: k e)
  case 0
  then show ?case by simp
next
  case (Suc n)
  from Suc.IH [of "Suc k"] show ?case by (auto split: option.split)
qed

lemma attestLoop_succeeds:
  assumes "k \<le> j" "j < k + n" "attempt j = None" "\<forall>i < j. k \<le> i \<longrightarrow> isTransactionConflict (attempt i)"
    and "\<forall>i. \<not> ctxErr i \<and> \<not> ctxDone i"
  shows "fst (attestLoop attempt ctxErr ctxDone n k e) = Attested"
  using assms(1-4)
proof (induction n arbitrary: k e)
  case 0
  then show ?case by simp
next
  case (Suc n)
  show ?case
  proof (cases "k = j")
    case True
    with Suc.prems show ?thesis by simp
  next
    case False
    with Suc.prems have lt: "k < j" and c: "isTransactionConflict (attempt k)" by auto
    then obtain e' where e': "attempt k = Some e'" by (cases "attempt k") (auto simp: isTransactionConflict_def)
    have "fst (attestLoop attempt ctxErr ctxDone n (Suc k) e') = Attested"
      using lt Suc.prems by (intro Suc.IH) auto
    moreover have "\<not> ctxErr k" "\<not> ctxDone k" using assms(5) by simp_all
    ultimately show ?thesis using e' c by simp
  qed
qed

lemma countAttested:
  "0 \<le> AttestationsCreated m \<Longrightarrow> AttestationsCreated m + int (length docs) < 2 ^ 63 \<Longrightarrow>
     AttestationsCreated (fold (\<lambda>_. IncrementAttestationsCreated) docs m) = AttestationsCreated m + int (length docs)"
  by (induction docs arbitrary: m) (simp_all add: IncrementAttestationsCreated_def inc64_def int64_range_def)

subsection \<open>Properties\<close>

text \<open>
  Batching loses, duplicates and reorders nothing: the batches a writer processes, read
  one after the other and followed by the batch it still holds, are exactly the jobs it
  received; every batch is non-empty and none is larger than the batch size; and once the
  queue is closed or the context is done it holds nothing back.
\<close>

theorem batch_writer_conserves:
  assumes "0 < bsz"
  shows "concat (fst (batchWriter bsz evs [])) @ snd (batchWriter bsz evs []) = received evs
    \<and> (\<forall>b \<in> set (fst (batchWriter bsz evs [])). b \<noteq> [] \<and> int (length b) \<le> bsz)
    \<and> snd (batchWriter bsz (evs @ [QueueClosed]) []) = []"
proof -
  have "snd (batchWriter bsz (evs @ [QueueClosed]) b) = []" for b
    by (induction bsz evs b rule: batchWriter.induct) (auto simp: Let_def split: prod.splits)
  with batchWriter_all [of bsz "[]" evs] assms show ?thesis by simp
qed

theorem batch_writer_conserves_witness:
  "let j = \<lparr>jobDocID = ''a'', jobDocType = ''Log'', jobBlockNumber = 1, jobDocData = []\<rparr>;
       evs = [JobReceived j, JobReceived j, FlushTimer, JobReceived j] in
   concat (fst (batchWriter 2 evs [])) @ snd (batchWriter 2 evs []) = [j, j, j]"
  using batch_writer_conserves [of 2 "[JobReceived j, JobReceived j, FlushTimer, JobReceived j]" for j]
  by (simp add: Let_def)

text \<open>
  Processing a batch counts every document once and moves the most recent block to the
  maximum of its old value and the batch's block numbers; a goroutine is started for its
  attestation exactly when block signatures are not used.
\<close>

theorem process_batch_counts:
  assumes "jobs \<noteq> []" "ppMetrics pp = Some m" "processBatch now jobs pp = (pp', w)"
    and "0 \<le> DocumentsReceived m" "DocumentsReceived m + int (length jobs) < 2 ^ 63"
  shows "(\<exists>m'. ppMetrics pp' = Some m' \<and> DocumentsReceived m' = DocumentsReceived m + int (length jobs)
      \<and> MostRecentBlock m' = Max (insert (MostRecentBlock m) (jobBlockNumber ` set jobs)))
    \<and> w = (if useBlockSignatures pp then None else Some (map jobDocument jobs))"
proof -
  have "ppMetrics pp' = Some (fold (countJob now) jobs m)" "w = (if useBlockSignatures pp then None else Some (map jobDocument jobs))"
    using assms(1-3) by (auto simp: processBatch_def Let_def split: if_splits)
  with countJob_received [OF assms(4,5)] countJob_block [of now jobs m] show ?thesis by simp
qed

theorem process_batch_counts_witness:
  "\<exists>pp' w m'. processBatch 3 [\<lparr>jobDocID = ''a'', jobDocType = ''Log'', jobBlockNumber = 7, jobDocData = []\<rparr>]
       (NewProcessingPipeline (Some (NewHostMetrics 0)) 10 0 0 0 False) = (pp', w)
     \<and> ppMetrics pp' = Some m' \<and> DocumentsReceived m' = 1 \<and> w \<noteq> None"
proof -
  let ?pp = "NewProcessingPipeline (Some (NewHostMetrics 0)) 10 0 0 0 False"
  let ?js = "[\<lparr>jobDocID = ''a'', jobDocType = ''Log'', jobBlockNumber = 7, jobDocData = []\<rparr>]"
  obtain pp' w where p: "processBatch 3 ?js ?pp = (pp', w)" by fastforce
  have h: "ppMetrics ?pp = Some (NewHostMetrics 0)" "0 \<le> DocumentsReceived (NewHostMetrics 0)"
    "DocumentsReceived (NewHostMetrics 0) + int (length ?js) < 2 ^ 63" "\<not> useBlockSignatures ?pp"
    "DocumentsReceived (NewHostMetrics 0) = 0"
    by (simp_all add: NewProcessingPipeline_def NewHostMetrics_def)
  from process_batch_counts [OF _ h(1) p h(2,3)] p h show ?thesis by auto
qed

text \<open>
  Transient conflicts do not lose attestations: if the context stays open, every attempt
  before attempt \<open>j\<close> of at most ten fails with a transaction conflict and attempt \<open>j\<close>
  succeeds, then all documents of the batch are counted as attested and the goroutine is no
  longer pending; and no run makes more than ten attempts.
\<close>

theorem conflicts_retried_until_attested:
  assumes "j < 10" "attempt j = None" "\<forall>i < j. isTransactionConflict (attempt i)"
    and "\<forall>i. \<not> ctxErr i \<and> \<not> ctxDone i" "ppMetrics pp = Some m"
    and "0 \<le> AttestationsCreated m" "AttestationsCreated m + int (length docs) < 2 ^ 63"
  shows "(\<exists>m'. ppMetrics (processAttestationAsync True attempt ctxErr ctxDone docs pp) = Some m'
      \<and> AttestationsCreated m' = AttestationsCreated m + int (length docs))
    \<and> pendingAttestationsCount (processAttestationAsync True attempt ctxErr ctxDone docs pp)
        = wrap64 (pendingAttestationsCount pp - 1)
    \<and> snd (attestLoop attempt ctxErr ctxDone 10 0 []) \<le> 10"
proof -
  have "fst (attestLoop attempt ctxErr ctxDone 10 0 []) = Attested"
    using attestLoop_succeeds [of 0 j 10 attempt ctxErr ctxDone] assms(1-4) by simp
  with countAttested [OF assms(6,7)] assms(5) attestLoop_bound [of attempt ctxErr ctxDone 10 0 "[]"]
  show ?thesis by (simp add: processAttestationAsync_def Let_def)
qed

theorem conflicts_retried_until_attested_witness:
  "\<exists>m'. ppMetrics (processAttestationAsync True (\<lambda>k. if k = 0 then Some ''transaction conflict'' else None)
        (\<lambda>k. False) (\<lambda>k. False) [jobDocument \<lparr>jobDocID = ''a'', jobDocType = ''Log'', jobBlockNumber = 7, jobDocData = []\<rparr>]
        (NewProcessingPipeline (Some (NewHostMetrics 0)) 10 0 0 0 False)) = Some m' \<and> AttestationsCreated m' = 1"
proof -
  let ?pp = "NewProcessingPipeline (Some (NewHostMetrics 0)) 10 0 0 0 False"
  let ?ds = "[jobDocument \<lparr>jobDocID = ''a'', jobDocType = ''Log'', jobBlockNumber = 7, jobDocData = []\<rparr>]"
  have c: "isTransactionConflict (Some ''transaction conflict'')"
    by (simp add: isTransactionConflict_def containsStr_def hasPrefix_def)
  have h: "ppMetrics ?pp = Some (NewHostMetrics 0)" "AttestationsCreated (NewHostMetrics 0) = 0"
    by (simp_all add: NewProcessingPipeline_def NewHostMetrics_def)
  show ?thesis
    using conflicts_retried_until_attested [of 1 "\<lambda>k. if k = 0 then Some ''transaction conflict'' else None"
        "\<lambda>k. False" "\<lambda>k. False" ?pp "NewHostMetrics 0" ?ds] c h by simp
qed

end
