(* ===== verification/Host_Lifecycle.thy ===== *)
theory Host_Lifecycle
  imports Defra_Node Schema_Source Health_Server Hub_Events Accounting Processing_Pipeline
begin

text \<open>
  The life of the host, \<open>pkg/host/host.go\<close>: \<open>StartHostingWithEventSubscription\<close> with the steps it
  takes (\<open>waitForDefraDB\<close>, \<open>applySchema\<close>, \<open>startACPServer\<close>, \<open>buildRecording\<close>, \<open>incrementPort\<close>) and
  \<open>Close\<close>; \<open>cmd/main.go\<close>, and the routes of \<open>pkg/playground/server.go\<close>. A start is the list of what
  it did (\<open>hostEvent\<close>) with the host or the error it returned; the components it starts are modelled
  in their own theories, and what the outside answers is in \<open>hostEnv\<close>.
\<close>

subsection \<open>Small helpers\<close>

definition parseTimeoutOrDefault :: "(string \<Rightarrow> int option) \<Rightarrow> string \<Rightarrow> int \<Rightarrow> int" where
  "parseTimeoutOrDefault parseDuration timeoutStr defaultDuration =
     (if timeoutStr = [] then defaultDuration
      else (case parseDuration timeoutStr of None \<Rightarrow> defaultDuration | Some d \<Rightarrow> d))"

definition maxInt :: "int \<Rightarrow> int \<Rightarrow> int" where
  "maxInt a b = (if a > b then a else b)"

definition withScheme :: "string \<Rightarrow> string" where
  "withScheme apiURL =
     (if \<not> hasPrefix apiURL ''http://'' \<and> \<not> hasPrefix apiURL ''https://'' then ''http://'' @ apiURL else apiURL)"

text \<open>\<open>strconv.Atoi\<close> and \<open>net.JoinHostPort\<close>; \<open>urlHost\<close> is the host of \<open>url.Parse\<close>.\<close>

definition atoi :: "string \<Rightarrow> int option" where
  "atoi s = (case setString10 s of None \<Rightarrow> None | Some i \<Rightarrow> if int64_range i then Some i else None)"

definition joinHostPort :: "string \<Rightarrow> string \<Rightarrow> string" where
  "joinHostPort host port =
     (if CHR '':'' \<in> set host then ''['' @ host @ '']:'' @ port else host @ '':'' @ port)"

datatype port_error = InvalidURL | InvalidHostPort | InvalidPort

definition incrementPort :: "(string \<Rightarrow> string option) \<Rightarrow> string \<Rightarrow> port_error + string" where
  "incrementPort urlHost apiURL =
     (case urlHost (withScheme apiURL) of
        None \<Rightarrow> Inl InvalidURL
      | Some h \<Rightarrow>
          (case splitHostPort h of
             None \<Rightarrow> Inl InvalidHostPort
           | Some (host, portStr) \<Rightarrow>
               (case atoi portStr of
                  None \<Rightarrow> Inl InvalidPort
                | Some port \<Rightarrow> Inr (joinHostPort host (showInt (wrap64 (port + 1)))))))"

fun openBrowser :: "string \<Rightarrow> string \<Rightarrow> (string \<times> string list) option" where
  "openBrowser os url =
     (if os = ''windows'' then Some (''cmd'', [''/c'', ''start'', url])
      else if os = ''darwin'' then Some (''open'', [url])
      else if os = ''linux'' then Some (''xdg-open'', [url])
      else None)"

text \<open>The playground proxies the API and serves its files otherwise.\<close>

datatype playgroundRoute = ProxyToDefra | ServeStatic

definition playgroundRouteOf :: "string \<Rightarrow> playgroundRoute" where
  "playgroundRouteOf path =
     (if hasPrefix path ''/api/'' \<or> path = ''/health-check'' \<or> path = ''/openapi.json'' then ProxyToDefra else ServeStatic)"

definition playgroundNewServer :: "(string \<Rightarrow> 'u option) \<Rightarrow> bool \<Rightarrow> string \<Rightarrow> ('u \<times> (string \<Rightarrow> playgroundRoute)) option" where
  "playgroundNewServer parse hasDist defraAPIURL =
     (case parse (withScheme defraAPIURL) of
        None \<Rightarrow> None
      | Some u \<Rightarrow> if hasDist then Some (u, playgroundRouteOf) else None)"

subsection \<open>Waiting for the database\<close>

text \<open>The attempts made and whether one succeeded; \<open>answer i\<close> is that of the attempt \<open>i\<close>.\<close>

fun waitAttempts :: "(nat \<Rightarrow> bool) \<Rightarrow> nat \<Rightarrow> nat \<Rightarrow> bool \<times> nat" where
  "waitAttempts answer attempt 0 = (False, attempt - 1)"
| "waitAttempts answer attempt (Suc left) =
     (if answer attempt then (True, attempt) else waitAttempts answer (Suc attempt) left)"

definition waitForDefraDB :: "(nat \<Rightarrow> bool) \<Rightarrow> bool \<times> nat" where
  "waitForDefraDB answer = waitAttempts answer 1 30"

text \<open>The error of \<open>applySchema\<close> and the schemas that were added.\<close>

abbreviation configSchema :: string where
  "configSchema \<equiv> ''type Config__LastProcessedPage { page: Int, pageSize: Int }''"

definition applySchema :: "(string \<Rightarrow> string option) \<Rightarrow> string \<Rightarrow> string option \<times> string list" where
  "applySchema addCollection schemaStr =
     (case addCollection schemaStr of
        None \<Rightarrow> (None, [schemaStr])
      | Some e \<Rightarrow> if containsStr e alreadyExists then (None, [schemaStr, configSchema]) else (Some e, [schemaStr]))"

subsection \<open>The billing server\<close>

record 'a Recording =
  rgRecorder :: "'a Recorder"
  rgAttesters :: "observedAttesters option"

text \<open>\<open>nodeKey\<close> is the answer of \<open>NodeECDSAKey\<close>, reduced to the address it signs for.\<close>

definition buildRecording :: "Config \<Rightarrow> key_error + 'a \<Rightarrow> observedAttesters option \<Rightarrow> key_error + 'a Recording option" where
  "buildRecording acpCfg nodeKey attesters =
     (if ASBaseURL acpCfg = [] then Inr None
      else (case nodeKey of
          Inl e \<Rightarrow> Inl e
        | Inr addr \<Rightarrow>
            Inr (Some \<lparr>rgRecorder = \<lparr>recClient = NewClient (ASBaseURL acpCfg), hostAddress = addr, recChainID = ChainID acpCfg\<rparr>,
                       rgAttesters = attesters\<rparr>)))"

record acpEnv =
  aeNewHandler :: bool
  aeNewServer :: "string \<Rightarrow> bool"
  aeSetListener :: bool
  aeAddress :: "string \<Rightarrow> string"
  aeNewClient :: bool
  aeHealthCheck :: bool

datatype acpCall = ACPNewServer string | ACPSetListener | ACPServe | ACPHealthCheck | ACPShutdown

datatype acp_error =
    ErrHubBaseURLMissing | ErrRecording key_error | ErrDefraHandler | ErrParseDefraURL | ErrDefraServer | ErrListener
  | ErrHealthClient | ErrHealthCheck

definition bindHost :: "string \<Rightarrow> string" where
  "bindHost host =
     (if host = [] \<or> host = ''localhost'' \<or> host = ''127.0.0.1'' \<or> host = ''::1'' then ''0.0.0.0'' else host)"

definition startACPServer ::
  "acpEnv \<Rightarrow> Config \<Rightarrow> string \<Rightarrow> key_error + 'a \<Rightarrow> observedAttesters option \<Rightarrow> string \<Rightarrow>
   (acp_error + string \<times> 'a Recording option) \<times> acpCall list" where
  "startACPServer A acpCfg hubBaseURL nodeKey attesters defraURL =
     (if hubBaseURL = [] then (Inl ErrHubBaseURLMissing, [])
      else (case buildRecording acpCfg nodeKey attesters of
          Inl e \<Rightarrow> (Inl (ErrRecording e), [])
        | Inr recording \<Rightarrow>
            if \<not> aeNewHandler A then (Inl ErrDefraHandler, [])
            else (case splitHostPort defraURL of
                None \<Rightarrow> (Inl ErrParseDefraURL, [])
              | Some (host, port) \<Rightarrow>
                  (let listenAddr = joinHostPort (bindHost host) port in
                   if \<not> aeNewServer A listenAddr then (Inl ErrDefraServer, [ACPNewServer listenAddr])
                   else if \<not> aeSetListener A then (Inl ErrListener, [ACPNewServer listenAddr, ACPSetListener])
                   else if \<not> aeNewClient A
                   then (Inl ErrHealthClient, [ACPNewServer listenAddr, ACPSetListener, ACPServe, ACPShutdown])
                   else if \<not> aeHealthCheck A
                   then (Inl ErrHealthCheck, [ACPNewServer listenAddr, ACPSetListener, ACPServe, ACPHealthCheck, ACPShutdown])
                   else (Inr (aeAddress A listenAddr, recording),
                         [ACPNewServer listenAddr, ACPSetListener, ACPServe, ACPHealthCheck])))))"

subsection \<open>Starting the host\<close>

datatype hostEvent =
    EvLogger "logCore list" | EvStartDefra bool | EvWait nat | EvApplySchema "string list" | EvBootstrap "BlockRange list"
  | EvAttesters int | EvACP "acpCall list" | EvPlayground string | EvFetchViews string | EvLoadViews "View list"
  | EvAddPeer string | EvStartNetwork | EvPipeline ProcessingPipeline | EvSubscribe string | EvAttestations
  | EvVerifiers | EvHealthServer int string string | EvPruner prunerConfig | EvOpenBrowser string string

datatype host_error =
    HostACPConfig config_error | HostStartDefra start_error | ErrDefraDBNotReady | HostApplySchema string
  | HostACPServer acp_error | HostPlayground | HostPlaygroundPort port_error | HostSubscription

text \<open>
  What the outside answers: the environment, the attempts of the database, its schemas, the billing
  server, the playground of the build, views and subscription of the hub, and the discovery of peers.
  \<open>heNodeAPIURL\<close> is the address of the node's own server when it is not disabled.
\<close>

record ('a, 'u) hostEnv =
  heGetenv :: "string \<Rightarrow> string"
  heParseDuration :: "string \<Rightarrow> int option"
  heNow :: int
  heAnswer :: "nat \<Rightarrow> bool"
  heAddCollection :: "string \<Rightarrow> string option"
  heACP :: acpEnv
  heNodeKey :: "key_error + 'a"
  heNodeAPIURL :: string
  hePlaygroundEnabled :: bool
  heParseURL :: "string \<Rightarrow> 'u option"
  heURLHost :: "string \<Rightarrow> string option"
  heFetchViews :: "View list \<times> bool"
  heResolvePeers :: "string list \<Rightarrow> string list"
  heSubscribed :: bool

record 'a Host =
  hoNetwork :: NetworkHandler
  hoRecording :: "'a Recording option"
  hoHasACPServer :: bool
  hoHasPlayground :: bool
  hoAttesters :: "observedAttesters option"
  hoPipeline :: ProcessingPipeline
  hoHasPruner :: bool
  hoHealthPort :: int
  hoHasNode :: bool

text \<open>An error or a value, with what was done so far.\<close>

definition andThen :: "('e + 'a) \<times> 'v list \<Rightarrow> ('a \<Rightarrow> ('e + 'b) \<times> 'v list) \<Rightarrow> ('e + 'b) \<times> 'v list" where
  "andThen m f = (case m of (Inl e, vs) \<Rightarrow> (Inl e, vs) | (Inr a, vs) \<Rightarrow> (case f a of (r, us) \<Rightarrow> (r, vs @ us)))"

text \<open>The database is ready and has its schema; snapshots are imported if they are configured.\<close>

definition prepareDatabase :: "('a, 'u) hostEnv \<Rightarrow> hostConfig \<Rightarrow> string \<Rightarrow> (host_error + unit) \<times> hostEvent list" where
  "prepareDatabase H hc resolvedSchema =
     (case waitForDefraDB (heAnswer H) of
        (False, n) \<Rightarrow> (Inl ErrDefraDBNotReady, [EvWait n])
      | (True, n) \<Rightarrow>
          (case applySchema (heAddCollection H) resolvedSchema of
             (Some e, added) \<Rightarrow> (Inl (HostApplySchema e), [EvWait n, EvApplySchema added])
           | (None, added) \<Rightarrow>
               (let snap = hostSnapshot (hcHost hc) in
                (Inr (), [EvWait n, EvApplySchema added]
                   @ (if snapEnabled snap \<and> IndexerURL snap \<noteq> [] \<and> HistoricalRanges snap \<noteq> []
                      then [EvBootstrap (HistoricalRanges snap)] else [])))))"

definition attestersFor :: "Config \<Rightarrow> observedAttesters option" where
  "attestersFor acpCfg =
     (if Enabled acpCfg \<and> ASBaseURL acpCfg \<noteq> []
      then Some (newObservedAttesters (if AttesterWindow acpCfg \<le> 0 then 5 * 60 * 10 ^ 9 else AttesterWindow acpCfg))
      else None)"

text \<open>The billing server, if the gate is enabled: the address of the API, and the recording.\<close>

definition openAPI :: "('a, 'u) hostEnv \<Rightarrow> Config \<Rightarrow> hostConfig \<Rightarrow> (host_error + string \<times> 'a Recording option) \<times> hostEvent list" where
  "openAPI H acpCfg hc =
     (let attesters = attestersFor acpCfg;
          seen = (case attesters of None \<Rightarrow> [] | Some a \<Rightarrow> [EvAttesters (window a)]) in
      if \<not> Enabled acpCfg then (Inr (heNodeAPIURL H, None), seen)
      else (case startACPServer (heACP H) acpCfg (HubBaseURL (hcShinzo hc)) (heNodeKey H) attesters (dbURL (hcDefraDB hc)) of
          (Inl e, calls) \<Rightarrow> (Inl (HostACPServer e), seen @ [EvACP calls])
        | (Inr (addr, recording), calls) \<Rightarrow> (Inr (addr, recording), seen @ [EvACP calls])))"

definition startPlayground :: "('a, 'u) hostEnv \<Rightarrow> string \<Rightarrow> (host_error + bool) \<times> hostEvent list" where
  "startPlayground H apiURL =
     (if \<not> hePlaygroundEnabled H \<or> apiURL = [] then (Inr False, [])
      else (case playgroundNewServer (heParseURL H) True apiURL of
          None \<Rightarrow> (Inl HostPlayground, [])
        | Some _ \<Rightarrow>
            (case incrementPort (heURLHost H) apiURL of
               Inl e \<Rightarrow> (Inl (HostPlaygroundPort e), [])
             | Inr addr \<Rightarrow> (Inr True, [EvPlayground addr]))))"

text \<open>The views of the hub, then the peers and the network.\<close>

definition loadViews :: "('a, 'u) hostEnv \<Rightarrow> hostConfig \<Rightarrow> hostEvent list" where
  "loadViews H hc =
     (let urls = deriveShinzoHubURLs (HubBaseURL (hcShinzo hc)) in
      if hubRpc urls = [] then [EvLoadViews []]
      else [EvFetchViews (hubLcd urls), EvLoadViews (fst (heFetchViews H))])"

definition joinNetwork :: "('a, 'u) hostEnv \<Rightarrow> hostConfig \<Rightarrow> NetworkHandler \<Rightarrow> NetworkHandler \<times> hostEvent list" where
  "joinNetwork H hc nh =
     (let found = heResolvePeers H (p2pBootstrapPeers (dbP2P (hcDefraDB hc)));
          nh1 = fold (\<lambda>p n. snd (AddPeer p n)) found nh in
      (StartNetwork (heNow H) (map fst (peers nh1)) nh1, map EvAddPeer found @ [EvStartNetwork]))"

definition pipelineFor :: "('a, 'u) hostEnv \<Rightarrow> ShinzoConfig \<Rightarrow> ProcessingPipeline" where
  "pipelineFor H sc =
     NewProcessingPipeline (Some (NewHostMetrics (heNow H))) (if CacheQueueSize sc \<le> 0 then 50000 else CacheQueueSize sc)
       (BatchWriterCount sc) (BatchSize sc) (BatchFlushInterval sc) (UseBlockSignatures sc)"

definition startWork :: "('a, 'u) hostEnv \<Rightarrow> hostConfig \<Rightarrow> string \<Rightarrow> (host_error + unit) \<times> hostEvent list" where
  "startWork H hc apiURL =
     (let urls = deriveShinzoHubURLs (HubBaseURL (hcShinzo hc));
          port = (if HealthServerPort (hcHost hc) = 0 then 8080 else HealthServerPort (hcHost hc));
          healthURL = (if dbURL (hcDefraDB hc) \<noteq> [] then dbURL (hcDefraDB hc) else apiURL);
          sub = (if hubWs urls = [] then [] else [EvSubscribe (hubWs urls)]);
          run = [EvPipeline (pipelineFor H (hcShinzo hc))] in
      if hubWs urls \<noteq> [] \<and> \<not> heSubscribed H then (Inl HostSubscription, run @ sub)
      else (Inr (), run @ sub @ [EvAttestations, EvVerifiers, EvHealthServer port healthURL (hubLcd urls)]
              @ (if cfgEnabled (hcPruner hc) then [EvPruner (SetDefaults (hcPruner hc))] else [])
              @ (if OpenBrowserOnStart (hcHost hc)
                 then [EvOpenBrowser (''http://localhost:'' @ showInt port @ ''/metrics'') (''http://localhost:'' @ showInt port @ ''/health'')]
                 else [])))"

definition afterDefra :: "('a, 'u) hostEnv \<Rightarrow> Config \<Rightarrow> hostConfig \<Rightarrow> string \<Rightarrow> NetworkHandler \<Rightarrow> (host_error + 'a Host) \<times> hostEvent list" where
  "afterDefra H acpCfg hc resolvedSchema nh =
     andThen (prepareDatabase H hc resolvedSchema) (\<lambda>_.
     andThen (openAPI H acpCfg hc) (\<lambda>(apiURL, recording).
     andThen (startPlayground H apiURL) (\<lambda>hasPlayground.
     (case joinNetwork H hc nh of (nh1, joined) \<Rightarrow>
     andThen (Inr (), loadViews H hc @ joined) (\<lambda>_.
     andThen (startWork H hc apiURL) (\<lambda>_.
       (Inr \<lparr>hoNetwork = nh1, hoRecording = recording, hoHasACPServer = Enabled acpCfg, hoHasPlayground = hasPlayground,
              hoAttesters = attestersFor acpCfg, hoPipeline = pipelineFor H (hcShinzo hc), hoHasPruner = cfgEnabled (hcPruner hc),
              hoHealthPort = (if HealthServerPort (hcHost hc) = 0 then 8080 else HealthServerPort (hcHost hc)), hoHasNode = True\<rparr>, [])))))))"

text \<open>The options the host adds: the lens runtime, and no server of the node's own under the gate.\<close>

definition hostNodeOpts :: "bool \<Rightarrow> (('priv, 'pub) nodeOptions \<Rightarrow> ('priv, 'pub) nodeOptions) list" where
  "hostNodeOpts gated = [\<lambda>o'. o'\<lparr>noLensRuntime := ''wazero'', noDisableAPI := gated \<or> noDisableAPI o'\<rparr>]"

definition StartHosting ::
  "'w keyDisk \<Rightarrow> ('priv, 'pub) keyLib \<Rightarrow> ('lp, 'ek, 'epk, 'upk) edLib \<Rightarrow> logFS \<Rightarrow> string option \<Rightarrow> ('priv, 'pub) nodeEnv \<Rightarrow>
   string \<Rightarrow> 'v urlTools \<Rightarrow> schemaNet \<Rightarrow> ('a, 'u) hostEnv \<Rightarrow> hostConfig \<Rightarrow> 'w \<Rightarrow>
   ((host_error + 'a Host) \<times> hostEvent list) \<times> ('priv, 'pub) nodeCall list \<times> 'w" where
  "StartHosting D L E F lan N embedded U S H hc w =
     (let log = EvLogger (loggerInit F (logDevelopment (hcLogger hc)) ''./logs'') in
      case LoadConfigFromEnv (heParseDuration H) (heGetenv H) of
        (Some e, acpCfg) \<Rightarrow> ((Inl (HostACPConfig e), [log]), [], w)
      | (None, acpCfg) \<Rightarrow>
          (let resolvedSchema = resolveSchema embedded U S hc in
           case StartDefraInstance D L E F lan N (heNow H) (ToInternalConfig (Some hc)) (SchemaApplierFromProvidedSchema resolvedSchema)
                  (hostNodeOpts (Enabled acpCfg)) (NewEventReplicationFilter (EventFilter (hcShinzo hc)) \<noteq> None) AllCollections w of
             (Inl e, calls, w1) \<Rightarrow> ((Inl (HostStartDefra e), [log, EvStartDefra (Enabled acpCfg)]), calls, w1)
           | (Inr nh, calls, w1) \<Rightarrow>
               ((case afterDefra H acpCfg hc resolvedSchema nh of (r, evs) \<Rightarrow> (r, [log, EvStartDefra (Enabled acpCfg)] @ evs)), calls, w1)))"

text \<open>The configuration of a host that is given none.\<close>

definition DefaultHostConfig :: hostConfig where
  "DefaultHostConfig = \<lparr>
     hcDefraDB = \<lparr>dbURL = ''localhost:9181'', dbKeyringSecret = ''test-keyring-secret-for-testing'',
       dbP2P = \<lparr>p2pEnabled = True, p2pBootstrapPeers = [], p2pListenAddr = ''/ip4/0.0.0.0/tcp/9171'', p2pMaxRetries = 5,
         p2pRetryBaseDelayMs = 1000, p2pReconnectIntervalMs = 60000, p2pEnableAutoReconnect = True, p2pPeerDiscoveryTimeoutMs = 0\<rparr>,
       dbStore = \<lparr>storePath = ''/tmp/defra-test-default'', storeBlockCacheMB = 0, storeMemTableMB = 0, storeIndexCacheMB = 0,
         storeNumCompactors = 0, storeNumLevelZeroTables = 0, storeNumLevelZeroTablesStall = 0, storeValueLogFileSizeMB = 0\<rparr>\<rparr>,
     hcShinzo = \<lparr>MinimumAttestations = 1, HubBaseURL = [], StartHeight = 0, P2PEnabled = False, ViewInactivityTimeout = [],
       ViewCleanupInterval = [], ViewWorkerCount = 0, ViewQueueSize = 0, CacheQueueSize = 0, BatchWriterCount = 0, BatchSize = 0,
       BatchFlushInterval = 0, MaxConcurrentVerifications = 0, UseBlockSignatures = False, DocWorkerCount = 0, DocQueueSize = 0,
       EventFilter = \<lparr>efEnabled = False, Mode = [], CascadeFilters = False, BlockRange = None, Groups = []\<rparr>\<rparr>,
     hcSchema = \<lparr>IndexerSchemaEndpoint = DefaultIndexerSchemaEndpoint, HTTPClientTimeoutSecs = DefaultSchemaHTTPClientTimeout, AuthToken = []\<rparr>,
     hcLogger = \<lparr>logDevelopment = True\<rparr>,
     hcHost = \<lparr>LensRegistryPath = ''./.defra/lens'', HealthServerPort = 0, OpenBrowserOnStart = False,
       hostSnapshot = \<lparr>snapEnabled = False, IndexerURL = [], HistoricalRanges = []\<rparr>\<rparr>,
     hcPruner = \<lparr>cfgEnabled = False, MaxBlocks = 0, DocsPerBlock = 0, PruneThreshold = 0, IntervalSeconds = 0, PruneHistory = False\<rparr>\<rparr>"

definition configOrDefault :: "hostConfig option \<Rightarrow> hostConfig" where
  "configOrDefault hc = (case hc of None \<Rightarrow> DefaultHostConfig | Some c \<Rightarrow> c)"

subsection \<open>Closing and the entry point\<close>

datatype closeCall =
    WebhookCleanup | ProcessingCancel | PrunerStop | PlaygroundShutdown | ACPServerShutdown | DrainRecords | PipelineStop | NodeClose

definition CloseHost :: "'a Host \<Rightarrow> closeCall list \<times> 'a Host" where
  "CloseHost h =
     ([WebhookCleanup, ProcessingCancel]
      @ (if hoHasPruner h then [PrunerStop] else [])
      @ (if hoHasPlayground h then [PlaygroundShutdown] else [])
      @ (if hoHasACPServer h then [ACPServerShutdown, DrainRecords] else [])
      @ [PipelineStop]
      @ (if hoHasNode h then [NodeClose] else []),
      h\<lparr>hoHasPruner := False\<rparr>)"

datatype main_error = LoadFailed load_error | StartFailed host_error

definition hostMain ::
  "(string \<Rightarrow> bool) \<Rightarrow> (string \<Rightarrow> 'raw option) \<Rightarrow> ('raw \<Rightarrow> hostConfig option) \<Rightarrow> (string \<Rightarrow> string) \<Rightarrow>
   (hostConfig \<Rightarrow> host_error + 'h) \<Rightarrow> main_error + 'h" where
  "hostMain exists readFile unmarshal getenv start =
     (case LoadConfig readFile unmarshal getenv (findConfigFile exists) of
        Inl e \<Rightarrow> Inl (LoadFailed e)
      | Inr hc \<Rightarrow> (case start hc of Inl e \<Rightarrow> Inl (StartFailed e) | Inr h \<Rightarrow> Inr h))"

subsection \<open>Lemmas\<close>

lemma andThen_Inr:
  "andThen m f = (Inr b, vs) \<longleftrightarrow> (\<exists>a vs1 vs2. m = (Inr a, vs1) \<and> f a = (Inr b, vs2) \<and> vs = vs1 @ vs2)"
  by (auto simp: andThen_def split: prod.splits sum.splits)

lemma waitAttempts_spec:
  "1 \<le> k \<Longrightarrow> waitAttempts answer k left =
     (case find answer [k ..< k + left] of Some i \<Rightarrow> (True, i) | None \<Rightarrow> (False, k + left - 1))"
proof (induction left arbitrary: k)
  case (Suc left)
  have "[k ..< k + Suc left] = k # [Suc k ..< Suc k + left]" by (simp add: upt_conv_Cons del: upt_Suc)
  then show ?case using Suc.IH [of "Suc k"] by (simp del: upt_Suc split: option.split)
qed simp

lemma find_first_answer:
  "find answer [1 ..< 31] = Some i \<longleftrightarrow> answer i \<and> 1 \<le> i \<and> i \<le> 30 \<and> (\<forall>j. 1 \<le> j \<longrightarrow> j < i \<longrightarrow> \<not> answer j)"
proof -
  have "find answer [1 ..< 31] = Some i \<longleftrightarrow> (\<exists>n < 30. answer (1 + n) \<and> i = 1 + n \<and> (\<forall>m < n. \<not> answer (1 + m)))"
    by (auto simp: find_Some_iff)
  also have "\<dots> \<longleftrightarrow> answer i \<and> 1 \<le> i \<and> i \<le> 30 \<and> (\<forall>j. 1 \<le> j \<longrightarrow> j < i \<longrightarrow> \<not> answer j)"
  proof safe
    fix n j assume "\<forall>m < n. \<not> answer (1 + m)" "1 \<le> j" "j < 1 + n" "answer j"
    then show False by (metis Suc_pred' add.commute le_add_diff_inverse less_diff_conv2 nat_add_left_cancel_less)
  next
    assume "answer i" "1 \<le> i" "i \<le> 30" "\<forall>j. 1 \<le> j \<longrightarrow> j < i \<longrightarrow> \<not> answer j"
    then show "\<exists>n < 30. answer (1 + n) \<and> i = 1 + n \<and> (\<forall>m < n. \<not> answer (1 + m))"
      by (intro exI [of _ "i - 1"]) auto
  qed auto
  finally show ?thesis .
qed

lemma startACP_ok:
  assumes "startACPServer A cf hub key att url = (Inr r, calls)"
  shows "hub \<noteq> [] \<and> ACPHealthCheck \<in> set calls \<and> ACPShutdown \<notin> set calls"
  using assms by (auto simp: startACPServer_def Let_def split: if_splits sum.splits option.splits prod.splits)

lemma startACP_failed:
  assumes "startACPServer A cf hub key att url = (Inl e, calls)"
  shows "ACPServe \<in> set calls \<longleftrightarrow> ACPShutdown \<in> set calls"
  using assms by (auto simp: startACPServer_def Let_def split: if_splits sum.splits option.splits prod.splits)

definition isNetworkEvent :: "hostEvent \<Rightarrow> bool" where
  "isNetworkEvent ev \<longleftrightarrow> ev = EvStartNetwork \<or> (\<exists>p. ev = EvAddPeer p)"

lemma prepareDatabase_quiet: "prepareDatabase H hc sdl = (r, evs) \<Longrightarrow> ev \<in> set evs \<Longrightarrow> \<not> isNetworkEvent ev"
  by (auto simp: prepareDatabase_def isNetworkEvent_def Let_def split: prod.splits bool.splits option.splits if_splits)

lemma openAPI_gated:
  assumes "openAPI H cf hc = (Inr r, evs)" "Enabled cf"
  obtains seen calls where "evs = seen @ [EvACP calls]" "HubBaseURL (hcShinzo hc) \<noteq> []" "ACPHealthCheck \<in> set calls"
    "ACPShutdown \<notin> set calls" "\<forall>ev \<in> set seen. \<not> isNetworkEvent ev"
proof -
  obtain r' calls where c: "startACPServer (heACP H) cf (HubBaseURL (hcShinzo hc)) (heNodeKey H) (attestersFor cf) (dbURL (hcDefraDB hc)) = (Inr r', calls)"
    "evs = (case attestersFor cf of None \<Rightarrow> [] | Some a \<Rightarrow> [EvAttesters (window a)]) @ [EvACP calls]"
    using assms by (auto simp: openAPI_def Let_def split: sum.splits prod.splits)
  from startACP_ok [OF c(1)] show thesis
    by (intro that [OF c(2)]) (auto simp: isNetworkEvent_def split: option.splits)
qed

lemma afterDefra_stages:
  assumes "afterDefra H cf hc sdl nh = (Inr host, evs)"
  obtains vs1 api rec vs2 pl vs3 vs5 where "prepareDatabase H hc sdl = (Inr (), vs1)" "openAPI H cf hc = (Inr (api, rec), vs2)"
    "startPlayground H api = (Inr pl, vs3)" "startWork H hc api = (Inr (), vs5)"
    "evs = vs1 @ vs2 @ vs3 @ loadViews H hc @ snd (joinNetwork H hc nh) @ vs5"
    "hoHasACPServer host = Enabled cf" "hoNetwork host = fst (joinNetwork H hc nh)" "hoHasNode host"
    "hoHasPruner host = cfgEnabled (hcPruner hc)"
proof (cases "joinNetwork H hc nh")
  case (Pair nh1 joined)
  with assms show thesis by (auto simp: afterDefra_def andThen_Inr intro!: that)
qed

lemma StartHosting_ok:
  assumes "StartHosting D L E F lan N embedded U S H hc w = ((Inr host, evs), calls, w')"
    "LoadConfigFromEnv (heParseDuration H) (heGetenv H) = (err, cf)"
  obtains nh evs' where "err = None"
    "StartDefraInstance D L E F lan N (heNow H) (ToInternalConfig (Some hc)) (SchemaApplierFromProvidedSchema (resolveSchema embedded U S hc))
       (hostNodeOpts (Enabled cf)) (NewEventReplicationFilter (EventFilter (hcShinzo hc)) \<noteq> None) AllCollections w = (Inr nh, calls, w')"
    "afterDefra H cf hc (resolveSchema embedded U S hc) nh = (Inr host, evs')"
    "evs = [EvLogger (loggerInit F (logDevelopment (hcLogger hc)) ''./logs''), EvStartDefra (Enabled cf)] @ evs'"
  using assms by (auto simp: StartHosting_def Let_def split: option.splits prod.splits sum.splits)

lemma gated_node_has_no_api:
  assumes "StartDefraInstance D L E F lan N now ic applier (hostNodeOpts True) hasFilter cs w = (r, calls, w')" "CallNew o' \<in> set calls"
  shows "noDisableAPI o'"
  using assms by (auto simp: StartDefraInstance_def finishStart_def hostNodeOpts_def Let_def
      split: option.splits prod.splits sum.splits if_splits)

subsection \<open>Properties\<close>

text \<open>
  Waiting for the database ends: it succeeds exactly when one of the attempts 1 to 30 is answered,
  at the first such attempt, and gives up after the thirtieth otherwise.
\<close>

theorem wait_for_defra_exact:
  "(fst (waitForDefraDB answer) \<longleftrightarrow> (\<exists>i. 1 \<le> i \<and> i \<le> 30 \<and> answer i))
   \<and> snd (waitForDefraDB answer) = (if fst (waitForDefraDB answer) then LEAST i. 1 \<le> i \<and> answer i else 30)"
proof (cases "find answer [1 ..< 31]")
  case None
  then have "\<forall>i. 1 \<le> i \<and> i \<le> 30 \<longrightarrow> \<not> answer i" by (auto simp: find_None_iff)
  moreover have "waitForDefraDB answer = (False, 30)" using None by (simp add: waitForDefraDB_def waitAttempts_spec)
  ultimately show ?thesis by auto
next
  case (Some i)
  from Some [unfolded find_first_answer]
  have i: "answer i" "1 \<le> i" "i \<le> 30" "\<And>j. 1 \<le> j \<Longrightarrow> j < i \<Longrightarrow> \<not> answer j" by blast+
  have "waitForDefraDB answer = (True, i)" using Some by (simp add: waitForDefraDB_def waitAttempts_spec)
  moreover have "(LEAST i. 1 \<le> i \<and> answer i) = i" using i by (intro Least_equality) (auto simp: not_less [symmetric])
  ultimately show ?thesis using i by auto
qed

text \<open>A host whose gate is misconfigured starts nothing.\<close>

lemma misconfigured_gate_starts_nothing:
  assumes "LoadConfigFromEnv (heParseDuration H) (heGetenv H) = (Some e, cf)"
  shows "StartHosting D L E F lan N embedded U S H hc w
    = ((Inl (HostACPConfig e), [EvLogger (loggerInit F (logDevelopment (hcLogger hc)) ''./logs'')]), [], w)"
  using assms by (simp add: StartHosting_def Let_def)


text \<open>
  A billing server that was started is shut down again when the start of it fails, and only then.
\<close>

theorem acp_server_not_leaked:
  assumes "startACPServer A cf hub key att url = (res, calls)" "ACPServe \<in> set calls"
  shows "ACPShutdown \<in> set calls \<longleftrightarrow> (\<exists>e. res = Inl e)"
proof (cases res)
  case (Inl e)
  then show ?thesis using startACP_failed assms by blast
next
  case (Inr r)
  then show ?thesis using startACP_ok assms by blast
qed

text \<open>The order of shutting down.\<close>

fun closeRank :: "closeCall \<Rightarrow> nat" where
  "closeRank WebhookCleanup = 0"
| "closeRank ProcessingCancel = 1"
| "closeRank PrunerStop = 2"
| "closeRank PlaygroundShutdown = 3"
| "closeRank ACPServerShutdown = 4"
| "closeRank DrainRecords = 5"
| "closeRank PipelineStop = 6"
| "closeRank NodeClose = 7"


text \<open>Whether the network is enabled in the configuration makes no difference to the start.\<close>

lemma network_always_started:
  assumes "StartHosting D L E F lan N embedded U S H hc w = ((Inr host, evs), calls, w')"
  shows "EvStartNetwork \<in> set evs"
proof -
  obtain err cf where c: "LoadConfigFromEnv (heParseDuration H) (heGetenv H) = (err, cf)" by fastforce
  obtain nh evs' where a: "afterDefra H cf hc (resolveSchema embedded U S hc) nh = (Inr host, evs')"
    and e: "evs = [EvLogger (loggerInit F (logDevelopment (hcLogger hc)) ''./logs''), EvStartDefra (Enabled cf)] @ evs'"
    by (rule StartHosting_ok [OF assms(1) c])
  obtain vs1 vs2 vs3 vs5 where "evs' = vs1 @ vs2 @ vs3 @ loadViews H hc @ snd (joinNetwork H hc nh) @ vs5"
    by (rule afterDefra_stages [OF a])
  then show ?thesis using e by (simp add: joinNetwork_def Let_def)
qed

lemma disabled_network_active:
  assumes "\<not> p2pEnabled (dbP2P (hcDefraDB hc))" "heResolvePeers H (p2pBootstrapPeers (dbP2P (hcDefraDB hc))) = []"
    "ToInternalConfig (Some hc) = Some c"
  shows "\<not> networkActive (startHandler now c)" "networkActive (fst (joinNetwork H hc (startHandler now c)))"
  using assms by (auto simp: ToInternalConfig_def startHandler_def joinNetwork_def NewNetworkHandler_def StartNetwork_def Let_def)

subsection \<open>Witnesses\<close>

definition demoGatedCfg :: hostConfig where
  "demoGatedCfg = (demoHostCfg ''/data'')\<lparr>hcShinzo := (hcShinzo (demoHostCfg ''/data''))\<lparr>HubBaseURL := ''hub''\<rparr>\<rparr>"

definition demoHostEnv :: "(string, unit) hostEnv" where
  "demoHostEnv = \<lparr>heGetenv = demoGetenv, heParseDuration = (\<lambda>_. None), heNow = 0, heAnswer = (\<lambda>_. True), heAddCollection = (\<lambda>_. None),
     heACP = \<lparr>aeNewHandler = True, aeNewServer = (\<lambda>_. True), aeSetListener = True, aeAddress = (\<lambda>a. a), aeNewClient = True, aeHealthCheck = True\<rparr>,
     heNodeKey = Inr ''0xab'', heNodeAPIURL = [], hePlaygroundEnabled = False, heParseURL = (\<lambda>_. None), heURLHost = (\<lambda>_. None),
     heFetchViews = ([], True), heResolvePeers = (\<lambda>ps. ps), heSubscribed = True\<rparr>"

definition demoURLTools :: "unit urlTools" where
  "demoURLTools = \<lparr>utParse = (\<lambda>_. None), utScheme = (\<lambda>_. []), utHost = (\<lambda>_. []), utJoinPath = (\<lambda>u _. u), utString = (\<lambda>_. [])\<rparr>"

definition demoSchemaNet :: schemaNet where
  "demoSchemaNet = \<lparr>snBadURL = (\<lambda>_. False), snTransport = (\<lambda>_ _. None), snDecode = (\<lambda>_. None)\<rparr>"

definition demoLogFS :: logFS where
  "demoLogFS = \<lparr>lfMkdirAll = (\<lambda>_. False), lfOpenFile = (\<lambda>_. False)\<rparr>"

definition demoStart where
  "demoStart = StartHosting demoDisk demoKeyLib demoEdLib demoLogFS (Some ''10.0.0.5'') (demoNodeEnv True) ''schema''
     demoURLTools demoSchemaNet demoHostEnv demoGatedCfg (\<lambda>_. None)"

lemma demo_acp:
  obtains cf where "LoadConfigFromEnv (heParseDuration demoHostEnv) (heGetenv demoHostEnv) = (None, cf)" "Enabled cf" "ASBaseURL cf = []"
proof -
  have n: "parseUint64 ''9001'' = Some 9001" "parseUint64 ''100'' = Some 100" "setString10 ''250'' = Some 250"
    by (simp_all add: parseUint64_def setString10_def parseDigits_def digitValue_def)
  have "fst (LoadConfigFromEnv (\<lambda>s. None) demoGetenv) = None" "Enabled (snd (LoadConfigFromEnv (\<lambda>s. None) demoGetenv))"
    "ASBaseURL (snd (LoadConfigFromEnv (\<lambda>s. None) demoGetenv)) = []"
    by (simp_all add: LoadConfigFromEnv_def parseUintEnv_def parseDurationEnv_def ConfigValidate_def parseBool_def demoGetenv_def Let_def n)
  then show thesis using that by (simp add: demoHostEnv_def) (metis prod.collapse)
qed

lemma demo_internal: "ToInternalConfig (Some demoGatedCfg) = Some demoInternal"
  by (simp add: ToInternalConfig_def demoInternal_def demoGatedCfg_def Let_def)

lemma demo_defra:
  "\<exists>nh calls w'. StartDefraInstance demoDisk demoKeyLib demoEdLib demoLogFS (Some ''10.0.0.5'') (demoNodeEnv True) now (Some demoInternal)
     applier opts hasFilter cs (\<lambda>_. None) = (Inr nh, calls, w')"
  by (cases applier) (simp_all add: StartDefraInstance_def demo_prepared finishStart_def demoNodeEnv_def Let_def)

lemma demo_split: "splitHostPort ''localhost:9181'' = Some (''localhost'', ''9181'')"
  by (simp add: splitHostPort_def lastColon_def)

lemma demo_after:
  assumes "Enabled cf" "ASBaseURL cf = []"
  shows "\<exists>host evs. afterDefra demoHostEnv cf demoGatedCfg sdl nh = (Inr host, evs)"
proof -
  have db: "prepareDatabase demoHostEnv demoGatedCfg sdl = (Inr (), [EvWait 1, EvApplySchema [sdl]])"
    by (simp add: prepareDatabase_def waitForDefraDB_def applySchema_def demoHostEnv_def demoGatedCfg_def demoHostCfg_def eval_nat_numeral)
  obtain addr rec vs where api: "openAPI demoHostEnv cf demoGatedCfg = (Inr (addr, rec), vs)"
    using assms by (simp add: openAPI_def attestersFor_def startACPServer_def buildRecording_def demoHostEnv_def demoGatedCfg_def
        demoHostCfg_def demo_split Let_def)
  have pl: "startPlayground demoHostEnv addr = (Inr False, [])" by (simp add: startPlayground_def demoHostEnv_def)
  obtain vs' where work: "startWork demoHostEnv demoGatedCfg addr = (Inr (), vs')" by (simp add: startWork_def demoHostEnv_def Let_def)
  show ?thesis by (simp add: afterDefra_def andThen_def db api pl work split: prod.splits)
qed

lemma demo_start:
  obtains host evs calls w' where "demoStart = ((Inr host, evs), calls, w')"
proof -
  obtain cf where cf: "LoadConfigFromEnv (heParseDuration demoHostEnv) (heGetenv demoHostEnv) = (None, cf)" "Enabled cf" "ASBaseURL cf = []"
    by (rule demo_acp)
  obtain nh calls w' where n: "StartDefraInstance demoDisk demoKeyLib demoEdLib demoLogFS (Some ''10.0.0.5'') (demoNodeEnv True) (heNow demoHostEnv)
     (Some demoInternal) (SchemaApplierFromProvidedSchema (resolveSchema ''schema'' demoURLTools demoSchemaNet demoGatedCfg))
     (hostNodeOpts (Enabled cf)) (NewEventReplicationFilter (EventFilter (hcShinzo demoGatedCfg)) \<noteq> None) AllCollections (\<lambda>_. None)
     = (Inr nh, calls, w')" using demo_defra by blast
  obtain host evs where a: "afterDefra demoHostEnv cf demoGatedCfg (resolveSchema ''schema'' demoURLTools demoSchemaNet demoGatedCfg) nh = (Inr host, evs)"
    using demo_after [OF cf(2,3)] by blast
  show thesis by (rule that) (simp only: demoStart_def StartHosting_def cf(1) demo_internal Let_def n a prod.case option.case sum.case)
qed



theorem acp_server_not_leaked_witness:
  "ACPShutdown \<in> set (snd (startACPServer \<lparr>aeNewHandler = True, aeNewServer = (\<lambda>_. True), aeSetListener = True, aeAddress = (\<lambda>a. a),
      aeNewClient = True, aeHealthCheck = False\<rparr>
      \<lparr>Enabled = True, ChainID = 1, MinQueryBalance = ''1'', EpochLength = 1, ASBaseURL = [], AttesterWindow = 0\<rparr>
      ''hub'' (Inr ()) None ''localhost:9181''))"
proof -
  let ?r = "startACPServer \<lparr>aeNewHandler = True, aeNewServer = (\<lambda>_. True), aeSetListener = True, aeAddress = (\<lambda>a. a),
      aeNewClient = True, aeHealthCheck = False\<rparr>
      \<lparr>Enabled = True, ChainID = 1, MinQueryBalance = ''1'', EpochLength = 1, ASBaseURL = [], AttesterWindow = 0\<rparr>
      ''hub'' (Inr ()) None ''localhost:9181''"
  have "ACPServe \<in> set (snd ?r)" "fst ?r = Inl ErrHealthCheck"
    by (simp_all add: startACPServer_def buildRecording_def demo_split Let_def)
  then show ?thesis using acp_server_not_leaked [OF prod.collapse [symmetric]] by blast
qed

end
