(* ===== verification/Pipeline_Run.thy ===== *)
theory Pipeline_Run
  imports Processing_Pipeline
begin

text \<open>
  The running pipeline of \<open>pkg/host/processingPipeline.go\<close>: the batch writers started by \<open>Start\<close>
  share one bounded job queue, the batches they flush start attestation goroutines that share the
  semaphore, and \<open>Stop\<close> cancels the context, closes the queue and waits for both groups. The
  goroutines are a step relation at the granularity of their selects. The theorems show that no
  interleaving loses a job on its way through the writers, that the semaphore and the counters are
  right in every state, and that \<open>Stop\<close> returns.
\<close>

text \<open>
  A writer is its batch under construction, or \<open>None\<close> once it returned. \<open>runWaiting\<close> are the
  attestation goroutines before the semaphore, \<open>runHolding\<close> those that hold it. \<open>runSent\<close> and
  \<open>runFlushed\<close> record the jobs ever sent and ever handed to \<open>processBatch\<close>.
\<close>

record pipeRun =
  runPipe :: ProcessingPipeline
  runQueue :: "DocumentJob list"
  runClosed :: bool
  runCtxDone :: bool
  runWriters :: "DocumentJob list option list"
  runWaiting :: "Document list list"
  runHolding :: "Document list list"
  runSent :: "DocumentJob list"
  runFlushed :: "DocumentJob list"

definition newRun :: "ProcessingPipeline \<Rightarrow> pipeRun" where
  "newRun pp = \<lparr>runPipe = pp, runQueue = [], runClosed = False, runCtxDone = False, runWriters = [],
     runWaiting = [], runHolding = [], runSent = [], runFlushed = []\<rparr>"

definition startPipeline :: "pipeRun \<Rightarrow> pipeRun" where
  "startPipeline r = r\<lparr>runWriters := runWriters r @ replicate (nat (batchWriterCount (runPipe r))) (Some [])\<rparr>"

text \<open>The two statements with which \<open>Stop\<close> begins; closing a closed channel panics (\<open>None\<close>).\<close>

definition stopPipeline :: "pipeRun \<Rightarrow> pipeRun option" where
  "stopPipeline r = (let r1 = r\<lparr>runCtxDone := True\<rparr> in if runClosed r1 then None else Some (r1\<lparr>runClosed := True\<rparr>))"

text \<open>The waits of \<open>Stop\<close> on the two wait groups are over.\<close>

definition stopReturns :: "pipeRun \<Rightarrow> bool" where
  "stopReturns r \<longleftrightarrow> list_all (\<lambda>w. w = None) (runWriters r) \<and> runWaiting r = [] \<and> runHolding r = []"

definition maxConcurrentAttestations :: nat where
  "maxConcurrentAttestations = 200"

text \<open>A flush at time \<open>now\<close>; \<open>bits\<close> is the average time per job that goes into the metrics.\<close>

definition flushRun :: "int \<Rightarrow> 64 word \<Rightarrow> DocumentJob list \<Rightarrow> pipeRun \<Rightarrow> pipeRun" where
  "flushRun now bits batch r =
     (if batch = [] then r
      else (case processBatch now batch (runPipe r) of
          (pp, work) \<Rightarrow>
            r\<lparr>runPipe := pp\<lparr>ppMetrics := map_option (UpdateLastProcessingTime bits) (ppMetrics pp)\<rparr>,
              runWaiting := runWaiting r @ (case work of None \<Rightarrow> [] | Some docs \<Rightarrow> [docs]),
              runFlushed := runFlushed r @ batch\<rparr>))"

definition writerReceive :: "int \<Rightarrow> 64 word \<Rightarrow> nat \<Rightarrow> DocumentJob list \<Rightarrow> DocumentJob \<Rightarrow> pipeRun \<Rightarrow> pipeRun" where
  "writerReceive now bits i batch job r =
     (let batch' = batch @ [job]; r1 = r\<lparr>runQueue := tl (runQueue r)\<rparr> in
      if int (length batch') \<ge> batchSize (runPipe r)
      then (flushRun now bits batch' r1)\<lparr>runWriters := (runWriters r)[i := Some []]\<rparr>
      else r1\<lparr>runWriters := (runWriters r)[i := Some batch']\<rparr>)"

text \<open>The flush timer, and the two ways in which a writer returns.\<close>

definition writerTimer :: "int \<Rightarrow> 64 word \<Rightarrow> nat \<Rightarrow> DocumentJob list \<Rightarrow> pipeRun \<Rightarrow> pipeRun" where
  "writerTimer now bits i batch r = (flushRun now bits batch r)\<lparr>runWriters := (runWriters r)[i := Some []]\<rparr>"

definition writerExit :: "int \<Rightarrow> 64 word \<Rightarrow> nat \<Rightarrow> DocumentJob list \<Rightarrow> pipeRun \<Rightarrow> pipeRun" where
  "writerExit now bits i batch r = (flushRun now bits batch r)\<lparr>runWriters := (runWriters r)[i := None]\<rparr>"

definition writerAt :: "pipeRun \<Rightarrow> nat \<Rightarrow> DocumentJob list \<Rightarrow> bool" where
  "writerAt r i batch \<longleftrightarrow> i < length (runWriters r) \<and> runWriters r ! i = Some batch"

text \<open>
  The steps. A send needs an open queue with room. The attempts of a goroutine that holds the
  semaphore see the context done only if it is.
\<close>

inductive pipeStep :: "pipeRun \<Rightarrow> pipeRun \<Rightarrow> bool" where
  send: "\<not> runClosed r \<Longrightarrow> int (length (runQueue r)) < jobQueueSize (runPipe r) \<Longrightarrow>
    pipeStep r (r\<lparr>runQueue := runQueue r @ [job], runSent := runSent r @ [job]\<rparr>)"
| receive: "writerAt r i batch \<Longrightarrow> runQueue r = job # q \<Longrightarrow> pipeStep r (writerReceive now bits i batch job r)"
| drained: "writerAt r i batch \<Longrightarrow> runClosed r \<Longrightarrow> runQueue r = [] \<Longrightarrow> pipeStep r (writerExit now bits i batch r)"
| timer: "writerAt r i batch \<Longrightarrow> pipeStep r (writerTimer now bits i batch r)"
| cancelled: "writerAt r i batch \<Longrightarrow> runCtxDone r \<Longrightarrow> pipeStep r (writerExit now bits i batch r)"
| acquire: "docs \<in> set (runWaiting r) \<Longrightarrow> length (runHolding r) < maxConcurrentAttestations \<Longrightarrow>
    pipeStep r (r\<lparr>runWaiting := remove1 docs (runWaiting r), runHolding := docs # runHolding r\<rparr>)"
| giveUp: "docs \<in> set (runWaiting r) \<Longrightarrow> runCtxDone r \<Longrightarrow>
    pipeStep r (r\<lparr>runWaiting := remove1 docs (runWaiting r), runPipe := processAttestationAsync False attempt ctxErr ctxDone docs (runPipe r)\<rparr>)"
| attested: "docs \<in> set (runHolding r) \<Longrightarrow> (\<exists>k. ctxErr k \<or> ctxDone k) \<longrightarrow> runCtxDone r \<Longrightarrow>
    pipeStep r (r\<lparr>runHolding := remove1 docs (runHolding r), runPipe := processAttestationAsync True attempt ctxErr ctxDone docs (runPipe r)\<rparr>)"
| stop: "stopPipeline r = Some r' \<Longrightarrow> pipeStep r r'"

inductive pipeReach :: "ProcessingPipeline \<Rightarrow> pipeRun \<Rightarrow> bool" for pp where
  started: "pipeReach pp (startPipeline (newRun pp))"
| step: "pipeReach pp r \<Longrightarrow> pipeStep r r' \<Longrightarrow> pipeReach pp r'"

subsection \<open>The invariant\<close>

definition batches :: "pipeRun \<Rightarrow> DocumentJob list" where
  "batches r = concat (map (case_option [] id) (runWriters r))"

text \<open>What every state keeps: nothing lost, bounds of queue, batches and semaphore, exact counters.\<close>

definition pipeInv :: "pipeRun \<Rightarrow> bool" where
  "pipeInv r \<longleftrightarrow>
     mset (runSent r) = mset (runQueue r) + mset (batches r) + mset (runFlushed r)
     \<and> 0 < batchSize (runPipe r)
     \<and> int (length (runQueue r)) \<le> max 0 (jobQueueSize (runPipe r))
     \<and> (\<forall>b. Some b \<in> set (runWriters r) \<longrightarrow> int (length b) < batchSize (runPipe r))
     \<and> length (runHolding r) \<le> maxConcurrentAttestations
     \<and> processedCount (runPipe r) = wrap64 (int (length (runFlushed r)))
     \<and> pendingAttestationsCount (runPipe r) = wrap64 (int (length (runWaiting r) + length (runHolding r)))"

lemma wrap64_add: "wrap64 (wrap64 x + y) = wrap64 (x + y)" "wrap64 (wrap64 x - y) = wrap64 (x - y)"
proof -
  have "wrap64 (wrap64 x + y) = ((x + 2 ^ 63) mod 2 ^ 64 + y) mod 2 ^ 64 - 2 ^ 63" by (simp add: wrap64_def)
  then show "wrap64 (wrap64 x + y) = wrap64 (x + y)" unfolding mod_add_left_eq by (simp add: wrap64_def ac_simps)
  have "wrap64 (wrap64 x - y) = ((x + 2 ^ 63) mod 2 ^ 64 - y) mod 2 ^ 64 - 2 ^ 63" by (simp add: wrap64_def)
  then show "wrap64 (wrap64 x - y) = wrap64 (x - y)" unfolding mod_diff_left_eq by (simp add: wrap64_def algebra_simps)
qed

lemma processBatch_frame:
  assumes "processBatch now jobs pp = (pp', w)"
  shows "batchSize pp' = batchSize pp" "jobQueueSize pp' = jobQueueSize pp" "batchWriterCount pp' = batchWriterCount pp"
  using assms by (auto simp: processBatch_def Let_def split: if_splits)

lemma processAttestationAsync_frame [simp]:
  "batchSize (processAttestationAsync s a c d docs pp) = batchSize pp"
  "jobQueueSize (processAttestationAsync s a c d docs pp) = jobQueueSize pp"
  "processedCount (processAttestationAsync s a c d docs pp) = processedCount pp"
  "pendingAttestationsCount (processAttestationAsync s a c d docs pp) = wrap64 (pendingAttestationsCount pp - 1)"
  by (simp_all add: processAttestationAsync_def Let_def split: attestOutcome.split)

lemma flushRun_frame [simp]:
  "batchSize (runPipe (flushRun now bits b r)) = batchSize (runPipe r)"
  "jobQueueSize (runPipe (flushRun now bits b r)) = jobQueueSize (runPipe r)"
  "runQueue (flushRun now bits b r) = runQueue r" "runClosed (flushRun now bits b r) = runClosed r"
  "runCtxDone (flushRun now bits b r) = runCtxDone r" "runWriters (flushRun now bits b r) = runWriters r"
  "runHolding (flushRun now bits b r) = runHolding r" "runSent (flushRun now bits b r) = runSent r"
  "runFlushed (flushRun now bits b r) = runFlushed r @ b"
  by (auto simp: flushRun_def dest: processBatch_frame split: prod.split)

lemma flushRun_counts:
  "processedCount (runPipe (flushRun now bits b r)) = (if b = [] then processedCount (runPipe r) else wrap64 (processedCount (runPipe r) + int (length b)))"
  "length (runWaiting (flushRun now bits b r)) = length (runWaiting r) + (if b = [] \<or> useBlockSignatures (runPipe r) then 0 else 1)"
  "pendingAttestationsCount (runPipe (flushRun now bits b r)) =
     (if b = [] \<or> useBlockSignatures (runPipe r) then pendingAttestationsCount (runPipe r) else wrap64 (pendingAttestationsCount (runPipe r) + 1))"
  by (simp_all add: flushRun_def processBatch_def Let_def)

lemma batches_upd:
  assumes "writerAt r i b"
  shows "mset (concat (map (case_option [] id) ((runWriters r)[i := w]))) = mset (batches r) - mset b + mset (case_option [] id w)"
    and "mset b \<subseteq># mset (batches r)"
proof -
  obtain xs ys where ws: "runWriters r = xs @ Some b # ys" "length xs = i"
    using assms id_take_nth_drop [of i "runWriters r"] by (force simp: writerAt_def)
  show "mset (concat (map (case_option [] id) ((runWriters r)[i := w]))) = mset (batches r) - mset b + mset (case_option [] id w)"
    using ws by (simp add: batches_def list_update_append)
  show "mset b \<subseteq># mset (batches r)" using ws by (simp add: batches_def)
qed

text \<open>
  All steps of a writer at once: it leaves the queue \<open>q\<close>, flushes \<open>f\<close> and continues as \<open>w\<close>.
\<close>

definition writerMove :: "int \<Rightarrow> 64 word \<Rightarrow> nat \<Rightarrow> DocumentJob list \<Rightarrow> DocumentJob list \<Rightarrow> DocumentJob list option \<Rightarrow> pipeRun \<Rightarrow> pipeRun" where
  "writerMove now bits i q f w r = (flushRun now bits f (r\<lparr>runQueue := q\<rparr>))\<lparr>runWriters := (runWriters r)[i := w]\<rparr>"

lemma writer_steps_move:
  "writerReceive now bits i b job r =
     (if int (length (b @ [job])) \<ge> batchSize (runPipe r)
      then writerMove now bits i (tl (runQueue r)) (b @ [job]) (Some []) r
      else writerMove now bits i (tl (runQueue r)) [] (Some (b @ [job])) r)"
  "writerTimer now bits i b r = writerMove now bits i (runQueue r) b (Some []) r"
  "writerExit now bits i b r = writerMove now bits i (runQueue r) b None r"
  by (simp_all add: writerReceive_def writerTimer_def writerExit_def writerMove_def flushRun_def Let_def)

lemma writerMove_inv:
  assumes "pipeInv r" "writerAt r i b"
    and moved: "mset (runQueue r) + mset b = mset q + mset f + mset (case_option [] id w)"
    and "length q \<le> length (runQueue r)" "\<And>b'. w = Some b' \<Longrightarrow> int (length b') < batchSize (runPipe r)"
  shows "pipeInv (writerMove now bits i q f w r)"
proof -
  let ?r = "writerMove now bits i q f w r"
  note I = assms(1) [unfolded pipeInv_def]
  obtain B where B: "mset (batches r) = mset b + B" using batches_upd(2) [OF assms(2)] by (auto simp: mset_subset_eq_exists_conv)
  then have "mset (batches ?r) = B + mset (case_option [] id w)"
    using batches_upd(1) [OF assms(2)] by (simp add: writerMove_def batches_def)
  moreover have "mset (runSent r) = (mset (runQueue r) + mset b) + (B + mset (runFlushed r))"
    using I B by (simp only: ac_simps)
  ultimately have "mset (runSent ?r) = mset (runQueue ?r) + mset (batches ?r) + mset (runFlushed ?r)"
    unfolding moved by (simp add: writerMove_def ac_simps)
  moreover have "int (length b') < batchSize (runPipe ?r)" if "Some b' \<in> set (runWriters ?r)" for b'
    using that I assms(5) set_update_subset_insert [of "runWriters r" i w] by (auto simp: writerMove_def)
  moreover have "processedCount (runPipe ?r) = wrap64 (int (length (runFlushed ?r)))"
    using I by (auto simp: writerMove_def flushRun_counts wrap64_add)
  moreover have "pendingAttestationsCount (runPipe ?r) = wrap64 (int (length (runWaiting ?r) + length (runHolding ?r)))"
    using I by (auto simp: writerMove_def flushRun_counts wrap64_add) (simp add: ac_simps)
  ultimately show ?thesis using I assms(4) unfolding pipeInv_def by (auto simp: writerMove_def)
qed

lemma length_remove1_Suc: "x \<in> set xs \<Longrightarrow> length xs = Suc (length (remove1 x xs))"
  by (induction xs) auto

lemma pipeStep_inv: "pipeStep r r' \<Longrightarrow> pipeInv r \<Longrightarrow> pipeInv r'"
proof (induction rule: pipeStep.induct)
  case (receive r i batch job q now bits)
  then have b: "0 < batchSize (runPipe r)" by (simp add: pipeInv_def)
  show ?case
  proof (cases "int (length (batch @ [job])) \<ge> batchSize (runPipe r)")
    case True
    with receive b show ?thesis by (simp only: writer_steps_move if_True) (rule writerMove_inv, auto)
  next
    case False
    with receive b show ?thesis by (simp only: writer_steps_move if_False) (rule writerMove_inv, auto)
  qed
next
  case (timer r i batch now bits)
  then have "0 < batchSize (runPipe r)" by (simp add: pipeInv_def)
  with timer show ?case by (simp only: writer_steps_move) (rule writerMove_inv, auto)
next
  case (drained r i batch now bits)
  then show ?case by (simp only: writer_steps_move) (rule writerMove_inv, auto)
next
  case (cancelled r i batch now bits)
  then show ?case by (simp only: writer_steps_move) (rule writerMove_inv, auto)
next
  case (acquire docs r)
  with length_remove1_Suc [OF acquire.hyps(1)] show ?case by (auto simp: pipeInv_def batches_def ac_simps)
next
  case (giveUp docs r attempt ctxErr ctxDone)
  with length_remove1_Suc [OF giveUp.hyps(1)] show ?case by (auto simp: pipeInv_def batches_def wrap64_add)
next
  case (attested docs r ctxErr ctxDone attempt)
  with length_remove1_Suc [OF attested.hyps(1)] show ?case by (auto simp: pipeInv_def batches_def wrap64_add)
qed (auto simp: pipeInv_def batches_def stopPipeline_def Let_def split: if_splits)

lemma started_inv:
  assumes "0 < batchSize pp" "processedCount pp = 0" "pendingAttestationsCount pp = 0"
  shows "pipeInv (startPipeline (newRun pp))"
  using assms by (auto simp: pipeInv_def startPipeline_def newRun_def batches_def wrap64_def)

lemma pipeReach_inv:
  assumes "pipeReach pp r" "0 < batchSize pp" "processedCount pp = 0" "pendingAttestationsCount pp = 0"
  shows "pipeInv r"
  using assms(1) by induction (auto intro: started_inv assms pipeStep_inv)

lemma new_pipeline_ok:
  "0 < batchSize (NewProcessingPipeline mtr qs ws bs ms sigs)" "processedCount (NewProcessingPipeline mtr qs ws bs ms sigs) = 0"
  "pendingAttestationsCount (NewProcessingPipeline mtr qs ws bs ms sigs) = 0"
  by (simp_all add: NewProcessingPipeline_def)

subsection \<open>Stopping\<close>

abbreviation stopping_run :: "pipeRun \<Rightarrow> bool" where
  "stopping_run r \<equiv> runClosed r \<and> runCtxDone r"

lemma stopping_stays: "pipeStep r r' \<Longrightarrow> stopping_run r \<Longrightarrow> stopping_run r'"
  by (induction rule: pipeStep.induct)
    (auto simp: writer_steps_move writerMove_def stopPipeline_def Let_def split: if_splits)

text \<open>The work left: jobs in the queue, writers with their batches, and goroutines.\<close>

fun writerWork :: "DocumentJob list option \<Rightarrow> nat" where
  "writerWork None = 0"
| "writerWork (Some b) = (if b = [] then 1 else 4)"

definition workLeft :: "pipeRun \<Rightarrow> nat" where
  "workLeft r = 4 * length (runQueue r) + sum_list (map writerWork (runWriters r))
     + 2 * length (runWaiting r) + length (runHolding r)"

lemma writerWork_upd:
  assumes "writerAt r i b"
  shows "sum_list (map writerWork ((runWriters r)[i := w])) + writerWork (Some b) = sum_list (map writerWork (runWriters r)) + writerWork w"
proof -
  obtain xs ys where ws: "runWriters r = xs @ Some b # ys" "length xs = i"
    using assms id_take_nth_drop [of i "runWriters r"] by (force simp: writerAt_def)
  then show ?thesis by (simp add: list_update_append)
qed

lemma flush_waiting: "length (runWaiting (flushRun now bits b r)) \<le> length (runWaiting r) + (if b = [] then 0 else 1)"
  by (simp add: flushRun_counts)

lemma writerMove_work:
  assumes "writerAt r i b"
    and "4 * length q + (if f = [] then 0 else 2) + writerWork w < 4 * length (runQueue r) + writerWork (Some b)"
  shows "workLeft (writerMove now bits i q f w r) < workLeft r"
proof -
  have "length (runWaiting (writerMove now bits i q f w r)) \<le> length (runWaiting r) + (if f = [] then 0 else 1)"
    using flush_waiting [of now bits f "r\<lparr>runQueue := q\<rparr>"] by (simp add: writerMove_def)
  then show ?thesis using writerWork_upd [OF assms(1), of w] assms(2)
    by (simp add: workLeft_def writerMove_def split: if_splits)
qed

lemma writerMove_idle: "writerAt r i [] \<Longrightarrow> writerMove now bits i (runQueue r) [] (Some []) r = r"
  by (simp add: writerMove_def flushRun_def writerAt_def list_update_same_conv)

text \<open>Once \<open>Stop\<close> began, every step but an idle tick of a flush timer reduces the work left.\<close>

lemma stopping_decreases: "pipeStep r r' \<Longrightarrow> stopping_run r \<Longrightarrow> r' = r \<or> workLeft r' < workLeft r"
proof (induction rule: pipeStep.induct)
  case (receive r i batch job q now bits)
  then show ?case by (simp add: writer_steps_move writerMove_work)
next
  case (timer r i batch now bits)
  then show ?case by (cases "batch = []") (simp_all add: writer_steps_move writerMove_idle writerMove_work)
next
  case (drained r i batch now bits)
  then show ?case by (simp add: writer_steps_move writerMove_work)
next
  case (cancelled r i batch now bits)
  then show ?case by (simp add: writer_steps_move writerMove_work)
next
  case (acquire docs r)
  with length_remove1_Suc [OF acquire.hyps(1)] show ?case by (simp add: workLeft_def)
next
  case (giveUp docs r attempt ctxErr ctxDone)
  with length_remove1_Suc [OF giveUp.hyps(1)] show ?case by (simp add: workLeft_def)
next
  case (attested docs r ctxErr ctxDone attempt)
  with length_remove1_Suc [OF attested.hyps(1)] show ?case by (simp add: workLeft_def)
qed (auto simp: stopPipeline_def Let_def)

lemma stopping_progress:
  assumes "stopping_run r" "\<not> stopReturns r"
  shows "\<exists>r'. pipeStep r r' \<and> workLeft r' < workLeft r"
proof -
  consider (writer) i b where "writerAt r i b" | (waiting) d where "d \<in> set (runWaiting r)" | (holding) d where "d \<in> set (runHolding r)"
  proof -
    have "(\<exists>w \<in> set (runWriters r). w \<noteq> None) \<or> runWaiting r \<noteq> [] \<or> runHolding r \<noteq> []"
      using assms(2) by (auto simp: stopReturns_def list_all_iff)
    then show thesis using that by (metis in_set_conv_nth last_in_set not_None_eq writerAt_def)
  qed
  then show ?thesis
  proof cases
    case writer
    then have "pipeStep r (writerExit 0 0 i b r)" using assms(1) by (intro pipeStep.cancelled) simp_all
    moreover have "workLeft (writerExit 0 0 i b r) < workLeft r" using writer by (simp add: writer_steps_move writerMove_work)
    ultimately show ?thesis by blast
  next
    case waiting
    with length_remove1_Suc [OF waiting] pipeStep.giveUp [OF waiting, of "\<lambda>_. None" "\<lambda>_. False" "\<lambda>_. False"] assms(1) show ?thesis
      by (intro exI conjI, assumption?) (auto simp: workLeft_def)
  next
    case holding
    with length_remove1_Suc [OF holding] pipeStep.attested [OF holding, of "\<lambda>_. False" "\<lambda>_. False" "\<lambda>_. None"] assms(1) show ?thesis
      by (intro exI conjI, assumption?) (auto simp: workLeft_def)
  qed
qed

lemma stopping_returns:
  assumes "stopping_run r"
  shows "\<exists>r'. pipeStep\<^sup>*\<^sup>* r r' \<and> stopReturns r'"
  using assms
proof (induction "workLeft r" arbitrary: r rule: less_induct)
  case less
  show ?case
  proof (cases "stopReturns r")
    case False
    then obtain r1 where r1: "pipeStep r r1" "workLeft r1 < workLeft r" using stopping_progress less.prems by blast
    with less.hyps [of r1] less.prems stopping_stays obtain r2 where "pipeStep\<^sup>*\<^sup>* r1 r2" "stopReturns r2" by blast
    with r1(1) show ?thesis by (meson converse_rtranclp_into_rtranclp)
  qed blast
qed

lemma closed_stays: "pipeStep\<^sup>*\<^sup>* r r' \<Longrightarrow> runClosed r \<Longrightarrow> runClosed r'"
proof (induction rule: rtranclp_induct)
  case (step y z)
  from step.hyps(2) step.IH [OF step.prems] show ?case
    by (induction rule: pipeStep.induct) (auto simp: writer_steps_move writerMove_def stopPipeline_def Let_def split: if_splits)
qed

subsection \<open>Properties\<close>

text \<open>
  C37. Whatever the interleaving of the senders, the batch writers, the attestation goroutines and
  \<open>Stop\<close>, every job sent is in exactly one place, in the queue, in a writer's batch or handed to
  \<open>processBatch\<close>; queue and batches stay within their sizes, at most 200 goroutines attest at the
  same time, and the counters of processed jobs and pending goroutines are exact up to 64 bits.
\<close>

theorem pipeline_run_sound:
  assumes "pipeReach (NewProcessingPipeline mtr qs ws bs ms sigs) r"
  shows "mset (runSent r) = mset (runQueue r) + mset (batches r) + mset (runFlushed r)
    \<and> int (length (runQueue r)) \<le> max 0 (jobQueueSize (runPipe r))
    \<and> (\<forall>b. Some b \<in> set (runWriters r) \<longrightarrow> int (length b) < batchSize (runPipe r))
    \<and> length (runHolding r) \<le> maxConcurrentAttestations
    \<and> processedCount (runPipe r) = wrap64 (int (length (runFlushed r)))
    \<and> GetPendingAttestationsCount (runPipe r) = wrap64 (int (length (runWaiting r) + length (runHolding r)))"
  using pipeReach_inv [OF assms new_pipeline_ok] by (simp add: pipeInv_def GetPendingAttestationsCount_def)

definition demoJob :: "string \<Rightarrow> DocumentJob" where
  "demoJob d = \<lparr>jobDocID = d, jobDocType = ''Log'', jobBlockNumber = 1, jobDocData = []\<rparr>"

text \<open>One writer with batches of two; two jobs are sent, one is received.\<close>

definition demoPipe :: ProcessingPipeline where
  "demoPipe = NewProcessingPipeline None 10 1 2 0 False"

definition demoSent :: pipeRun where
  "demoSent = (startPipeline (newRun demoPipe))\<lparr>runQueue := [demoJob ''a'', demoJob ''b''], runSent := [demoJob ''a'', demoJob ''b'']\<rparr>"

lemmas demo_run_defs = demoSent_def demoPipe_def startPipeline_def newRun_def NewProcessingPipeline_def

lemma demoSent_reach: "pipeReach demoPipe demoSent"
proof -
  let ?s = "startPipeline (newRun demoPipe)"
  let ?r = "?s\<lparr>runQueue := runQueue ?s @ [demoJob ''a''], runSent := runSent ?s @ [demoJob ''a'']\<rparr>"
  have "pipeStep ?s ?r" by (rule pipeStep.send) (simp_all add: demo_run_defs)
  with pipeReach.started have r: "pipeReach demoPipe ?r" by (rule pipeReach.step)
  have "?r\<lparr>runQueue := runQueue ?r @ [demoJob ''b''], runSent := runSent ?r @ [demoJob ''b'']\<rparr> = demoSent"
    by (simp add: demo_run_defs)
  moreover have "pipeStep ?r (?r\<lparr>runQueue := runQueue ?r @ [demoJob ''b''], runSent := runSent ?r @ [demoJob ''b'']\<rparr>)"
    by (rule pipeStep.send) (simp_all add: demo_run_defs)
  ultimately have "pipeStep ?r demoSent" by (simp only:)
  with r show ?thesis by (rule pipeReach.step)
qed

theorem pipeline_run_sound_witness:
  "\<exists>r. pipeReach demoPipe r \<and> length (runQueue r) = 1 \<and> batches r = [demoJob ''a'']
     \<and> mset (runSent r) = mset (runQueue r) + mset (batches r) + mset (runFlushed r)"
proof -
  let ?r = "writerReceive 0 0 0 [] (demoJob ''a'') demoSent"
  have "pipeStep demoSent ?r" by (rule pipeStep.receive) (simp_all add: demo_run_defs writerAt_def)
  then have r: "pipeReach demoPipe ?r" using demoSent_reach pipeReach.step by blast
  have "length (runQueue ?r) = 1" "batches ?r = [demoJob ''a'']"
    by (simp_all add: demo_run_defs writerReceive_def batches_def)
  with r pipeline_run_sound [of None 10 1 2 0 False ?r] show ?thesis
    by (intro exI [of _ ?r]) (simp add: demoPipe_def)
qed

text \<open>
  C38. \<open>Stop\<close> returns: after its first two statements no run can change the state forever, the waits
  of \<open>Stop\<close> can always be completed from wherever the goroutines got to, and when they are over no
  writer holds a job back: every job sent was processed or is still in the closed queue.
\<close>

theorem stop_returns:
  assumes "pipeReach (NewProcessingPipeline mtr qs ws bs ms sigs) r" "stopPipeline r = Some r1" "pipeStep\<^sup>*\<^sup>* r1 r2"
  shows "wfP (\<lambda>b a. runClosed a \<and> runCtxDone a \<and> pipeStep a b \<and> b \<noteq> a)
    \<and> (\<exists>r3. pipeStep\<^sup>*\<^sup>* r2 r3 \<and> stopReturns r3)
    \<and> (stopReturns r2 \<longrightarrow> batches r2 = [] \<and> mset (runSent r2) = mset (runQueue r2) + mset (runFlushed r2))"
proof (intro conjI impI)
  show "wfP (\<lambda>b a. runClosed a \<and> runCtxDone a \<and> pipeStep a b \<and> b \<noteq> a)"
    by (rule wfp_if_convertible_to_nat [where f = workLeft]) (use stopping_decreases in blast)
  have "stopping_run r1" using assms(2) by (auto simp: stopPipeline_def Let_def split: if_splits)
  with assms(3) have "stopping_run r2" by (induction rule: rtranclp_induct) (use stopping_stays in blast)+
  then show "\<exists>r3. pipeStep\<^sup>*\<^sup>* r2 r3 \<and> stopReturns r3" by (rule stopping_returns)
  assume "stopReturns r2"
  then have b: "batches r2 = []" by (auto simp: stopReturns_def batches_def list_all_iff concat_eq_Nil_conv)
  then show "batches r2 = []" .
  have "pipeReach (NewProcessingPipeline mtr qs ws bs ms sigs) r1" using assms(1,2) pipeStep.stop pipeReach.step by blast
  with assms(3) have "pipeReach (NewProcessingPipeline mtr qs ws bs ms sigs) r2"
    by (induction rule: rtranclp_induct) (auto intro: pipeReach.step)
  from pipeReach_inv [OF this new_pipeline_ok] b show "mset (runSent r2) = mset (runQueue r2) + mset (runFlushed r2)"
    by (simp add: pipeInv_def)
qed

theorem stop_returns_witness:
  "\<exists>r1 r3. stopPipeline demoSent = Some r1 \<and> pipeStep\<^sup>*\<^sup>* r1 r3 \<and> stopReturns r3"
proof -
  obtain r1 where r1: "stopPipeline demoSent = Some r1" by (simp add: demo_run_defs stopPipeline_def)
  from stop_returns [OF demoSent_reach [unfolded demoPipe_def] r1, of r1] r1 show ?thesis by blast
qed

text \<open>
  Jobs can be lost at a stop, and nothing counts them: a writer may return on the cancelled context
  while the queue still holds jobs.
\<close>

lemma stop_loses_queued_jobs:
  "\<exists>r1 r2. stopPipeline demoSent = Some r1 \<and> pipeStep\<^sup>*\<^sup>* r1 r2 \<and> stopReturns r2 \<and> runFlushed r2 = [] \<and> length (runQueue r2) = 2"
proof -
  obtain r1 where r1: "stopPipeline demoSent = Some r1" by (simp add: demo_run_defs stopPipeline_def)
  then have e: "r1 = demoSent\<lparr>runCtxDone := True, runClosed := True\<rparr>" by (simp add: demo_run_defs stopPipeline_def)
  have "pipeStep r1 (writerExit 0 0 0 [] r1)" by (rule pipeStep.cancelled) (simp_all add: e demo_run_defs writerAt_def)
  moreover have "stopReturns (writerExit 0 0 0 [] r1)" "runFlushed (writerExit 0 0 0 [] r1) = []"
    "length (runQueue (writerExit 0 0 0 [] r1)) = 2"
    by (simp_all add: e demo_run_defs writerExit_def stopReturns_def flushRun_def)
  ultimately show ?thesis using r1 by blast
qed

text \<open>A second \<open>Stop\<close> panics, however much later it is called.\<close>

lemma second_stop_panics:
  assumes "stopPipeline r = Some r1" "pipeStep\<^sup>*\<^sup>* r1 r2"
  shows "stopPipeline r2 = None"
proof -
  have "runClosed r1" using assms(1) by (auto simp: stopPipeline_def Let_def split: if_splits)
  with closed_stays [OF assms(2)] show ?thesis by (simp add: stopPipeline_def)
qed

end
