(* ===== verification/Attestation_Flow.thy ===== *)
theory Attestation_Flow
  imports Attestation_Handler
begin

text \<open>
  From a replicated document to an attestation record: the listener, the document queue, a worker,
  the verification and the post, composed the way \<open>pkg/host/attestationHandler.go\<close> composes them.
\<close>

text \<open>What the worker does with a document identifier when the node and its collection are there.\<close>

definition attestDocument ::
  "('pk, 'cid) crypto \<Rightarrow> ('doc, 'db) docstore \<Rightarrow> (post_error \<Rightarrow> string) \<Rightarrow> (nat \<Rightarrow> 'db \<Rightarrow> 'db) \<Rightarrow> (string \<Rightarrow> bool)
     \<Rightarrow> (nat \<Rightarrow> (string \<Rightarrow> gany option) option) \<Rightarrow> (nat \<Rightarrow> bool) \<Rightarrow> int \<Rightarrow> 64 word \<Rightarrow> docEvent \<Rightarrow> attState \<times> 'db \<Rightarrow> attState \<times> 'db" where
  "attestDocument K S errText between validDocID fetch cancelled now elapsed =
     docWorker (processBlockSignatureFromEventBus True True validDocID fetch cancelled
       (processBlockSignatureDocument K True S errText between now elapsed))"

lemma fetchLoop_finds:
  assumes "k \<le> m" "m < k + n" "fetch m = Some d" "\<forall>i < m. k \<le> i \<longrightarrow> fetch i = None \<and> \<not> cancelled i"
  shows "fetchLoop fetch cancelled n k = Some d"
  using assms
proof (induction n arbitrary: k)
  case (Suc n)
  show ?case
  proof (cases "k = m")
    case False
    with Suc.prems have "fetch k = None" "\<not> cancelled k" by auto
    with Suc.IH [of "Suc k"] Suc.prems False show ?thesis by simp
  qed (use Suc.prems in simp)
qed simp

text \<open>Conflicts of fewer than all attempts do not prevent the post; other writers may act in between.\<close>

lemma postWithRetries_succeeds:
  assumes "m < n" "\<forall>i < m. \<exists>e. PostAttestationRecord S r (between (k + i) (dbs i)) = (Some e, dbs (Suc i)) \<and> retryable errText e"
    and "PostAttestationRecord S r (between (k + m) (dbs m)) = (None, db')"
  shows "postWithRetries S errText between r b n k (st, dbs 0) = (recordAttested b st, db')"
  using assms
proof (induction m arbitrary: n k dbs)
  case 0
  then obtain n' where "n = Suc n'" by (cases n) auto
  with 0 show ?case by simp
next
  case (Suc m)
  then obtain n' where n': "n = Suc n'" "m < n'" by (cases n) auto
  from Suc.prems(2) obtain e where e: "PostAttestationRecord S r (between k (dbs 0)) = (Some e, dbs 1)" "retryable errText e" by fastforce
  have "postWithRetries S errText between r b n' (Suc k) (st, dbs (Suc 0)) = (recordAttested b st, db')"
    using Suc.prems n' by (intro Suc.IH [where dbs = "\<lambda>i. dbs (Suc i)"]) auto
  with n' e show ?case by simp
qed

lemma recordAttested_effect:
  "b \<in> attestedBlocks (recordAttested b st)" "aVerifier (recordAttested b st) = aVerifier st"
  "aAttesters (recordAttested b st) = aAttesters st" "pruneQueue (recordAttested b st) = pruneQueue st"
  "docQueue (recordAttested b st) = docQueue st"
  by (auto simp: recordAttested_def Let_def)

lemma relayed_update_enqueued:
  assumes "map_of (collectionIDToName st) (updCollectionID u) = Some ''Ethereum__Mainnet__BlockSignature''"
    and "updIsRelay u" "0 < docQueueCap st"
  shows "docQueue (handleUpdate now (Some u) st) =
      drop (Suc (length (docQueue st)) - docQueueCap st) (docQueue st)
        @ [\<lparr>evDocID = updDocID u, evCollection = ''Ethereum__Mainnet__BlockSignature''\<rparr>]"
    "pruneQueue (handleUpdate now (Some u) st) = map_option (Push ''Ethereum__Mainnet__BlockSignature'' (updDocID u)) (pruneQueue st)"
  using assms by (simp_all add: handleUpdate_def Let_def collectionsWithMetrics_def enqueueDoc_drops_oldest)

lemma verified_document_posted:
  assumes "extractBlockSignatureCore get = Inr core"
    and s: "s = populateBlockSignatureCIDs get (populateBlockSignatureFields get core)"
    and "VerifyBlockSignature K (Some s) = None" "VerifyCIDListAgainstMerkleRoot K (Some s) = Inr True"
    and "aVerifier st = Some c" "m < 5" "dbs 0 = db"
    and "\<forall>i < m. \<exists>e. PostAttestationRecord S (blockRecord s) (between i (dbs i)) = (Some e, dbs (Suc i)) \<and> retryable errText e"
    and "PostAttestationRecord S (blockRecord s) (between m (dbs m)) = (None, db')"
  obtains st' where "processBlockSignatureDocument K True S errText between now elapsed get (st, db) = (st', db')"
    "BlockNumber s \<in> attestedBlocks st'" "aVerifier st' = Some (cacheAdd (Some s) c)"
    "aAttesters st' = map_option (Observe now (SignatureIdentity s)) (aAttesters st)"
    "pruneQueue st' = pruneQueue st" "docQueue st' = docQueue st"
proof -
  have ne: "CIDs s \<noteq> []" using assms(4) by (auto simp: VerifyCIDListAgainstMerkleRoot_def)
  have v: "verifyBlockSignature K s mtr = (True, mtr)" for mtr using assms(3,4) by (simp add: verifyBlockSignature_def)
  let ?st1 = "st\<lparr>aAttesters := map_option (Observe now (SignatureIdentity s)) (aAttesters st),
      aMetrics := map_option IncrementSignatureVerifications (aMetrics st), aVerifier := Some (cacheAdd (Some s) c)\<rparr>"
  have "postWithRetries S errText between (blockRecord s) (BlockNumber s) 5 0 (?st1, db) = (recordAttested (BlockNumber s) ?st1, db')"
    using postWithRetries_succeeds [where m = m and k = 0 and dbs = dbs] assms(6-9) by simp
  then have "processBlockSignatureDocument K True S errText between now elapsed get (st, db)
      = (onMetrics (UpdateLastProcessingTime elapsed) (recordAttested (BlockNumber s) ?st1), db')"
    using assms(1,5) ne v
    by (simp add: processBlockSignatureDocument_def s [symmetric] processAttestationsFromBlockSignature_def Let_def)
  then show thesis by (rule that) (simp_all add: recordAttested_effect)
qed

subsection \<open>Properties\<close>

text \<open>
  C39. A valid block signature that a peer replicates is attested. The listener puts the document on
  the prune queue and, last, on the document queue, dropping the oldest entry of a full queue; a
  worker that takes it, finds it within ten reads, and whose post meets at most four transaction
  conflicts leaves the store as the successful post of the block's record left it, marks the block
  attested, caches the signature and remembers the attester.
\<close>

theorem relayed_signature_attested:
  assumes "map_of (collectionIDToName st) (updCollectionID u) = Some ''Ethereum__Mainnet__BlockSignature''"
    and "updIsRelay u" "0 < docQueueCap st"
    and "validDocID (updDocID u)" "k < 10" "fetch k = Some get" "\<forall>i < k. fetch i = None \<and> \<not> cancelled i"
    and "extractBlockSignatureCore get = Inr core"
    and "s = populateBlockSignatureCIDs get (populateBlockSignatureFields get core)"
    and "VerifyBlockSignature K (Some s) = None" "VerifyCIDListAgainstMerkleRoot K (Some s) = Inr True"
    and "aVerifier wst = Some c" "m < 5" "dbs 0 = db"
    and "\<forall>i < m. \<exists>e. PostAttestationRecord S (blockRecord s) (between i (dbs i)) = (Some e, dbs (Suc i)) \<and> retryable errText e"
    and "PostAttestationRecord S (blockRecord s) (between m (dbs m)) = (None, db')"
  shows "pruneQueue (handleUpdate t (Some u) st) = map_option (Push ''Ethereum__Mainnet__BlockSignature'' (updDocID u)) (pruneQueue st)
    \<and> docQueue (handleUpdate t (Some u) st) \<noteq> []
    \<and> (\<exists>wres. attestDocument K S errText between validDocID fetch cancelled now elapsed
            (last (docQueue (handleUpdate t (Some u) st))) (wst, db) = (wres, db')
         \<and> BlockNumber s \<in> attestedBlocks wres \<and> aVerifier wres = Some (cacheAdd (Some s) c)
         \<and> aAttesters wres = map_option (Observe now (SignatureIdentity s)) (aAttesters wst)
         \<and> pruneQueue wres = pruneQueue wst \<and> docQueue wres = docQueue wst)"
proof -
  have f: "fetchLoop fetch cancelled 10 0 = Some get" using fetchLoop_finds [of 0 k 10] assms(5-7) by simp
  obtain wres where "processBlockSignatureDocument K True S errText between now elapsed get (wst, db) = (wres, db')"
    "BlockNumber s \<in> attestedBlocks wres" "aVerifier wres = Some (cacheAdd (Some s) c)"
    "aAttesters wres = map_option (Observe now (SignatureIdentity s)) (aAttesters wst)"
    "pruneQueue wres = pruneQueue wst" "docQueue wres = docQueue wst"
    by (rule verified_document_posted [where dbs = dbs and between = between and m = m, OF assms(8-16)])
  with f assms(4) relayed_update_enqueued [OF assms(1-3), of t] show ?thesis
    by (simp add: attestDocument_def docWorker_def processBlockSignatureFromEventBus_def)
qed

definition demoGetValid :: "string \<Rightarrow> gany option" where
  "demoGetValid = demoGet(''signatureValue'' \<mapsto> AStr ''0101'')"

definition demoUpdate :: updateEvent where
  "demoUpdate = \<lparr>updDocID = ''bae-1'', updCollectionID = ''x'', updIsRelay = True\<rparr>"

text \<open>The second read succeeds and the first post.\<close>

theorem relayed_signature_attested_witness:
  "\<exists>wres d. attestDocument demoCrypto demoDocStore (\<lambda>e. []) (\<lambda>k db. db) (\<lambda>d. True) (\<lambda>k. if k = 0 then None else Some demoGetValid) (\<lambda>k. False) 5 0
       (last (docQueue (handleUpdate 3 (Some demoUpdate) (demoState\<lparr>collectionIDToName := [(''x'', ''Ethereum__Mainnet__BlockSignature'')]\<rparr>))))
       (demoState, None) = (wres, Some d) \<and> 12 \<in> attestedBlocks wres"
proof -
  define core where "core = \<lparr>BlockNumber = 12, BlockHash = [], MerkleRoot = ''01'', CIDCount = 0, CIDs = [], SignatureType = [],
     SignatureIdentity = [], SignatureValue = [], CreatedAt = []\<rparr>"
  define s where "s = populateBlockSignatureCIDs demoGetValid (populateBlockSignatureFields demoGetValid core)"
  have e: "extractBlockSignatureCore demoGetValid = Inr core"
    by (simp add: extractBlockSignatureCore_def demoGetValid_def demoGet_def core_def)
  have s': "s = demoSig\<lparr>BlockHash := [], CIDCount := 0\<rparr>"
    by (simp add: s_def core_def demoSig_def populateBlockSignatureCIDs_def populateBlockSignatureFields_def strOr_def demoGetValid_def demoGet_def)
  have h: "hexDecode ''01'' = Some [1]" "hexDecode ''0101'' = Some [1, 1]" by code_simp+
  have v: "VerifyBlockSignature demoCrypto (Some s) = None"
    by (simp add: s' demoSig_def VerifyBlockSignature_def h signatureKeyType_def demoCrypto_def del: hexDecode.simps)
  have l: "VerifyCIDListAgainstMerkleRoot demoCrypto (Some s) = Inr True"
    by (simp add: s' demoSig_def VerifyCIDListAgainstMerkleRoot_def VerifyCIDsAgainstBlockSignature_def
        ComputeMerkleRootFromStrings_def List.map_filter_def h demoCrypto_def del: hexDecode.simps)
  have p: "PostAttestationRecord demoDocStore (blockRecord s) None = (None, Some (recordData (blockRecord s)))"
    by (simp add: PostAttestationRecord_def lookupExistingAttestation_def demoDocStore_def extractDocIDFromResult_def getField_def saveResult_def)
  show ?thesis
    using relayed_signature_attested [where st = "demoState\<lparr>collectionIDToName := [(''x'', ''Ethereum__Mainnet__BlockSignature'')]\<rparr>"
        and u = demoUpdate and validDocID = "\<lambda>d. True" and k = 1 and fetch = "\<lambda>k. if k = 0 then None else Some demoGetValid"
        and cancelled = "\<lambda>k. False" and wst = demoState and c = "NewBlockSignatureCache 10" and m = 0 and dbs = "\<lambda>_. None"
        and between = "\<lambda>k db. db" and errText = "\<lambda>e. []" and S = demoDocStore and t = 3 and now = 5 and elapsed = 0,
        OF _ _ _ _ _ _ _ e s_def v l _ _ _ _ p]
    by (force simp: demoState_def demoUpdate_def s' demoSig_def)
qed

end
