(* ===== verification/Reconnect_Loop.thy ===== *)
theory Reconnect_Loop
  imports Peer_Network
begin

text \<open>
  The two background goroutines of the network handler (\<open>startReconnectionLoop\<close> and
  \<open>startNoPeersEventListener\<close> in \<open>src/pkg/defradb/network_handler.go\<close>), run over the sequence of
  events they meet. The lemmas show that both only take steps of the interleaving relation
  \<open>netStep\<close>, so that its invariant covers them, and what one tick achieves.
\<close>

text \<open>
  The goroutines started for the disconnected peers, in the schedule in which each enters its
  locked section in the order of the table; the connection attempts follow as steps of \<open>netStep\<close>.
\<close>

definition reconnectDisconnectedPeers :: "int \<Rightarrow> NetworkHandler \<Rightarrow> NetworkHandler" where
  "reconnectDisconnectedPeers now nh = fold (attemptReconnect now) (disconnectedPeers nh) nh"

text \<open>A tick carries its time and the answer of \<open>ActivePeers\<close>, \<open>None\<close> for a missing node or an error.\<close>

datatype reconnectEvent = LoopStopClosed | LoopCtxDone | LoopTick int "string list option"

fun reconnectionLoop :: "reconnectEvent list \<Rightarrow> NetworkHandler \<Rightarrow> NetworkHandler" where
  "reconnectionLoop [] nh = nh"
| "reconnectionLoop (LoopStopClosed # evs) nh = nh"
| "reconnectionLoop (LoopCtxDone # evs) nh = nh"
| "reconnectionLoop (LoopTick now active # evs) nh =
     reconnectionLoop evs (reconnectDisconnectedPeers now (checkPeerHealth active nh))"

text \<open>A message is a loss of peers, with the answer of \<open>ActivePeers\<close>, or something else.\<close>

datatype noPeersEvent = NoPeersStopClosed | NoPeersCtxDone | NoPeersChannelClosed | NoPeersMessage int "string list option" | OtherMessage

fun noPeersListener :: "noPeersEvent list \<Rightarrow> NetworkHandler \<Rightarrow> NetworkHandler" where
  "noPeersListener [] nh = nh"
| "noPeersListener (NoPeersStopClosed # evs) nh = nh"
| "noPeersListener (NoPeersCtxDone # evs) nh = nh"
| "noPeersListener (NoPeersChannelClosed # evs) nh = nh"
| "noPeersListener (OtherMessage # evs) nh = noPeersListener evs nh"
| "noPeersListener (NoPeersMessage now active # evs) nh =
     noPeersListener evs (if active = Some [] then reconnectDisconnectedPeers now (forceReconnectAll nh) else nh)"

text \<open>Neither goroutine starts without automatic reconnection, nor the listener without a subscription.\<close>

definition startReconnectionLoop :: "reconnectEvent list \<Rightarrow> NetworkHandler \<Rightarrow> NetworkHandler" where
  "startReconnectionLoop evs nh = (if \<not> EnableAutoReconnect (p2pcfg nh) then nh else reconnectionLoop evs nh)"

definition startNoPeersEventListener :: "bool \<Rightarrow> bool \<Rightarrow> noPeersEvent list \<Rightarrow> NetworkHandler \<Rightarrow> NetworkHandler" where
  "startNoPeersEventListener hasNode subscribed evs nh = (if \<not> hasNode \<or> \<not> subscribed then nh else noPeersListener evs nh)"

subsection \<open>The loops take steps of the network\<close>

text \<open>A state in which the loops run: reachable, active, and with the configured reconnection.\<close>

definition looping :: "NetworkHandler \<Rightarrow> bool" where
  "looping nh \<longleftrightarrow> networkActive nh \<and> loopRunning nh"

lemma updObject_loop [simp]: "loopRunning (updObject i f nh) = loopRunning nh"
  by (simp add: updObject_def)

lemma attemptReconnect_sel [simp]:
  "networkActive (attemptReconnect now a nh) = networkActive nh" "loopRunning (attemptReconnect now a nh) = loopRunning nh"
  "peers (attemptReconnect now a nh) = peers nh" "p2pcfg (attemptReconnect now a nh) = p2pcfg nh"
  "length (objects (attemptReconnect now a nh)) = length (objects nh)"
  by (simp_all add: attemptReconnect_def retryEnter_def Let_def split: option.split)

lemma fold_keeps:
  assumes "\<And>x s. f (g x s) = f s"
  shows "f (fold g xs s) = f s"
  by (induction xs arbitrary: s) (simp_all add: assms)

lemma fold_updObject_sel:
  "networkActive (fold (\<lambda>(a, i). updObject i (h a)) ps nh) = networkActive nh"
  "loopRunning (fold (\<lambda>(a, i). updObject i (h a)) ps nh) = loopRunning nh"
  "peers (fold (\<lambda>(a, i). updObject i (h a)) ps nh) = peers nh"
  "p2pcfg (fold (\<lambda>(a, i). updObject i (h a)) ps nh) = p2pcfg nh"
  by (rule fold_keeps, simp add: updObject_def split: prod.split)+

lemma checkPeerHealth_sel [simp]:
  "networkActive (checkPeerHealth active nh) = networkActive nh" "loopRunning (checkPeerHealth active nh) = loopRunning nh"
  "peers (checkPeerHealth active nh) = peers nh" "p2pcfg (checkPeerHealth active nh) = p2pcfg nh"
  by (simp_all add: checkPeerHealth_def fold_updObject_sel split: option.split)

lemma forceReconnectAll_sel [simp]:
  "networkActive (forceReconnectAll nh) = networkActive nh" "loopRunning (forceReconnectAll nh) = loopRunning nh"
  "peers (forceReconnectAll nh) = peers nh" "p2pcfg (forceReconnectAll nh) = p2pcfg nh"
  by (simp_all add: forceReconnectAll_def updPeers_def fold_updObject_sel [where h = "\<lambda>_. f" for f])

lemma fold_attempts:
  assumes "netReach nh" "looping nh"
  shows "netReach (fold (attemptReconnect now) as nh) \<and> looping (fold (attemptReconnect now) as nh)"
  using assms
proof (induction as arbitrary: nh)
  case (Cons a as)
  have "netStep nh (attemptReconnect now a nh)" using Cons.prems(2) by (simp add: looping_def netStep.reconnect)
  then have "netReach (attemptReconnect now a nh)" using Cons.prems(1) netReach.step by blast
  then show ?case using Cons.IH [of "attemptReconnect now a nh"] Cons.prems(2) by (simp add: looping_def)
qed simp

lemma reconnect_after_step:
  assumes "netReach nh" "netStep nh nh'" "looping nh'"
  shows "netReach (reconnectDisconnectedPeers now nh') \<and> looping (reconnectDisconnectedPeers now nh')"
  unfolding reconnectDisconnectedPeers_def using assms netReach.step fold_attempts by blast

lemma tick_steps:
  assumes "netReach nh" "looping nh"
  shows "netReach (reconnectDisconnectedPeers now (checkPeerHealth active nh))
    \<and> looping (reconnectDisconnectedPeers now (checkPeerHealth active nh))"
  using assms by (intro reconnect_after_step [of nh]) (auto simp: looping_def intro: netStep.health)

lemma meshLost_steps:
  assumes "netReach nh" "looping nh"
  shows "netReach (reconnectDisconnectedPeers now (forceReconnectAll nh))
    \<and> looping (reconnectDisconnectedPeers now (forceReconnectAll nh))"
  using assms by (intro reconnect_after_step [of nh]) (auto simp: looping_def intro: netStep.meshLost)

lemma reconnectionLoop_reach: "netReach nh \<Longrightarrow> looping nh \<Longrightarrow> netReach (reconnectionLoop evs nh) \<and> looping (reconnectionLoop evs nh)"
  by (induction evs nh rule: reconnectionLoop.induct) (simp_all add: tick_steps)

lemma noPeersListener_reach: "netReach nh \<Longrightarrow> looping nh \<Longrightarrow> netReach (noPeersListener evs nh) \<and> looping (noPeersListener evs nh)"
  by (induction evs nh rule: noPeersListener.induct) (simp_all add: meshLost_steps)

subsection \<open>What a reconnection achieves\<close>

abbreviation stateAt :: "NetworkHandler \<Rightarrow> nat \<Rightarrow> ConnectionState" where
  "stateAt nh i \<equiv> psState (objects nh ! i)"

lemma attemptReconnect_states:
  assumes inv: "netInv nh" and k: "0 < MaxRetries (p2pcfg nh)" and ai: "(a, i) \<in> set (peers nh)"
  shows "stateAt (attemptReconnect now b nh) i = (if a = b \<and> stateAt nh i \<in> {StateDisconnected, StateFailed} then StateConnecting else stateAt nh i)"
proof (cases "map_of (peers nh) b")
  case None
  with ai have "a \<noteq> b" by (force simp: map_of_eq_None_iff)
  with None show ?thesis by (simp add: attemptReconnect_def)
next
  case (Some j)
  note D = netInvD [OF inv]
  have bj: "(b, j) \<in> set (peers nh)" using Some by (rule map_of_SomeD)
  then have jl: "j < length (objects nh)" and il: "i < length (objects nh)" using D(3) ai by blast+
  have eq: "a = b \<longleftrightarrow> i = j"
    using ai bj D(1,2) by (metis Some eq_key_imp_eq_value inj_on_eq_iff distinct_map snd_conv fst_conv)
  let ?n = "updObject j (\<lambda>p. p\<lparr>psState := StateReconnecting\<rparr>) nh"
  have "map_of (peers ?n) b = Some j" "j < length (objects ?n)" using Some jl by simp_all
  note e = retryEnter_effect(4,7) [where now = now and rest = None, OF this]
  have si: "stateAt (retryEnter now b None ?n) i = (if i = j then StateConnecting else stateAt nh i)"
    using e k il jl by (auto simp: updObject_nth)
  have "stateAt nh j \<noteq> StateReconnecting" using D(5) [OF jl] by (simp add: objOk_def)
  then show ?thesis using Some si eq by (cases "stateAt nh j") (auto simp: attemptReconnect_def)
qed

lemma fold_attempt_states:
  assumes "netInv nh" "0 < MaxRetries (p2pcfg nh)" "(a, i) \<in> set (peers nh)"
  shows "stateAt (fold (attemptReconnect now) bs nh) i
    = (if a \<in> set bs \<and> stateAt nh i \<in> {StateDisconnected, StateFailed} then StateConnecting else stateAt nh i)"
  using assms
proof (induction bs arbitrary: nh)
  case (Cons b bs)
  have "netInv (attemptReconnect now b nh)" by (rule attemptReconnect_inv) (rule Cons.prems)
  from Cons.IH [OF this] Cons.prems attemptReconnect_states [OF Cons.prems, of now b] show ?case by auto
qed simp

text \<open>
  After a tick or a lost mesh every peer of the table is connected or being connected, and a peer
  that was healthy keeps its connection.
\<close>

theorem reconnect_covers_all_peers:
  assumes "netReach nh" "0 < MaxRetries (p2pcfg nh)" "(a, i) \<in> set (peers nh)"
  shows "stateAt (reconnectDisconnectedPeers now nh) i
    = (if stateAt nh i = StateConnected then StateConnected else StateConnecting)"
proof -
  note inv = netReach_inv [OF assms(1)]
  have "i < length (objects nh)" using netInvD(3) [OF inv] assms(3) by blast
  then have "stateAt nh i \<noteq> StateReconnecting" using netInvD(5) [OF inv] by (auto simp: objOk_def)
  moreover have "a \<in> set (disconnectedPeers nh)" if "stateAt nh i \<in> {StateDisconnected, StateFailed}"
    using that assms(3) by (force simp: disconnectedPeers_def)
  ultimately show ?thesis
    unfolding reconnectDisconnectedPeers_def fold_attempt_states [OF inv assms(2,3)] by (cases "stateAt nh i") auto
qed

theorem background_loops_sound:
  assumes "netReach nh" "networkActive nh" "loopRunning nh"
  shows "netInv (startReconnectionLoop ticks nh) \<and> netInv (startNoPeersEventListener hasNode subscribed msgs nh)"
  using assms reconnectionLoop_reach [of nh ticks] noPeersListener_reach [of nh msgs] netReach_inv
  by (auto simp: startReconnectionLoop_def startNoPeersEventListener_def looping_def)

end
