(* ===== verification/Query_Rewrite.thy ===== *)
theory Query_Rewrite
  imports View_Model
begin

text \<open>
  \<open>pkg/graphql\<close>: the rewriting of query texts, block range filters (\<open>addBlockNumberFilterToQuery.go\<close>,
  \<open>withBlockNumberFilterToQuery.go\<close>) and the fields \<open>_docID\<close> and \<open>_version\<close>
  (\<open>withReturnDocIdAndVersion.go\<close>). Positions are byte positions; the loops over runes only look at ASCII
  characters. The pattern \<open>(\w+)\s*(\{|\()\<close> is written out as a matcher.
\<close>

datatype rewrite_error = ErrEmptyQuery | ErrParseCollectionName | ErrNoClosingParen | ErrNoSelectionSet

record collectionFilterConfig =
  rangeFilter :: string
  orderClause :: string

abbreviation blockCol :: string where "blockCol \<equiv> ''Ethereum__Mainnet__Block''"
abbreviation accessListCol :: string where "accessListCol \<equiv> ''Ethereum__Mainnet__AccessListEntry''"

definition withCollectionRangeFilter :: "string \<Rightarrow> nat \<Rightarrow> nat \<Rightarrow> string" where
  "withCollectionRangeFilter collectionName start end =
     (if collectionName = blockCol
      then ''_and: [ { number: { _ge: '' @ showNat start @ '' } }, { number: { _le: '' @ showNat end @ '' } } ]''
      else if collectionName = accessListCol
      then ''_and: [ { transaction: { blockNumber: { _ge: '' @ showNat start @ '' } } }, { transaction: { blockNumber: { _le: ''
             @ showNat end @ '' } } } ]''
      else ''_and: [ { blockNumber: { _ge: '' @ showNat start @ '' } }, { blockNumber: { _le: '' @ showNat end @ '' } } ]'')"

definition getCollectionFilterConfig :: "string \<Rightarrow> nat \<Rightarrow> nat \<Rightarrow> collectionFilterConfig" where
  "getCollectionFilterConfig collectionName start end =
     \<lparr>rangeFilter = withCollectionRangeFilter collectionName start end,
      orderClause = (if collectionName = blockCol then ''order: { number: DESC }''
                     else if collectionName = accessListCol then ''order: { transaction: { blockNumber: DESC } }''
                     else ''order: { blockNumber: DESC }'')\<rparr>"

text \<open>The leftmost match of the pattern: the word and the bracket.\<close>

fun findCollection :: "string \<Rightarrow> (string \<times> char) option" where
  "findCollection [] = None"
| "findCollection (c # cs) =
     (case dropWhile reSpace (dropWhile wordChar (c # cs)) of
        [] \<Rightarrow> findCollection cs
      | b # _ \<Rightarrow> if wordChar c \<and> (b = CHR ''{'' \<or> b = CHR ''('') then Some (takeWhile wordChar (c # cs), b)
                 else findCollection cs)"

text \<open>The position of the parenthesis that closes the first one, from position \<open>i\<close> with \<open>n\<close> open.\<close>

fun closeParen :: "string \<Rightarrow> int \<Rightarrow> nat \<Rightarrow> nat option" where
  "closeParen [] n i = None"
| "closeParen (c # cs) n i =
     (if c = CHR ''('' then closeParen cs (n + 1) (i + 1)
      else if c = CHR '')'' then (if n - 1 = 0 then Some i else closeParen cs (n - 1) (i + 1))
      else closeParen cs n (i + 1))"

definition spliceIntoExistingFilter :: "string \<Rightarrow> collectionFilterConfig \<Rightarrow> rewrite_error + string" where
  "spliceIntoExistingFilter trimmed cfg =
     (case indexByte trimmed (CHR ''('') of
        None \<Rightarrow> Inl ErrNoClosingParen
      | Some filterStart \<Rightarrow>
          (case closeParen (drop filterStart trimmed) 0 filterStart of
             None \<Rightarrow> Inl ErrNoClosingParen
           | Some filterEnd \<Rightarrow>
               (let existing = trimSpace (take (filterEnd - filterStart - 1) (drop (filterStart + 1) trimmed));
                    f1 = rangeFilter cfg @ (if orderClause cfg = [] then [] else '', '' @ orderClause cfg);
                    newFilter = (if existing = [] then f1 else existing @ '', '' @ f1) in
                Inr (take (filterStart + 1) trimmed @ newFilter @ drop filterEnd trimmed))))"

definition insertNewFilter :: "string \<Rightarrow> collectionFilterConfig \<Rightarrow> rewrite_error + string" where
  "insertNewFilter trimmed cfg =
     (case indexByte trimmed (CHR ''{'') of
        None \<Rightarrow> Inl ErrNoSelectionSet
      | Some braceStart \<Rightarrow>
          Inr (take braceStart trimmed
                 @ (if orderClause cfg = [] then ''(filter: { '' @ rangeFilter cfg @ '' })''
                    else ''(filter: { '' @ rangeFilter cfg @ '' }, '' @ orderClause cfg @ '')'')
                 @ drop braceStart trimmed))"

definition rewriteWith :: "(string \<Rightarrow> collectionFilterConfig) \<Rightarrow> string \<Rightarrow> rewrite_error + string" where
  "rewriteWith config query =
     (if query = [] then Inl ErrEmptyQuery
      else
        (let trimmed = trimSpace query in
         case findCollection trimmed of
           None \<Rightarrow> Inl ErrParseCollectionName
         | Some (name, b) \<Rightarrow>
             if b = CHR ''('' then spliceIntoExistingFilter trimmed (config name) else insertNewFilter trimmed (config name)))"

definition AddBlockNumberFilter :: "string \<Rightarrow> nat \<Rightarrow> nat \<Rightarrow> rewrite_error + string" where
  "AddBlockNumberFilter query start end = rewriteWith (\<lambda>name. getCollectionFilterConfig name start end) query"

definition WithBlockNumberFilter :: "string \<Rightarrow> nat \<Rightarrow> nat \<Rightarrow> rewrite_error + string" where
  "WithBlockNumberFilter query start end =
     rewriteWith (\<lambda>name. \<lparr>rangeFilter = withCollectionRangeFilter name start end, orderClause = []\<rparr>) query"

subsection \<open>Adding \<open>_docID\<close> and \<open>_version\<close>\<close>

definition parenCount :: "string \<Rightarrow> int" where
  "parenCount s = int (length (filter (\<lambda>c. c = CHR ''('') s)) - int (length (filter (\<lambda>c. c = CHR '')'') s))"

definition findMainBracePos :: "string \<Rightarrow> nat option" where
  "findMainBracePos query = List.find (\<lambda>i. query ! i = CHR ''{'' \<and> parenCount (take i query) = 0) [0 ..< length query]"

text \<open>The brace loop of \<open>findMatchingCloseBrace\<close> and \<open>removeVersionWithBraces\<close>, with \<open>n\<close> open.\<close>

fun matchBrace :: "string \<Rightarrow> nat \<Rightarrow> nat \<Rightarrow> nat option" where
  "matchBrace [] n i = None"
| "matchBrace (c # cs) n i =
     (if c = CHR ''{'' then matchBrace cs (n + 1) (i + 1)
      else if c = CHR ''}'' then (if n = 1 then Some i else matchBrace cs (n - 1) (i + 1))
      else matchBrace cs n (i + 1))"

definition findMatchingCloseBrace :: "string \<Rightarrow> nat \<Rightarrow> nat option" where
  "findMatchingCloseBrace query openBracePos =
     (if openBracePos \<ge> length query \<or> query ! openBracePos \<noteq> CHR ''{'' then None
      else matchBrace (drop (openBracePos + 1) query) 1 (openBracePos + 1))"

abbreviation completeVersionPattern :: string where
  "completeVersionPattern \<equiv> ''_version { cid signature { type identity value } }''"

definition removeDocIDFromContent :: "string \<Rightarrow> string" where
  "removeDocIDFromContent content =
     (let c = trimSpace content in
      if hasPrefix c ''_docID '' then trimSpace (drop (length ''_docID '') c)
      else if c = ''_docID'' then []
      else if hasPrefix c ''_docID'' then trimSpace (drop (length ''_docID'') c) else c)"

definition removeVersionWithBraces :: "string \<Rightarrow> nat \<Rightarrow> nat \<Rightarrow> string option" where
  "removeVersionWithBraces content versionStart openBracePos =
     (case matchBrace (drop (openBracePos + 1) content) 1 (openBracePos + 1) of
        None \<Rightarrow> None
      | Some closeBrace \<Rightarrow> Some (trimSpace (take versionStart content @ '' '' @ drop (closeBrace + 1) content)))"

definition versionGap :: "char \<Rightarrow> bool" where
  "versionGap c \<longleftrightarrow> c = CHR '' '' \<or> c = CHR 0x0A \<or> c = CHR 0x09"

definition removeIncompleteVersion :: "string \<Rightarrow> string option" where
  "removeIncompleteVersion content =
     (case indexStr content ''_version'' of
        None \<Rightarrow> None
      | Some versionStart \<Rightarrow>
          (let p = versionStart + length ''_version'';
               afterVersion = p + length (takeWhile versionGap (drop p content)) in
           if afterVersion < length content \<and> content ! afterVersion = CHR ''{''
           then removeVersionWithBraces content versionStart afterVersion
           else Some (trimSpace (take versionStart content @ '' '' @ drop afterVersion content))))"

definition removeFallbackVersion :: "string \<Rightarrow> string \<Rightarrow> string" where
  "removeFallbackVersion content pat =
     (case indexStr content ('' '' @ pat @ '' '') of
        Some idx \<Rightarrow> trimSpace (take idx content @ drop (idx + length ('' '' @ pat @ '' '')) content)
      | None \<Rightarrow>
          (case indexStr content ('' '' @ pat) of
             Some idx \<Rightarrow> trimSpace (take idx content @ drop (idx + length ('' '' @ pat)) content)
           | None \<Rightarrow> content))"

definition removeVersionFromContent :: "string \<Rightarrow> string \<Rightarrow> string" where
  "removeVersionFromContent content pat =
     (let c = trimSpace content in
      if hasPrefix c (pat @ '' '') then trimSpace (drop (length (pat @ '' '')) c)
      else if c = pat then []
      else if hasPrefix c pat then trimSpace (drop (length pat) c)
      else (case removeIncompleteVersion c of Some r \<Rightarrow> r | None \<Rightarrow> removeFallbackVersion c pat))"

definition buildNewSelectionSetContent :: "string \<Rightarrow> bool \<Rightarrow> bool \<Rightarrow> string \<Rightarrow> string" where
  "buildNewSelectionSetContent content hasDocID hasCompleteVersion pat =
     (let needDocID = \<not> hasDocID; needVersion = \<not> hasCompleteVersion; hasVersion = containsStr content ''_version'';
          r1 = trimSpace content;
          r2 = (if hasDocID \<and> \<not> needDocID then removeDocIDFromContent r1 else r1);
          r3 = (if hasVersion \<and> needVersion then removeVersionFromContent r2 pat else r2);
          hasRemaining = r3 \<noteq> [] in
      (if needDocID \<or> hasDocID then ''_docID '' else [])
        @ (if needVersion then pat else [])
        @ (if needVersion \<and> hasRemaining \<or> hasVersion \<and> needDocID then '' '' else [])
        @ (if hasRemaining then r3 else []))"

definition addDocIDAndVersionToSelectionSets :: "string \<Rightarrow> string" where
  "addDocIDAndVersionToSelectionSets query =
     (case findMainBracePos query of
        None \<Rightarrow> query
      | Some mainBracePos \<Rightarrow>
          (case findMatchingCloseBrace query mainBracePos of
             None \<Rightarrow> query
           | Some closeBracePos \<Rightarrow>
               (let contentStart = mainBracePos + 1;
                    content = take (closeBracePos - contentStart) (drop contentStart query);
                    hasDocID = containsStr content ''_docID'';
                    hasCompleteVersion = containsStr content completeVersionPattern in
                if hasDocID \<and> hasCompleteVersion then query
                else take contentStart query
                  @ buildNewSelectionSetContent content hasDocID hasCompleteVersion completeVersionPattern
                  @ drop closeBracePos query)))"

definition WithReturnDocIDAndVersion :: "string \<Rightarrow> rewrite_error + string" where
  "WithReturnDocIDAndVersion query =
     (if query = [] then Inl ErrEmptyQuery
      else if trimSpace query = [] then Inl ErrEmptyQuery
      else Inr (addDocIDAndVersionToSelectionSets (trimSpace query)))"

subsection \<open>Trimming\<close>

lemma trimSpace_decomp: "\<exists>u v. s = u @ trimSpace s @ v \<and> list_all isSpace u \<and> list_all isSpace v"
proof -
  let ?t = "dropWhile isSpace s"
  have "s = takeWhile isSpace s @ ?t" by simp
  moreover have "?t = trimSpace s @ rev (takeWhile isSpace (rev ?t))"
    unfolding trimSpace_def by (metis rev_append rev_rev_ident takeWhile_dropWhile_id)
  ultimately show ?thesis by (metis append.assoc list_all_iff set_rev set_takeWhileD)
qed

lemma trim_not_space_ends: "trimSpace s \<noteq> [] \<Longrightarrow> \<not> isSpace (hd (trimSpace s)) \<and> \<not> isSpace (last (trimSpace s))"
proof -
  assume n: "trimSpace s \<noteq> []"
  let ?t = "dropWhile isSpace s"
  have l: "\<not> isSpace (last (trimSpace s))"
    using n hd_dropWhile [of isSpace "rev ?t"] unfolding trimSpace_def by (simp add: last_rev)
  obtain v where v: "?t = trimSpace s @ v" unfolding trimSpace_def by (metis rev_append rev_rev_ident takeWhile_dropWhile_id)
  then have "?t \<noteq> []" "hd ?t = hd (trimSpace s)" using n by auto
  with l hd_dropWhile [of isSpace s] show ?thesis by simp
qed

lemma trimSpace_id: "s \<noteq> [] \<Longrightarrow> \<not> isSpace (hd s) \<Longrightarrow> \<not> isSpace (last s) \<Longrightarrow> trimSpace s = s"
proof -
  assume a: "s \<noteq> []" "\<not> isSpace (hd s)" "\<not> isSpace (last s)"
  have "dropWhile isSpace s = s" using a(1,2) by (cases s) simp_all
  moreover have "dropWhile isSpace (rev s) = rev s" using a(1,3) by (cases s rule: rev_cases) simp_all
  ultimately show ?thesis by (simp add: trimSpace_def)
qed

subsection \<open>Brace depth\<close>

text \<open>The depth after a text that starts at depth \<open>n\<close>, none when it closes the last brace.\<close>

fun depth :: "string \<Rightarrow> nat \<Rightarrow> nat option" where
  "depth [] n = Some n"
| "depth (c # cs) n =
     (if c = CHR ''{'' then depth cs (n + 1)
      else if c = CHR ''}'' then (if n = 1 then None else depth cs (n - 1))
      else depth cs n)"

definition balanced :: "string \<Rightarrow> bool" where
  "balanced s \<longleftrightarrow> depth s 1 = Some 1"

definition plain :: "string \<Rightarrow> bool" where
  "plain s \<longleftrightarrow> CHR ''{'' \<notin> set s \<and> CHR ''}'' \<notin> set s"

lemma depth_append: "depth (a @ b) n = (case depth a n of None \<Rightarrow> None | Some m \<Rightarrow> depth b m)"
  by (induction a n rule: depth.induct) auto

lemma depth_pos: "depth s n = Some m \<Longrightarrow> 0 < n \<Longrightarrow> 0 < m"
  by (induction s n rule: depth.induct) (auto split: if_splits)

lemma depth_shift: "depth s n = Some m \<Longrightarrow> 0 < n \<Longrightarrow> depth s (n + k) = Some (m + k)"
proof (induction s n rule: depth.induct)
  case (2 c cs n)
  then show ?case by (cases "n = 1") (auto split: if_splits)
qed simp

lemma closed_depth: "balanced s \<Longrightarrow> 0 < n \<Longrightarrow> depth s n = Some n"
  using depth_shift [of s 1 1 "n - 1"] by (simp add: balanced_def)

lemma plain_closed: "plain s \<Longrightarrow> balanced s"
proof -
  have "plain s \<Longrightarrow> depth s n = Some n" for n by (induction s n rule: depth.induct) (auto simp: plain_def)
  then show "plain s \<Longrightarrow> balanced s" by (simp add: balanced_def)
qed

lemma closed_append: "balanced a \<Longrightarrow> balanced b \<Longrightarrow> balanced (a @ b)"
  by (simp add: balanced_def depth_append)

lemma closed_cut: "balanced (a @ s @ b) \<Longrightarrow> balanced s \<Longrightarrow> balanced (a @ b)"
proof -
  assume c: "balanced (a @ s @ b)" "balanced s"
  then obtain m where m: "depth a 1 = Some m" by (auto simp: balanced_def depth_append split: option.splits)
  have "0 < m" by (rule depth_pos [OF m]) simp
  with c m closed_depth [OF c(2)] show ?thesis by (simp add: balanced_def depth_append)
qed

lemma braces_not_space: "\<not> isSpace (CHR ''{'')" "\<not> isSpace (CHR ''}'')"
  by (simp_all add: isSpace_def)

lemma spaces_plain: "list_all isSpace s \<Longrightarrow> plain s"
  using braces_not_space unfolding plain_def list_all_iff by blast

lemma closed_trim: "balanced s \<Longrightarrow> balanced (trimSpace s)"
proof -
  assume c: "balanced s"
  obtain u v where uv: "s = u @ trimSpace s @ v" "list_all isSpace u" "list_all isSpace v" using trimSpace_decomp by blast
  from uv have "balanced u" "balanced v" by (simp_all add: spaces_plain plain_closed)
  with c uv(1) closed_cut [of "[]" u "trimSpace s @ v"] closed_cut [of "trimSpace s" v "[]"] show ?thesis by simp
qed

lemma matchBrace_split:
  "matchBrace s n i = Some j \<Longrightarrow> 0 < n \<Longrightarrow>
     \<exists>inner rest. s = inner @ CHR ''}'' # rest \<and> depth inner n = Some 1 \<and> j = i + length inner"
proof (induction s n i rule: matchBrace.induct)
  case (2 c cs n i)
  show ?case
  proof (cases "c = CHR ''}'' \<and> n = 1")
    case True
    with 2 show ?thesis by (intro exI [of _ "[]"] exI [of _ cs]) auto
  next
    case False
    define n' where "n' = (if c = CHR ''{'' then n + 1 else if c = CHR ''}'' then n - 1 else n)"
    have "matchBrace cs n' (i + 1) = Some j" "0 < n'" using 2 False by (auto simp: n'_def split: if_splits)
    then obtain inner rest where "cs = inner @ CHR ''}'' # rest" "depth inner n' = Some 1" "j = i + 1 + length inner"
      using 2 False by (auto simp: n'_def split: if_splits)
    with False show ?thesis by (intro exI [of _ "c # inner"] exI [of _ rest]) (auto simp: n'_def)
  qed
qed simp

lemma matchBrace_found: "depth inner n = Some 1 \<Longrightarrow> 0 < n \<Longrightarrow> matchBrace (inner @ CHR ''}'' # rest) n i = Some (i + length inner)"
  by (induction inner n arbitrary: i rule: depth.induct) (auto split: if_splits)

lemma braces_closed: "depth inner 1 = Some 1 \<Longrightarrow> balanced (''{'' @ inner @ ''}'')"
  using depth_shift [of inner 1 1 1] by (simp add: balanced_def depth_append)

subsection \<open>What the removals keep\<close>

lemma closed_dropPrefix: "balanced c \<Longrightarrow> hasPrefix c p \<Longrightarrow> balanced p \<Longrightarrow> balanced (trimSpace (drop (length p) c))"
  using closed_cut [of "[]" p "drop (length p) c"] hasPrefixD [of c p] by (intro closed_trim) simp

lemma closed_space_cut: "balanced (a @ s @ b) \<Longrightarrow> balanced s \<Longrightarrow> balanced (trimSpace (a @ '' '' @ b))"
proof -
  assume "balanced (a @ s @ b)" "balanced s"
  then have c: "balanced (a @ b)" by (rule closed_cut)
  then obtain m where m: "depth a 1 = Some m" by (auto simp: balanced_def depth_append split: option.splits)
  with c have "balanced (a @ '' '' @ b)" by (simp add: balanced_def depth_append)
  then show ?thesis by (rule closed_trim)
qed

lemma balanced_if: "(P \<Longrightarrow> balanced a) \<Longrightarrow> (\<not> P \<Longrightarrow> balanced b) \<Longrightarrow> balanced (if P then a else b)"
  by simp

lemma removeDocID_closed: "balanced c \<Longrightarrow> balanced (removeDocIDFromContent c)"
proof -
  assume "balanced c"
  then have t: "balanced (trimSpace c)" by (rule closed_trim)
  have p: "balanced ''_docID ''" "balanced ''_docID''" "balanced []" by (simp_all add: balanced_def)
  show ?thesis
    unfolding removeDocIDFromContent_def Let_def by (intro balanced_if closed_dropPrefix t p)
qed

lemma removeIncomplete_closed:
  assumes "balanced c" "removeIncompleteVersion c = Some r"
  shows "balanced r"
proof -
  from assms(2) obtain vs where vs: "indexStr c ''_version'' = Some vs" by (auto simp: removeIncompleteVersion_def split: option.splits)
  define p where "p = vs + length ''_version''"
  define g where "g = takeWhile versionGap (drop p c)"
  define b where "b = dropWhile versionGap (drop p c)"
  have c: "c = take vs c @ ''_version'' @ g @ b"
    using indexStr_SomeD [OF vs] by (simp add: p_def g_def b_def)
  have after: "p + length g \<le> length c" "drop (p + length g) c = b" "take vs c @ ''_version'' @ g = take (p + length g) c"
  proof -
    have "length c = length (take vs c) + (8 + length (drop (vs + 8) c))"
      using arg_cong [OF indexStr_SomeD [OF vs], of length] by simp
    then have "length (take vs c) = vs" by (simp add: min_def split: if_splits)
    then have l: "length (take vs c @ ''_version'' @ g) = p + length g" by (simp add: p_def)
    show "p + length g \<le> length c" using c l by (metis append.assoc le_add1 length_append)
    show "drop (p + length g) c = b" using c l by (metis append.assoc append_eq_conv_conj)
    show "take vs c @ ''_version'' @ g = take (p + length g) c" using c l by (metis append.assoc append_eq_conv_conj)
  qed
  have gap: "balanced (''_version'' @ g)"
    unfolding g_def by (intro plain_closed) (auto simp: plain_def versionGap_def dest!: set_takeWhileD)
  show ?thesis
  proof (cases "p + length g < length c \<and> c ! (p + length g) = CHR ''{''")
    case True
    with after(2) have b: "b = CHR ''{'' # drop (p + length g + 1) c" by (metis Cons_nth_drop_Suc Suc_eq_plus1)
    from assms(2) vs True obtain j where
      j: "matchBrace (drop (p + length g + 1) c) 1 (p + length g + 1) = Some j" "r = trimSpace (take vs c @ '' '' @ drop (j + 1) c)"
      by (auto simp: removeIncompleteVersion_def removeVersionWithBraces_def Let_def p_def g_def split: option.splits)
    from matchBrace_split [OF j(1)] obtain inner rest where
      i: "drop (p + length g + 1) c = inner @ CHR ''}'' # rest" "depth inner 1 = Some 1" "j = p + length g + 1 + length inner" by auto
    have "drop (j + 1) c = rest"
    proof -
      have "drop (j + 1) c = drop (length inner + 1) (drop (p + length g + 1) c)" unfolding i(3) drop_drop by (simp add: ac_simps)
      then show ?thesis unfolding i(1) by simp
    qed
    moreover have "c = take vs c @ (''_version'' @ g @ ''{'' @ inner @ ''}'') @ rest" using c b i(1) by simp
    moreover have "balanced (''_version'' @ g @ ''{'' @ inner @ ''}'')"
      using closed_append [OF gap braces_closed [OF i(2)]] by simp
    ultimately show ?thesis using closed_space_cut [of "take vs c" "''_version'' @ g @ ''{'' @ inner @ ''}''" rest] assms(1) j(2) by simp
  next
    case False
    with assms(2) vs have "r = trimSpace (take vs c @ '' '' @ drop (p + length g) c)"
      by (auto simp: removeIncompleteVersion_def Let_def p_def g_def split: if_splits)
    with closed_space_cut [of "take vs c" "''_version'' @ g" b] gap assms(1) c after(2) show ?thesis by simp
  qed
qed

lemma removeFallback_closed: "balanced c \<Longrightarrow> balanced pat \<Longrightarrow> balanced (removeFallbackVersion c pat)"
proof -
  assume c: "balanced c" and p: "balanced pat"
  have s: "balanced ('' '' @ pat @ '' '')" "balanced ('' '' @ pat)"
    using p by (auto intro!: closed_append simp: balanced_def depth_append)
  have "balanced (take i c @ drop (i + length q) c)" if "indexStr c q = Some i" "balanced q" for q i
    using indexStr_SomeD [OF that(1)] closed_cut [of "take i c" q "drop (i + length q) c"] that(2) c by simp
  from this [OF _ s(1)] this [OF _ s(2)] c show ?thesis
    unfolding removeFallbackVersion_def
    by (cases "indexStr c ('' '' @ pat @ '' '')"; cases "indexStr c ('' '' @ pat)") (simp_all only: option.case closed_trim)
qed

lemma removeVersion_closed: "balanced c \<Longrightarrow> balanced pat \<Longrightarrow> balanced (removeVersionFromContent c pat)"
proof -
  assume c: "balanced c" and p: "balanced pat"
  have t: "balanced (trimSpace c)" using c by (rule closed_trim)
  have s: "balanced (pat @ '' '')" "balanced []" using p by (auto simp: balanced_def depth_append)
  have r: "balanced (case removeIncompleteVersion (trimSpace c) of Some r \<Rightarrow> r | None \<Rightarrow> removeFallbackVersion (trimSpace c) pat)"
    using removeIncomplete_closed [OF t] removeFallback_closed [OF t p] by (auto split: option.split)
  show ?thesis
    unfolding removeVersionFromContent_def Let_def by (intro balanced_if closed_dropPrefix t s p r)
qed

subsection \<open>The new selection set\<close>

lemma pattern_balanced: "balanced completeVersionPattern"
  by (simp add: balanced_def)

lemma newContent_balanced:
  assumes "balanced content"
  shows "balanced (buildNewSelectionSetContent content d v completeVersionPattern)"
proof -
  have p: "balanced ''_docID ''" "balanced '' ''" "balanced []" by (simp_all add: balanced_def)
  show ?thesis
    unfolding buildNewSelectionSetContent_def Let_def
    by (intro closed_append balanced_if p pattern_balanced removeVersion_closed removeDocID_closed closed_trim assms)
qed

lemma containsStr_trim:
  assumes "containsStr s p" "p \<noteq> []" "\<not> isSpace (hd p)" "\<not> isSpace (last p)"
  shows "containsStr (trimSpace s) p"
proof -
  from assms(1) obtain a b where s: "s = a @ p @ b" unfolding containsStr_iff by blast
  have d: "dropWhile isSpace s = dropWhile isSpace a @ p @ b \<or> (\<exists>a'. dropWhile isSpace s = a' @ p @ b)"
  proof (cases "list_all isSpace a")
    case True
    then have "dropWhile isSpace s = dropWhile isSpace (p @ b)" unfolding s by (auto simp: list_all_iff)
    also have "\<dots> = p @ b" using assms(2,3) by (cases p) simp_all
    finally show ?thesis by (intro disjI2 exI [of _ "[]"]) simp
  next
    case False
    then obtain x where "x \<in> set a" "\<not> isSpace x" by (auto simp: list_all_iff)
    then show ?thesis unfolding s by (simp add: dropWhile_append1)
  qed
  then obtain a' where a': "dropWhile isSpace s = a' @ p @ b" by blast
  have "\<exists>b'. rev (dropWhile isSpace (rev (a' @ p @ b))) = a' @ p @ b'"
  proof (cases "list_all isSpace b")
    case True
    then have "dropWhile isSpace (rev (a' @ p @ b)) = dropWhile isSpace (rev p @ rev a')"
      using dropWhile_append2 [of "rev b" isSpace "rev p @ rev a'"] by (simp add: list_all_iff)
    also have "\<dots> = rev p @ rev a'" using assms(2,4) by (cases p rule: rev_cases) simp_all
    finally show ?thesis by (intro exI [of _ "[]"]) simp
  next
    case False
    then obtain x where "x \<in> set (rev b)" "\<not> isSpace x" by (auto simp: list_all_iff)
    then have "dropWhile isSpace (rev b @ rev p @ rev a') = dropWhile isSpace (rev b) @ rev p @ rev a'" by (rule dropWhile_append1)
    then show ?thesis by auto
  qed
  then show ?thesis unfolding containsStr_iff trimSpace_def a' by blast
qed

lemma newContent_complete:
  assumes "\<not> (containsStr content ''_docID'' \<and> containsStr content completeVersionPattern)"
    and n: "n = buildNewSelectionSetContent content (containsStr content ''_docID'') (containsStr content completeVersionPattern) completeVersionPattern"
  shows "containsStr n ''_docID'' \<and> containsStr n completeVersionPattern"
proof (cases "containsStr content completeVersionPattern")
  case False
  then have "\<exists>r. n = ''_docID '' @ completeVersionPattern @ r" unfolding n buildNewSelectionSetContent_def Let_def by simp
  then obtain r where r: "n = [] @ ''_docID'' @ '' '' @ completeVersionPattern @ r" "n = ''_docID '' @ completeVersionPattern @ r" by auto
  from r(1) have "containsStr n ''_docID''" unfolding containsStr_iff by blast
  moreover from r(2) have "containsStr n completeVersionPattern" unfolding containsStr_iff by blast
  ultimately show ?thesis by blast
next
  case True
  with assms(1) have d: "\<not> containsStr content ''_docID''" by simp
  have t: "containsStr (trimSpace content) completeVersionPattern"
    by (rule containsStr_trim [OF True]) (simp_all add: isSpace_def)
  then have "trimSpace content \<noteq> []" unfolding containsStr_iff by auto
  with True d have "\<exists>w. n = ''_docID '' @ w @ trimSpace content" unfolding n buildNewSelectionSetContent_def Let_def by simp
  then obtain w where w: "n = [] @ ''_docID'' @ '' '' @ w @ trimSpace content" "n = (''_docID '' @ w) @ trimSpace content" by auto
  from w(1) have "containsStr n ''_docID''" unfolding containsStr_iff by blast
  moreover have "containsStr n completeVersionPattern"
    using t unfolding containsStr_iff w(2) by (metis append.assoc)
  ultimately show ?thesis by blast
qed

subsection \<open>The main selection set\<close>

definition mainBraceAt :: "string \<Rightarrow> nat \<Rightarrow> bool" where
  "mainBraceAt q i \<longleftrightarrow> q ! i = CHR ''{'' \<and> parenCount (take i q) = 0"

lemma find_upt_Some:
  "List.find P [0 ..< n] = Some i \<longleftrightarrow> i < n \<and> P i \<and> (\<forall>j < i. \<not> P j)"
  by (auto simp: find_Some_iff intro: exI [of _ i])

lemma findMain_iff: "findMainBracePos q = Some m \<longleftrightarrow> m < length q \<and> mainBraceAt q m \<and> (\<forall>j < m. \<not> mainBraceAt q j)"
  unfolding findMainBracePos_def find_upt_Some mainBraceAt_def ..

lemma mainBraceAt_prefix: "i < length u \<Longrightarrow> mainBraceAt (u @ x) i = mainBraceAt (u @ y) i"
  by (simp add: mainBraceAt_def nth_append)

lemma findMain_prefix: "findMainBracePos (u @ x) = Some m \<Longrightarrow> length u = m + 1 \<Longrightarrow> findMainBracePos (u @ y) = Some m"
  unfolding findMain_iff using mainBraceAt_prefix [of _ u x y] by auto

text \<open>A query with a main selection set: what is before it, its content, and the rest.\<close>

lemma main_selection:
  assumes "findMainBracePos q = Some m" "findMatchingCloseBrace q m = Some k"
  obtains u content rest where "q = u @ content @ CHR ''}'' # rest" "length u = m + 1" "balanced content"
    "k = m + 1 + length content" "u = take (m + 1) q" "content = take (k - (m + 1)) (drop (m + 1) q)" "CHR ''}'' # rest = drop k q"
proof -
  have m: "m < length q" "q ! m = CHR ''{''" using assms(1) by (auto simp: findMain_iff mainBraceAt_def)
  with assms(2) have "matchBrace (drop (m + 1) q) 1 (m + 1) = Some k" by (simp add: findMatchingCloseBrace_def)
  from matchBrace_split [OF this] obtain content rest where
    c: "drop (m + 1) q = content @ CHR ''}'' # rest" "depth content 1 = Some 1" "k = m + 1 + length content" by auto
  show thesis
  proof (rule that)
    show "q = take (m + 1) q @ content @ CHR ''}'' # rest" by (metis append_take_drop_id c(1))
    show "CHR ''}'' # rest = drop k q"
    proof -
      have "drop k q = drop (length content) (drop (m + 1) q)" unfolding c(3) drop_drop by (simp add: ac_simps)
      then show ?thesis unfolding c(1) by simp
    qed
    show "content = take (k - (m + 1)) (drop (m + 1) q)" unfolding c(1) c(3) by simp
  qed (use m c in \<open>simp_all add: balanced_def\<close>)
qed

lemma closeBrace_of:
  assumes "length u = m + 1" "u ! m = CHR ''{''" "balanced content"
  shows "findMatchingCloseBrace (u @ content @ CHR ''}'' # rest) m = Some (m + 1 + length content)"
proof -
  have "drop (m + 1) (u @ content @ CHR ''}'' # rest) = content @ CHR ''}'' # rest" using assms(1) by simp
  moreover have "(u @ content @ CHR ''}'' # rest) ! m = CHR ''{''" using assms(1,2) by (simp add: nth_append)
  ultimately show ?thesis
    using matchBrace_found [of content 1 rest "m + 1"] assms(1,3) by (simp add: findMatchingCloseBrace_def balanced_def)
qed

lemma rewritten:
  assumes "findMainBracePos q = Some m" "findMatchingCloseBrace q m = Some k"
  obtains u n rest where "addDocIDAndVersionToSelectionSets q = u @ n @ CHR ''}'' # rest" "length u = m + 1" "balanced n"
    "containsStr n ''_docID''" "containsStr n completeVersionPattern" "findMainBracePos (u @ n @ CHR ''}'' # rest) = Some m"
    "hd q = hd u" "last q = last (CHR ''}'' # rest)"
proof -
  from main_selection [OF assms] obtain u content rest where
    q: "q = u @ content @ CHR ''}'' # rest" "length u = m + 1" "balanced content" "u = take (m + 1) q"
      "content = take (k - (m + 1)) (drop (m + 1) q)" "CHR ''}'' # rest = drop k q" by blast
  let ?d = "containsStr content ''_docID''" and ?v = "containsStr content completeVersionPattern"
  define n where "n = (if ?d \<and> ?v then content else buildNewSelectionSetContent content ?d ?v completeVersionPattern)"
  have "addDocIDAndVersionToSelectionSets q
      = (if ?d \<and> ?v then q else u @ buildNewSelectionSetContent content ?d ?v completeVersionPattern @ CHR ''}'' # rest)"
    unfolding addDocIDAndVersionToSelectionSets_def assms option.case Let_def q(4-6) [symmetric] by (rule refl)
  then have "addDocIDAndVersionToSelectionSets q = u @ n @ CHR ''}'' # rest" unfolding n_def using q(1) by (cases "?d \<and> ?v") auto
  moreover have "balanced n" unfolding n_def by (intro balanced_if q(3) newContent_balanced)
  moreover have "containsStr n ''_docID'' \<and> containsStr n completeVersionPattern"
    using newContent_complete [of content n] unfolding n_def by (cases "?d \<and> ?v") simp_all
  moreover have "findMainBracePos (u @ n @ CHR ''}'' # rest) = Some m"
    using findMain_prefix [of u "content @ CHR ''}'' # rest" m] assms(1) q(1,2) by simp
  moreover have "hd q = hd u" "last q = last (CHR ''}'' # rest)" using q(1,2) by (auto simp: hd_append last_append)
  ultimately show thesis using that q(2) by blast
qed

lemma rewritten_fixed:
  assumes "length u = m + 1" "balanced n" "containsStr n ''_docID''" "containsStr n completeVersionPattern"
    "findMainBracePos (u @ n @ CHR ''}'' # rest) = Some m"
  shows "addDocIDAndVersionToSelectionSets (u @ n @ CHR ''}'' # rest) = u @ n @ CHR ''}'' # rest"
proof -
  let ?q = "u @ n @ CHR ''}'' # rest"
  have "?q ! m = CHR ''{''" using assms(5) unfolding findMain_iff mainBraceAt_def by blast
  then have "u ! m = CHR ''{''" using assms(1) by (simp add: nth_append)
  from closeBrace_of [OF assms(1) this assms(2)] have
    "findMatchingCloseBrace ?q m = Some (m + 1 + length n)" .
  moreover have "take (m + 1 + length n - (m + 1)) (drop (m + 1) ?q) = n" using assms(1) by simp
  ultimately show ?thesis using assms(3-5) unfolding addDocIDAndVersionToSelectionSets_def Let_def by simp
qed

subsection \<open>Properties\<close>



text \<open>The comment promises no duplicates, but a \<open>_docID\<close> that is not the first field stays.\<close>

lemma docid_duplicated:
  "WithReturnDocIDAndVersion ''Log { address _docID }''
     = Inr ''Log {_docID _version { cid signature { type identity value } } address _docID}''"
  by code_simp

text \<open>
  A query that already has arguments gets the range beside its \<open>filter\<close> argument, where GraphQL
  takes it for an argument of its own.
\<close>

lemma range_beside_filter:
  "WithBlockNumberFilter ''Log(filter: { a: 1 }) { x }'' 1 2
     = Inr ''Log(filter: { a: 1 }, _and: [ { blockNumber: { _ge: 1 } }, { blockNumber: { _le: 2 } } ]) { x }''"
  by code_simp

text \<open>
  A query without arguments is kept as it is, and the filter on exactly the requested range is put
  before its selection set.
\<close>

theorem range_filter_inserted:
  assumes "findCollection (trimSpace q) = Some (name, CHR ''{'')"
  shows "\<exists>u v. trimSpace q = u @ CHR ''{'' # v \<and> CHR ''{'' \<notin> set u
    \<and> WithBlockNumberFilter q s e = Inr (u @ ''(filter: { '' @ withCollectionRangeFilter name s e @ '' })'' @ CHR ''{'' # v)
    \<and> AddBlockNumberFilter q s e = Inr (u @ ''(filter: { '' @ withCollectionRangeFilter name s e @ '' }, ''
         @ orderClause (getCollectionFilterConfig name s e) @ '')'' @ CHR ''{'' # v)"
proof -
  have "CHR ''{'' \<in> set t" if "findCollection t = Some (name, CHR ''{'')" for t
    using that
  proof (induction t rule: findCollection.induct)
    case (2 c cs)
    show ?case
    proof (cases "dropWhile reSpace (dropWhile wordChar (c # cs))")
      case (Cons b bs)
      then have "b \<in> set (c # cs)" by (metis list.set_intros(1) set_dropWhileD)
      with 2 Cons show ?thesis by (auto split: if_splits)
    next
      case Nil
      then have "findCollection (c # cs) = findCollection cs" unfolding findCollection.simps(2) Nil by simp
      with "2.IH"(1) [OF Nil] "2.prems" show ?thesis by (metis list.set_intros(2))
    qed
  qed simp
  then obtain i where i: "indexByte (trimSpace q) (CHR ''{'') = Some i" using assms indexByte_None_iff by (metis option.exhaust)
  from indexByte_SomeD [OF i] have u: "trimSpace q = take i (trimSpace q) @ CHR ''{'' # drop (i + 1) (trimSpace q)"
    "CHR ''{'' \<notin> set (take i (trimSpace q))" using id_take_nth_drop [of i "trimSpace q"] by simp_all
  have d: "drop i (trimSpace q) = CHR ''{'' # drop (i + 1) (trimSpace q)" using u(1) by (metis append_same_eq append_take_drop_id same_append_eq)
  have ne: "q \<noteq> []" using assms by (auto simp: trimSpace_def)
  have o: "orderClause (getCollectionFilterConfig name s e) \<noteq> []"
    "rangeFilter (getCollectionFilterConfig name s e) = withCollectionRangeFilter name s e" by (simp_all add: getCollectionFilterConfig_def)
  show ?thesis
    by (intro exI [of _ "take i (trimSpace q)"] exI [of _ "drop (i + 1) (trimSpace q)"] conjI u)
      (simp_all add: WithBlockNumberFilter_def AddBlockNumberFilter_def rewriteWith_def Let_def assms ne insertNewFilter_def i o d)
qed

end
