(* ===== verification/Query_Service.thy ===== *)
theory Query_Service
  imports Query_Rewrite
begin

text \<open>
  \<open>pkg/host/queryService.go\<close>: query texts built from the fields of the collections' Go types
  (\<open>pkg/constants/block.go\<close>, \<open>transaction.go\<close>, \<open>log.go\<close>, \<open>accessListEntry.go\<close>, \<open>version.go\<close>). Reflection is the table of
  the types' fields: the JSON tag and the kind of the field's type. A map of filters is the list of its
  entries in the order Go iterates it.
\<close>

datatype goStruct = SBlock | STransaction | SLog | SAccessListEntry | SVersion | SSignature

datatype fieldKind = PlainField | StructField goStruct | SliceField goStruct

definition plainFields :: "string list \<Rightarrow> (string \<times> fieldKind) list" where
  "plainFields ts = map (\<lambda>t. (t, PlainField)) ts"

definition blockFields :: "(string \<times> fieldKind) list" where
  "blockFields =
     plainFields [''hash'', ''number'', ''timestamp'', ''parentHash'', ''difficulty'', ''totalDifficulty'', ''gasUsed'',
        ''gasLimit'', ''baseFeePerGas'', ''nonce'', ''miner'', ''size'', ''stateRoot'', ''sha3Uncles'', ''transactionsRoot'',
        ''receiptsRoot'', ''logsBloom'', ''extraData'', ''mixHash'', ''uncles'']
     @ [(''transactions'', SliceField STransaction), (''_version'', SliceField SVersion), (''_docID'', PlainField)]"

definition transactionFields :: "(string \<times> fieldKind) list" where
  "transactionFields =
     plainFields [''hash'', ''blockHash'', ''blockNumber'', ''from'', ''to'', ''value'', ''gas'', ''gasPrice'',
        ''maxFeePerGas'', ''maxPriorityFeePerGas'', ''input'', ''nonce'', ''transactionIndex'', ''type'', ''chainId'', ''v'', ''r'', ''s'',
        ''status'', ''cumulativeGasUsed'', ''effectiveGasPrice'']
     @ [(''block'', StructField SBlock), (''logs'', SliceField SLog), (''accessList'', SliceField SAccessListEntry),
        (''_version'', SliceField SVersion), (''_docID'', PlainField)]"

definition logFields :: "(string \<times> fieldKind) list" where
  "logFields =
     plainFields [''address'', ''topics'', ''data'', ''transactionHash'', ''blockHash'', ''blockNumber'',
        ''transactionIndex'', ''logIndex'', ''removed'']
     @ [(''block'', StructField SBlock), (''transaction'', StructField STransaction), (''_version'', SliceField SVersion), (''_docID'', PlainField)]"

definition accessListFields :: "(string \<times> fieldKind) list" where
  "accessListFields =
     [(''address'', PlainField), (''storageKeys'', PlainField), (''transaction'', StructField STransaction),
      (''_version'', SliceField SVersion), (''_docID'', PlainField)]"

definition versionFields :: "(string \<times> fieldKind) list" where
  "versionFields = [(''cid'', PlainField), (''signature'', StructField SSignature), (''collectionVersionId'', PlainField)]"

fun goFields :: "goStruct \<Rightarrow> (string \<times> fieldKind) list" where
  "goFields SBlock = blockFields"
| "goFields STransaction = transactionFields"
| "goFields SLog = logFields"
| "goFields SAccessListEntry = accessListFields"
| "goFields SVersion = versionFields"
| "goFields SSignature = plainFields [''type'', ''identity'', ''value'']"

text \<open>All tags are set and none is \<open>-\<close>, so every field counts.\<close>

definition extractNestedFields :: "goStruct \<Rightarrow> string list" where
  "extractNestedFields t = map fst (goFields t)"

definition extractFields :: "goStruct \<Rightarrow> string list" where
  "extractFields t =
     concat (map (\<lambda>(tag, kind).
        (case kind of PlainField \<Rightarrow> [] | StructField u \<Rightarrow> extractNestedFields u | SliceField u \<Rightarrow> extractNestedFields u) @ [tag]) (goFields t))"

type_synonym CollectionType = string

definition initializeFieldMappings :: "(string \<times> string list) list" where
  "initializeFieldMappings =
     [(''Block'', extractFields SBlock), (''Transaction'', extractFields STransaction), (''Log'', extractFields SLog),
      (''AccessListEntry'', extractFields SAccessListEntry)]"

definition GetFieldsForCollection :: "CollectionType \<Rightarrow> string list" where
  "GetFieldsForCollection t =
     (case map_of initializeFieldMappings t of
        None \<Rightarrow> [''_docID'', ''_version'']
      | Some fs \<Rightarrow> [''_docID'', ''_version''] @ fs)"

definition getCollectionName :: "CollectionType \<Rightarrow> string" where
  "getCollectionName t =
     (if t \<in> {''Block'', ''Transaction'', ''Log'', ''AccessListEntry''} then ''Ethereum__Mainnet__'' @ t else t)"

text \<open>The values of a filter; \<open>FVOther\<close> carries the text of \<open>%v\<close> and \<open>FVFloat\<close> that of \<open>%f\<close>.\<close>

datatype filterValue = FVString string | FVInt int | FVFloat string | FVBool bool | FVOther string

definition joinWith :: "string \<Rightarrow> string list \<Rightarrow> string" where
  "joinWith sep xs = (case xs of [] \<Rightarrow> [] | y # ys \<Rightarrow> y @ concat (map (\<lambda>z. sep @ z) ys))"

definition filterPair :: "string \<times> filterValue \<Rightarrow> string" where
  "filterPair p =
     fst p @ '': {_eq: ''
       @ (case snd p of
            FVString v \<Rightarrow> [CHR 0x22] @ v @ [CHR 0x22]
          | FVInt i \<Rightarrow> showInt i
          | FVFloat f \<Rightarrow> f
          | FVBool b \<Rightarrow> (if b then ''true'' else ''false'')
          | FVOther v \<Rightarrow> [CHR 0x22] @ v @ [CHR 0x22])
       @ ''}''"

definition buildFilterString :: "(string \<times> filterValue) list \<Rightarrow> string" where
  "buildFilterString filters = (if filters = [] then [] else ''{ '' @ joinWith '' '' (map filterPair filters) @ '' }'')"

definition BuildDynamicQuery :: "CollectionType \<Rightarrow> (string \<times> filterValue) list \<Rightarrow> string" where
  "BuildDynamicQuery t filters =
     (let fieldsStr = joinWith '' '' (GetFieldsForCollection t) in
      if filters = [] then getCollectionName t @ '' { '' @ fieldsStr @ '' }''
      else getCollectionName t @ ''(filter: '' @ buildFilterString filters @ '') { '' @ fieldsStr @ '' }'')"

definition nestedSelection :: "CollectionType \<Rightarrow> string" where
  "nestedSelection t = getCollectionName t @ '' { '' @ joinWith '' '' (GetFieldsForCollection t) @ '' }''"

definition BuildNestedQuery :: "CollectionType \<Rightarrow> CollectionType list \<Rightarrow> (string \<times> filterValue) list \<Rightarrow> string" where
  "BuildNestedQuery t nested filters =
     foldl (\<lambda>query n. replaceFirst query ''}'' ('' '' @ nestedSelection n @ '' }'')) (BuildDynamicQuery t filters) nested"

definition GetCollectionHierarchy :: "(CollectionType \<times> CollectionType list) list" where
  "GetCollectionHierarchy =
     [(''Block'', [''Transaction'']), (''Transaction'', [''Log'', ''AccessListEntry'']), (''Log'', []), (''AccessListEntry'', [])]"

definition trimSuffix :: "string \<Rightarrow> string \<Rightarrow> string" where
  "trimSuffix s suf = (if hasSuffix s suf then take (length s - length suf) s else s)"

text \<open>\<open>BuildHierarchicalQuery\<close> writes out the same text as \<open>BuildDynamicQuery\<close> before it adds the nested collections.\<close>

definition BuildHierarchicalQuery :: "CollectionType \<Rightarrow> (string \<times> filterValue) list \<Rightarrow> string" where
  "BuildHierarchicalQuery t filters =
     (let query = BuildDynamicQuery t filters in
      case map_of GetCollectionHierarchy t of
        None \<Rightarrow> query
      | Some nested \<Rightarrow> foldl (\<lambda>q n. trimSuffix q '' }'' @ '' '' @ nestedSelection n @ '' }'') query nested)"

subsection \<open>The shape of the queries\<close>

definition queryHead :: "CollectionType \<Rightarrow> (string \<times> filterValue) list \<Rightarrow> string" where
  "queryHead t filters =
     getCollectionName t @ (if filters = [] then [] else ''(filter: '' @ buildFilterString filters @ '')'')
       @ '' { '' @ joinWith '' '' (GetFieldsForCollection t)"

lemma dynamic_shape: "BuildDynamicQuery t filters = queryHead t filters @ '' }''"
  by (simp add: BuildDynamicQuery_def queryHead_def Let_def)

lemma trimSuffix_append: "trimSuffix (q @ suf) suf = q"
  by (simp add: trimSuffix_def hasSuffix_def)

lemma nest_shape:
  "foldl (\<lambda>q n. trimSuffix q '' }'' @ '' '' @ nestedSelection n @ '' }'') (h @ '' }'') ns
     = h @ concat (map (\<lambda>n. '' '' @ nestedSelection n) ns) @ '' }''"
proof (induction ns arbitrary: h)
  case (Cons n ns)
  show ?case using Cons.IH [of "h @ '' '' @ nestedSelection n"] trimSuffix_append [of h "'' }''"] by simp
qed simp

text \<open>
  The hierarchical query is the dynamic query with the selections of the nested collections, in
  order, before its closing brace, whatever the filters.
\<close>

theorem hierarchical_query_shape:
  "BuildHierarchicalQuery t filters =
     queryHead t filters @ concat (map (\<lambda>n. '' '' @ nestedSelection n)
        (case map_of GetCollectionHierarchy t of None \<Rightarrow> [] | Some ns \<Rightarrow> ns)) @ '' }''"
  unfolding BuildHierarchicalQuery_def Let_def dynamic_shape nest_shape by (simp split: option.split)

text \<open>
  \<open>BuildNestedQuery\<close> replaces the first closing brace instead, which in a query with filters is the
  one of the first filter.
\<close>

lemma nested_query_breaks_filter:
  "hasPrefix (BuildNestedQuery ''Log'' [''Transaction''] [(''blockNumber'', FVInt 1)])
     ''Ethereum__Mainnet__Log(filter: { blockNumber: {_eq: 1 Ethereum__Mainnet__Transaction { _docID _version hash ''"
  by code_simp

end
