(* ===== verification/Provenance.thy ===== *)
theory Provenance
  imports Attestation_Handler
begin

text \<open>
  \<open>pkg/host/DocumentProvenanceService.go\<close>: which documents a view may process, and the
  metadata of its outputs.
\<close>

record ProcessingDecision =
  ShouldProcess :: bool
  SkipType :: string

record DocumentMetadata =
  SourceCollection :: string
  IsViewOutput :: bool
  ViewID :: string
  ProcessingDepth :: int
  ProcessingChain :: string
  DocumentType :: string
  OriginalDocID :: string

record PrimitiveDocument =
  pdID :: string
  pdType :: string
  pdBlockNumber :: nat
  pdData :: gfields
  pdMetadata :: DocumentMetadata

abbreviation maxProcessingDepth :: int where "maxProcessingDepth \<equiv> 5"

definition emptyMetadata :: DocumentMetadata where
  "emptyMetadata = \<lparr>SourceCollection = [], IsViewOutput = False, ViewID = [], ProcessingDepth = 0,
     ProcessingChain = [], DocumentType = [], OriginalDocID = []\<rparr>"

definition InitializeMetadata :: "PrimitiveDocument \<Rightarrow> DocumentMetadata" where
  "InitializeMetadata doc =
     (if ProcessingDepth (pdMetadata doc) = 0
      then \<lparr>SourceCollection = pdType doc, IsViewOutput = False, ViewID = [], ProcessingDepth = 0,
            ProcessingChain = [], DocumentType = pdType doc, OriginalDocID = pdID doc\<rparr>
      else pdMetadata doc)"

definition ConvertToPrimitiveDocument :: "Document \<Rightarrow> PrimitiveDocument" where
  "ConvertToPrimitiveDocument doc =
     \<lparr>pdID = docIdent doc, pdType = docKind doc, pdBlockNumber = docBlockNumber doc,
      pdData = docData doc, pdMetadata = emptyMetadata\<rparr>"

text \<open>The reason strings of a decision are log text and are left out.\<close>

definition ShouldProcessDocument :: "PrimitiveDocument \<Rightarrow> string \<Rightarrow> ProcessingDecision" where
  "ShouldProcessDocument doc viewID =
     (let md = InitializeMetadata doc in
      if ProcessingDepth md \<ge> maxProcessingDepth then \<lparr>ShouldProcess = False, SkipType = ''depth_limit''\<rparr>
      else if ViewID md = viewID then \<lparr>ShouldProcess = False, SkipType = ''same_view_loop''\<rparr>
      else if containsStr (ProcessingChain md) viewID
      then \<lparr>ShouldProcess = False, SkipType = ''processing_chain_loop''\<rparr>
      else if IsViewOutput md then \<lparr>ShouldProcess = True, SkipType = []\<rparr>
      else \<lparr>ShouldProcess = True, SkipType = []\<rparr>)"

definition generateOutputID :: "string \<Rightarrow> string \<Rightarrow> string" where
  "generateOutputID sourceID viewID =
     replaceFirst sourceID ''bae-'' [] @ ''-'' @ replaceFirst viewID ''WASMView_'' []"

definition CreateViewOutputDocument :: "PrimitiveDocument \<Rightarrow> string \<Rightarrow> gfields \<Rightarrow> PrimitiveDocument" where
  "CreateViewOutputDocument sourceDoc viewID outputData =
     (let md = pdMetadata sourceDoc;
          chain = (if ProcessingChain md = [] then viewID else ProcessingChain md @ '','' @ viewID)
      in \<lparr>pdID = generateOutputID (pdID sourceDoc) viewID, pdType = pdType sourceDoc,
          pdBlockNumber = pdBlockNumber sourceDoc, pdData = outputData,
          pdMetadata = \<lparr>SourceCollection = SourceCollection md, IsViewOutput = True, ViewID = viewID,
            ProcessingDepth = ProcessingDepth md + 1, ProcessingChain = chain,
            DocumentType = DocumentType md, OriginalDocID = OriginalDocID md\<rparr>\<rparr>)"

fun PreserveFilterFields :: "gfields \<Rightarrow> gfields \<Rightarrow> string list \<Rightarrow> gfields" where
  "PreserveFilterFields sourceData result [] = result"
| "PreserveFilterFields sourceData result (field # flds) =
     PreserveFilterFields sourceData
       (case map_of result field of
          Some _ \<Rightarrow> result
        | None \<Rightarrow> (case map_of sourceData field of None \<Rightarrow> result | Some v \<Rightarrow> AList.update field v result)) flds"

definition GetRequiredFieldsByType :: "(string \<times> string list) list" where
  "GetRequiredFieldsByType =
     [(''Ethereum__Mainnet__Transaction'', [''from'', ''to'', ''hash'', ''blockNumber'']),
      (''Ethereum__Mainnet__Block'', [''hash'', ''number'']),
      (''Ethereum__Mainnet__Log'', [''address'', ''topics'', ''blockNumber'']),
      (''Ethereum__Mainnet__AccessListEntry'', [''address'', ''storageKeys'']),
      (''Transaction'', [''from'', ''to'', ''hash'', ''blockNumber'']),
      (''Block'', [''hash'', ''number'']),
      (''Log'', [''address'', ''topics'', ''blockNumber'']),
      (''AccessListEntry'', [''address'', ''storageKeys''])]"

text \<open>\<open>True\<close> for no error.\<close>

definition usableField :: "gfields \<Rightarrow> string \<Rightarrow> bool" where
  "usableField d field =
     (case map_of d field of Some (AStr s) \<Rightarrow> s \<noteq> [] | Some (AInt _) \<Rightarrow> True | Some (AUint64 _) \<Rightarrow> True | _ \<Rightarrow> False)"

definition ValidateDocumentForView :: "PrimitiveDocument \<Rightarrow> bool" where
  "ValidateDocumentForView doc =
     list_ex (usableField (pdData doc))
       (case map_of GetRequiredFieldsByType (pdType doc) of
          Some fs \<Rightarrow> fs | None \<Rightarrow> [''from'', ''to'', ''hash'', ''address''])"

definition GetProcessingStats :: "PrimitiveDocument \<Rightarrow> gfields" where
  "GetProcessingStats doc =
     (let md = pdMetadata doc in
      [(''processing_depth'', AInt (ProcessingDepth md)), (''is_view_output'', ABool (IsViewOutput md)),
       (''source_collection'', AStr (SourceCollection md)), (''view_id'', AStr (ViewID md)),
       (''processing_chain'', AStr (ProcessingChain md)),
       (''chain_length'', AInt (int (length (splitByte (CHR '','') (ProcessingChain md))))),
       (''original_doc_id'', AStr (OriginalDocID md))])"

subsection \<open>Runs of views over a document\<close>

text \<open>
  \<open>viewRun src vs doc\<close>: starting from a source document, the views \<open>vs\<close> each accepted the
  document and produced the next one.
\<close>

inductive viewRun :: "Document \<Rightarrow> string list \<Rightarrow> PrimitiveDocument \<Rightarrow> bool" for src where
  source: "viewRun src [] (ConvertToPrimitiveDocument src)"
| viewed: "viewRun src vs doc \<Longrightarrow> ShouldProcess (ShouldProcessDocument doc v) \<Longrightarrow>
    viewRun src (vs @ [v]) (CreateViewOutputDocument doc v out)"

inductive_cases viewRunE: "viewRun src vs doc"

lemma joinWith_snoc: "vs \<noteq> [] \<Longrightarrow> joinWith sep (vs @ [v]) = joinWith sep vs @ sep @ v"
  by (induction sep vs rule: joinWith.induct) auto

lemma joinWith_eq_Nil: "\<forall>v \<in> set vs. v \<noteq> [] \<Longrightarrow> joinWith sep vs = [] \<longleftrightarrow> vs = []"
  by (cases "(sep, vs)" rule: joinWith.cases) auto

lemma joinWith_contains: "v \<in> set vs \<Longrightarrow> containsStr (joinWith sep vs) v"
proof (induction vs rule: rev_induct)
  case Nil
  then show ?case by simp
next
  case (snoc w vs)
  show ?case
  proof (cases "vs = []")
    case True
    with snoc.prems show ?thesis by (auto simp: containsStr_iff intro!: exI [of _ "[]"])
  next
    case False
    then have j: "joinWith sep (vs @ [w]) = joinWith sep vs @ sep @ w" by (rule joinWith_snoc)
    from snoc.prems consider "v \<in> set vs" | "v = w" by auto
    then show ?thesis
    proof cases
      case 1
      with snoc.IH obtain a b where "joinWith sep vs = a @ v @ b" by (auto simp: containsStr_iff)
      with j have "joinWith sep (vs @ [w]) = a @ v @ (b @ sep @ w)" by simp
      then show ?thesis unfolding containsStr_iff by blast
    next
      case 2
      with j have "joinWith sep (vs @ [w]) = (joinWith sep vs @ sep) @ v @ []" by simp
      then show ?thesis unfolding containsStr_iff by blast
    qed
  qed
qed

lemma containsStr_Nil [simp]: "containsStr s []"
  by (auto simp: containsStr_iff)

lemma viewRun_inv:
  "viewRun src vs doc \<Longrightarrow>
     ProcessingDepth (pdMetadata doc) = int (length vs) \<and> length vs \<le> 5 \<and> distinct vs
     \<and> (\<forall>v \<in> set vs. v \<noteq> []) \<and> ProcessingChain (pdMetadata doc) = joinWith '','' vs
     \<and> (vs \<noteq> [] \<longrightarrow> ViewID (pdMetadata doc) = last vs \<and> IsViewOutput (pdMetadata doc))"
proof (induction rule: viewRun.induct)
  case source
  then show ?case by (simp add: ConvertToPrimitiveDocument_def emptyMetadata_def)
next
  case (viewed vs doc v out)
  let ?md = "pdMetadata doc"
  have d: "ProcessingDepth (InitializeMetadata doc) < 5" "\<not> containsStr (ProcessingChain (InitializeMetadata doc)) v"
    using viewed.hyps(2) by (auto simp: ShouldProcessDocument_def Let_def split: if_splits)
  have chain: "ProcessingChain (InitializeMetadata doc) = joinWith '','' vs"
    "ProcessingDepth (InitializeMetadata doc) = int (length vs)"
    using viewed.IH by (auto simp: InitializeMetadata_def)
  have v: "v \<noteq> []" using d(2) by auto
  have nv: "v \<notin> set vs" using d(2) chain joinWith_contains [of v vs "'',''"] by auto
  have j: "(if ProcessingChain ?md = [] then v else ProcessingChain ?md @ '','' @ v) = joinWith '','' (vs @ [v])"
    using viewed.IH joinWith_eq_Nil [of vs "'',''"] joinWith_snoc [of vs "'',''" v] by auto
  show ?case
    using viewed.IH d(1) chain(2) nv v j
    by (simp add: CreateViewOutputDocument_def Let_def)
qed

subsection \<open>Properties\<close>

text \<open>
  C15. Views cannot loop: whatever views are chained over a source document, at most five of
  them accept it, no view accepts it twice, and the recorded depth and comma-separated chain
  are those of the views that ran.
\<close>

theorem view_chain_bounded:
  assumes "viewRun src vs doc"
  shows "length vs \<le> 5 \<and> distinct vs \<and> ProcessingDepth (pdMetadata doc) = int (length vs)
    \<and> ProcessingChain (pdMetadata doc) = joinWith '','' vs"
  using viewRun_inv [OF assms] by blast

theorem view_chain_bounded_witness:
  "\<exists>doc. viewRun \<lparr>docIdent = ''bae-1'', docKind = ''Log'', docBlockNumber = 1, docData = []\<rparr> [''v1'', ''v2''] doc
     \<and> ProcessingChain (pdMetadata doc) = ''v1,v2''"
proof -
  let ?src = "\<lparr>docIdent = ''bae-1'', docKind = ''Log'', docBlockNumber = 1, docData = []\<rparr>"
  let ?d0 = "ConvertToPrimitiveDocument ?src"
  let ?d1 = "CreateViewOutputDocument ?d0 ''v1'' []"
  have "ShouldProcess (ShouldProcessDocument ?d0 ''v1'')" "ShouldProcess (ShouldProcessDocument ?d1 ''v2'')"
    by (simp_all add: ShouldProcessDocument_def InitializeMetadata_def ConvertToPrimitiveDocument_def
        CreateViewOutputDocument_def emptyMetadata_def containsStr_def hasPrefix_def)
  from viewRun.viewed [OF viewRun.viewed [OF viewRun.source this(1)] this(2)]
  have "viewRun ?src ([''v1''] @ [''v2'']) (CreateViewOutputDocument ?d1 ''v2'' [])" by simp
  with view_chain_bounded [OF this] show ?thesis by auto
qed

text \<open>
  The loop check looks for the view's name anywhere in the chain, so a view is refused
  although it never ran when its name is part of the name of a view that did.
\<close>

theorem view_refused_by_substring:
  assumes "viewRun src vs doc" "w \<in> set vs" "containsStr w v" "v \<noteq> []"
  shows "\<not> ShouldProcess (ShouldProcessDocument doc v)"
proof -
  have i: "ProcessingChain (pdMetadata doc) = joinWith '','' vs" "ProcessingDepth (pdMetadata doc) \<noteq> 0"
    using viewRun_inv [OF assms(1)] assms(2) by auto
  from joinWith_contains [OF assms(2)] assms(3) have "containsStr (joinWith '','' vs) v"
    unfolding containsStr_iff by (metis append.assoc)
  with i show ?thesis by (simp add: ShouldProcessDocument_def InitializeMetadata_def Let_def)
qed

theorem view_refused_by_substring_witness:
  "\<exists>doc. viewRun \<lparr>docIdent = ''bae-1'', docKind = ''Log'', docBlockNumber = 1, docData = []\<rparr> [''View10''] doc
     \<and> \<not> ShouldProcess (ShouldProcessDocument doc ''View1'')"
proof -
  let ?src = "\<lparr>docIdent = ''bae-1'', docKind = ''Log'', docBlockNumber = 1, docData = []\<rparr>"
  let ?d0 = "ConvertToPrimitiveDocument ?src"
  have "ShouldProcess (ShouldProcessDocument ?d0 ''View10'')"
    by (simp add: ShouldProcessDocument_def InitializeMetadata_def ConvertToPrimitiveDocument_def
        emptyMetadata_def containsStr_def)
  from viewRun.viewed [OF viewRun.source this]
  have r: "viewRun ?src [''View10''] (CreateViewOutputDocument ?d0 ''View10'' [])" by simp
  have "containsStr ''View10'' ''View1''" by (simp add: containsStr_def hasPrefix_def)
  with view_refused_by_substring [OF r] r show ?thesis by auto
qed

text \<open>
  Preserving filter fields never overwrites or invents data: a field of the result is the
  output's if the output has it, else the source's if it is required, and nothing else.
\<close>

theorem preserve_fields_exact:
  "map_of (PreserveFilterFields src out req) k =
     (case map_of out k of Some v \<Rightarrow> Some v | None \<Rightarrow> if k \<in> set req then map_of src k else None)"
proof (induction req arbitrary: out)
  case Nil
  then show ?case by (simp split: option.split)
next
  case (Cons f req)
  show ?case
  proof (cases "map_of out f")
    case None
    then show ?thesis
      by (cases "map_of src f") (auto simp: Cons.IH update_conv' split: option.splits)
  next
    case (Some v)
    then show ?thesis by (auto simp: Cons.IH split: option.splits)
  qed
qed

end
