(* ===== verification/Spec2Isabelle.thy ===== *)
theory Spec2Isabelle
  imports Host_Lifecycle Pipeline_Run Attestation_Flow Reconnect_Loop Query_Service Snapshot_Import Replication_Filter Provenance
begin

text \<open>
  A verification of the Shinzo host client (Go), the process that receives indexed blockchain
  documents from peers through an embedded DefraDB node, verifies the block signatures that
  come with them, writes attestation records, and prunes old documents.

  \<^bold>\<open>Parts of the program and the theories that model them\<close>

  \<^item> \<^emph>\<open>Prelude\<close>: \<open>Host_Prelude\<close> holds the Go vocabulary (64-bit wrap-around, float conversions, dynamic
    values, the string, hex and decimal routines of the standard library) and shared lemmas.
  \<^item> \<^emph>\<open>Pruning\<close>, \<open>src/pkg/pruner\<close>. \<open>DocID_Codec\<close> (\<open>docid_codec.go\<close>): document identifiers packed
    into UUIDs; the package variables are the record \<open>codec\<close>. \<open>Event_Queue\<close> (\<open>event_queue.go\<close>,
    \<open>queue.go\<close>): the record \<open>EventQueue\<close>, one definition per method, the file system as a map
    with a record of injected faults; the FIFO contract is the locale \<open>doc_fifo\<close>, interpreted on
    the model. \<open>Pruner\<close> (\<open>pruner.go\<close>, \<open>config.go\<close>): queue-driven and block-range pruning, the
    loop and the lifecycle, over the parameter record \<open>defra\<close>.
  \<^item> \<^emph>\<open>Attestation\<close>, \<open>src/pkg/attestation\<close> and \<open>src/pkg/host\<close>. \<open>Block_Signature\<close>
    (\<open>blockSignatureVerifier.go\<close>, \<open>signatureVerifier.go\<close>): signature cache, verification, CID
    collector. \<open>Attestation_Record\<close> (\<open>attestationRecordService.go\<close>): creating, merging and
    querying records; the verifier contract is the locale \<open>sig_verifier\<close>, interpreted on
    \<open>DefraVerify\<close>. \<open>Attestation_Handler\<close> (\<open>attestationHandler.go\<close>): event listener, document
    queue, block signature processing, retries. \<open>Processing_Pipeline\<close> (\<open>processingPipeline.go\<close>):
    batching and asynchronous attestation; \<open>Pipeline_Run\<close>: all its goroutines, \<open>Start\<close> and \<open>Stop\<close> as a step
    relation. \<open>Attestation_Flow\<close>: listener, queue, worker and post composed. \<open>Observed_Attesters\<close> (\<open>observedAttesters.go\<close>): the
    attesters seen within a window.
  \<^item> \<^emph>\<open>Admission of documents\<close>, \<open>src/pkg/host\<close>. \<open>Replication_Filter\<close> (\<open>replication_filter.go\<close>
    and the filter types of \<open>config/config.go\<close>); \<open>Provenance\<close> (\<open>DocumentProvenanceService.go\<close>).
  \<^item> \<^emph>\<open>Views\<close>, \<open>src/pkg/view\<close>. \<open>View_Model\<close> (\<open>view.go\<close>): a view, its validation, inline WASM written to
    files, its creation in DefraDB with the correction of a rejected query (the regular expressions are
    written out as matchers). \<open>Wasm_Registry\<close> (\<open>wasmRegistry.go\<close>): the local lens files. \<open>View_Manager\<close>
    (\<open>viewManager.go\<close>): the table of active views, registration, persistence and start-up load.
  \<^item> \<^emph>\<open>Billing\<close>, \<open>src/pkg/acp\<close> and \<open>src/pkg/accounting\<close>. \<open>GraphQL_Fields\<close> (\<open>parser.go\<close>): which
    collections a request selects. \<open>Epoch_Balance\<close> (\<open>epoch.go\<close>, \<open>balance.go\<close>): the settlement epoch and the
    cached balance check; epochs are the locale \<open>epoch_source\<close>. \<open>Billing_Config\<close> (\<open>config.go\<close>).
    \<open>Billing_Gate\<close> (\<open>middleware.go\<close>, \<open>capture.go\<close>, \<open>registry.go\<close>): the decision tree of the gate; the
    view registry and the authorizer are the locales \<open>view_registry\<close> and \<open>authorizer\<close>, joined in
    \<open>gate\<close> and interpreted on the view manager and the balance authorizer. \<open>Accounting\<close>
    (\<open>recorder.go\<close>, \<open>client.go\<close>): the signed record and the bounded pool that posts it.
  \<^item> \<^emph>\<open>Hub\<close>, \<open>src/pkg/shinzohub\<close>. \<open>Hub_Client\<close> (\<open>query.go\<close>, \<open>height.go\<close>, \<open>balance.go\<close>,
    \<open>view_processor.go\<close>): the REST gateway with its pagination and the decoding of bundles. \<open>Hub_Events\<close>
    (\<open>events.go\<close>, \<open>view.go\<close>, and the consumer in \<open>src/pkg/host/host.go\<close>): the event stream with
    hydration and reconnection, up to the registration of the views.
  \<^item> \<^emph>\<open>Snapshots\<close>, \<open>src/pkg/snapshot\<close>. \<open>Snapshot_Import\<close> (\<open>client.go\<close>, \<open>importer.go\<close>, and
    \<open>src/pkg/host/snapshot_bootstrap.go\<close>): choice, download, verification, import and attestation.
  \<^item> \<^emph>\<open>Peers\<close>, \<open>src/pkg/defradb\<close>. \<open>Peer_Network\<close> (\<open>network_handler.go\<close>, \<open>network_state.go\<close>,
    \<open>peers.go\<close>): peers and their connection states, with the locked sections of all goroutines
    as a step relation; \<open>Reconnect_Loop\<close>: its two background goroutines. \<open>Peer_Discovery\<close> (\<open>src/pkg/host/peer_discovery.go\<close>): bootstrap addresses and
    the parallel discovery of identifiers.
  \<^item> \<^emph>\<open>Queries\<close>, \<open>src/pkg/graphql\<close>. \<open>Query_Rewrite\<close>: block range filters and the fields \<open>_docID\<close> and
    \<open>_version\<close> put into query texts. \<open>Query_Service\<close> (\<open>src/pkg/host/queryService.go\<close>): query builders.
  \<^item> \<^emph>\<open>Configuration, keys, database node\<close>. \<open>Host_Config\<close> (\<open>config/config.go\<close>, \<open>src/pkg/defradb/config.go\<close>,
    \<open>findConfigFile\<close>): loading with the overrides of the environment. \<open>Node_Identity\<close> (\<open>src/pkg/signer\<close>,
    \<open>src/pkg/defracontext\<close>, the key functions of \<open>src/pkg/defradb/defra.go\<close>, \<open>SignMessages\<close>): key ring, identity,
    derived keys, signing and verification. \<open>Defra_Node\<close> (\<open>defra.go\<close>, \<open>lan_ip.go\<close>, \<open>schema.go\<close>,
    \<open>src/pkg/logger\<close>): the start of the node as the list of its calls, the client, subscriptions.
    \<open>Schema_Source\<close> (\<open>src/pkg/schema\<close>, \<open>schema_resolve.go\<close>, \<open>src/pkg/view/schemaService.go\<close>): the schema
    and the normalisation of view definitions.
  \<^item> \<^emph>\<open>Process\<close>. \<open>Health_Server\<close> (\<open>src/pkg/server/health.go\<close>, \<open>registration.go\<close>): every handler as its
    calls on the response writer; what it asks the host is the locale \<open>health_source\<close>, interpreted on the
    host's own answers. \<open>Host_Lifecycle\<close> (\<open>src/pkg/host/host.go\<close>, \<open>cmd/main.go\<close>, \<open>src/pkg/playground\<close>):
    start-up stage by stage with every early return, the billing server, closing, the entry point.
  \<^item> \<^emph>\<open>Support\<close>. \<open>Host_Metrics\<close> (\<open>src/pkg/server/metrics.go\<close>), with the compare-and-swap maximum as a
    step relation; \<open>Defra_Query\<close> (\<open>src/pkg/defradb/query.go\<close>, \<open>writer.go\<close>).

  \<^bold>\<open>How the parts interact.\<close> The event listener (\<open>handleUpdate\<close>) pushes every replicated document of a
  known collection onto the prune queue and enqueues block signatures for the workers; a worker
  reads the document (\<open>processBlockSignatureDocument\<close>), verifies it, remembers the attester and
  the signature, and merges an attestation record into the store. The pruner drains the same
  queue, purges the documents collection by collection, and requeues the collections whose
  purge failed. A GraphQL request passes the gate, which asks the view manager whether it touches a
  view and the authorizer whether its payer can pay, and hands a record to the accounting client
  for each served query. \<open>StartHosting\<close> builds all of them from the configuration: node, schema,
  snapshots, billing server, views, network, pipeline, pruner, in this order. \<open>hostReach\<close> below composes the listener and the pruner on the shared queue.

  \<^bold>\<open>Third-party code\<close> (DefraDB, its GraphQL engine and documents, the cryptography, the CID parser) is
  always a parameter: the records \<open>defra\<close>, \<open>docstore\<close>, \<open>crypto\<close>. What a property needs of it is
  a named hypothesis (\<open>oldest_first\<close>, \<open>purge_removes\<close>, \<open>doc_laws\<close>) with a concrete instance in
  the property's witness. Clocks, measured durations, I/O faults, the order in which goroutines
  finish and the interference of other writers are arguments too.

  \<^bold>\<open>What the theorems show.\<close> Codec and queue: round trips, the queue invariant in every reachable
  state, FIFO order, conservation under drain and requeue, atomic saving, restart. Pruner: no
  document is lost, the newest blocks are never pruned. Attestation: the cache keeps the highest
  blocks, signatures are accepted exactly when they verify, records attest exactly the verified
  CIDs, merging is a duplicate-free union, an unverified signature has no effect, the document
  queue is bounded and drops the oldest, batching conserves jobs, conflicts are retried, a valid
  replicated signature is attested in the end, the running pipeline loses no job on its way, keeps its bounds
  and can always be stopped. Filter
  and provenance: the decision is the configured one, view chains are bounded and loop free.
  Views: a registration is all or nothing, lens files are complete. Billing: the gate sees every
  collection of a request, forwards a billed view only to a payer that paid, records exactly the
  served queries, and posts at most 64 records at a time without losing one. Hub: the registry is
  read to its end, delivered events carry validated views under their address, the views they
  register are found by the gate, reconnection backs off within bounds. Peers: the table stays
  consistent under every interleaving, addresses survive the round trip, discovery keeps the
  configured order. Queries: adding the fields is idempotent and keeps the braces balanced. Snapshots: nothing is
  imported before the signature over the block roots verified, the roots are bound to it up to
  hash collisions, the choice is exact and the bootstrap completes. Configuration: environment over file over
  defaults, exactly. Keys: a restarted node has the same identity, published signatures verify. Node: a client
  has a network exactly while its node runs, subscriptions count what they drop. Schema: only a checked or the
  embedded schema is used. Process: the gate is up before any peer is added, closing has a fixed order.
  Several theorems state a defect of the code as it is (a poisoned identifier prefix, a panic on
  the second stop, a lookup that can never hit, CID lists accepted unchecked, duplicate records
  in a batch, a view refused because of another's name, jobs left behind by a stop, a panic on the second close).

  \<^bold>\<open>Bounds and loops.\<close> Every loop is structural recursion over its input or over the attempts left
  (five posts, ten fetches, ten attestation attempts, as in the code), except \<open>enqueueDoc\<close>, whose
  termination is proved and whose value \<open>None\<close> is spinning on a channel without capacity, and
  \<open>fetchPages\<close>, a partial function that is proved to return for a finite registry. The loops of the
  event stream run over the sequence of events they meet. No theorem depends on fuel. 64-bit counters wrap; the theorems that count state the range.

  \<^bold>\<open>Not modelled.\<close> Helpers for tests (\<open>StartHostingWithTestConfig\<close>, \<open>StartDefraInstanceWithTestConfig\<close>, the mocks),
  helpers nothing calls, the text of log messages and of the HTML pages, the scheduling of goroutines beyond
  the interleavings stated as step relations, and all third-party code, which is a parameter.
\<close>

subsection \<open>The listener and the pruner on the shared queue\<close>

text \<open>
  The host hands the same queue to the listener and to the pruner. A state is the handlers'
  state, the pruner and the store; the listener handles one message or the pruner runs once.
\<close>

inductive hostReach :: "'db defra \<Rightarrow> attState \<times> Pruner \<times> 'db \<Rightarrow> bool" for D where
  start: "pruneQueue st = Some s \<Longrightarrow> queue_reach s \<Longrightarrow> docQueue st = [] \<Longrightarrow> 0 < docQueueCap st \<Longrightarrow>
    hostReach D (st, p, db)"
| update: "hostReach D (st, p, db) \<Longrightarrow> hostReach D (handleUpdate now msg st, p, db)"
| receive: "hostReach D (st, p, db) \<Longrightarrow>
    hostReach D (st\<lparr>docQueue := chanStep (docQueueCap st) ChanTake (docQueue st)\<rparr>, p, db)"
| prune: "hostReach D (st, p, db) \<Longrightarrow> pruneQueue st = Some s \<Longrightarrow>
    runEventQueuePrune D now p db s = (p', db', s') \<Longrightarrow> hostReach D (st\<lparr>pruneQueue := Some s'\<rparr>, p', db')"

inductive_cases hostReachE: "hostReach D (st, p, db)"

lemma purgeGroup_reach:
  "queue_reach s \<Longrightarrow> queue_reach (fst (snd (purgeGroup D hist groups n (db, s, t))))"
  by (auto simp: purgeGroup_def split: option.splits sum.splits prod.splits intro: queue_reach.requeue)

lemma purgeGroups_reach:
  "queue_reach (fst (snd st)) \<Longrightarrow> queue_reach (fst (snd (fold (purgeGroup D hist groups) ns st)))"
proof (induction ns arbitrary: st)
  case Nil
  then show ?case by simp
next
  case (Cons n ns)
  obtain db s t where st: "st = (db, s, t)" by (cases st)
  with Cons.prems purgeGroup_reach [of s D hist groups n db t] show ?case by (simp add: Cons.IH)
qed

lemma prune_reach:
  assumes "queue_reach s" "runEventQueuePrune D now p db s = (p', db', s')"
  shows "queue_reach s'"
proof -
  obtain c q where s: "s = (c, q)" by (cases s)
  show ?thesis
  proof (cases "Len q \<le> MaxDocs (cfg p)")
    case True
    with assms s show ?thesis by (simp add: runEventQueuePrune_def)
  next
    case False
    obtain r q1 where d: "DrainDocs (wrap64 (Len q - MaxDocs (cfg p))) c q = (r, q1)" by fastforce
    with assms(1) s have q1: "queue_reach (c, q1)" by (metis queue_reach.drain snd_conv)
    show ?thesis
    proof (cases r)
      case None
      with assms(2) s d False q1 show ?thesis by (simp add: runEventQueuePrune_def)
    next
      case (Some res)
      let ?f = "fold (purgeGroup D (PruneHistory (cfg p)) (DocIDsByCollection res)) (purgeOrder p) (db, (c, q1), 0)"
      have "s' = fst (snd ?f)"
        using assms(2) s d False Some
        by (auto simp: runEventQueuePrune_def purgeFromDrainResult_def Let_def split: prod.splits)
      moreover have "queue_reach (fst (snd ?f))" by (rule purgeGroups_reach) (simp add: q1)
      ultimately show ?thesis by simp
    qed
  qed
qed

lemma chanStep_bound: "0 < cap \<Longrightarrow> length q \<le> cap \<Longrightarrow> length (chanStep cap op q) \<le> cap"
  by (cases op) (auto simp: enqueueDoc_drops_oldest)

lemma handleUpdate_frame:
  "docQueueCap (handleUpdate now msg st) = docQueueCap st"
  "pruneQueue (handleUpdate now msg st) = pruneQueue st
   \<or> (\<exists>n d. pruneQueue (handleUpdate now msg st) = map_option (Push n d) (pruneQueue st))"
  "docQueue (handleUpdate now msg st) = docQueue st
   \<or> (\<exists>e. docQueue (handleUpdate now msg st) = chanStep (docQueueCap st) (ChanPush e) (docQueue st))"
  by (auto simp: handleUpdate_def Let_def simp del: chanStep.simps split: option.splits)

definition host_inv :: "attState \<Rightarrow> bool" where
  "host_inv st \<longleftrightarrow> (\<exists>s. pruneQueue st = Some s \<and> queue_reach s) \<and> 0 < docQueueCap st
     \<and> length (docQueue st) \<le> docQueueCap st"

lemma handleUpdate_inv:
  assumes "host_inv st" shows "host_inv (handleUpdate now msg st)"
proof -
  from assms obtain s where s: "pruneQueue st = Some s" "queue_reach s" by (auto simp: host_inv_def)
  have "\<exists>s'. pruneQueue (handleUpdate now msg st) = Some s' \<and> queue_reach s'"
    using handleUpdate_frame(2) [of now msg st] s queue_reach.push by (metis option.simps(9))
  moreover have "length (docQueue (handleUpdate now msg st)) \<le> docQueueCap st"
    using handleUpdate_frame(3) [of now msg st] assms chanStep_bound by (metis host_inv_def)
  ultimately show ?thesis using assms by (simp add: host_inv_def handleUpdate_frame(1))
qed

text \<open>A listener started on a fresh process takes steps of \<open>hostReach\<close> only, whatever it receives.\<close>

lemma listenLoop_reach: "hostReach D (st, p, db) \<Longrightarrow> hostReach D (listenLoop evs st, p, db)"
  by (induction evs st rule: listenLoop.induct) (auto intro: hostReach.update)

lemma listener_reaches:
  assumes "pruneQueue st = Some s" "queue_reach s"
  shows "hostReach D (snd (startEventBusListener True cols qsize workers subscribed evs st), p, db)"
proof -
  define st1 where "st1 = snd (snd (initDocQueue qsize workers (snd (initKnownCollectionIDs True cols st))))"
  have "pruneQueue st1 = Some s" "docQueue st1 = []" "0 < docQueueCap st1"
    using assms(1) by (simp_all add: st1_def initDocQueue_def initKnownCollectionIDs_def Let_def split: option.split)
  then have "hostReach D (st1, p, db)" using assms(2) by (intro hostReach.start)
  then show ?thesis
    using listenLoop_reach [of D st1 p db evs]
    by (simp add: startEventBusListener_def st1_def case_prod_unfold Let_def)
qed

lemma hostReach_inv: "hostReach D (st, p, db) \<Longrightarrow> host_inv st"
proof (induction "(st, p, db)" arbitrary: st p db rule: hostReach.induct)
  case (start st s p db)
  then show ?case by (auto simp: host_inv_def)
next
  case (update st p db now msg)
  then show ?case by (simp add: handleUpdate_inv)
next
  case (receive st p db)
  then show ?case by (auto simp: host_inv_def)
next
  case (prune st p db s now p' db' s')
  then have "queue_reach s'" using prune_reach by (metis host_inv_def option.inject)
  with prune show ?case by (simp add: host_inv_def)
qed

subsection \<open>Properties\<close>



subsection \<open>Closing twice\<close>

text \<open>
  \<open>Close\<close> stops the pipeline every time it is called. After a first \<open>Stop\<close> the queue stays closed
  whatever the goroutines do, so the \<open>Stop\<close> of a second \<open>Close\<close> closes a closed channel and panics.
\<close>

theorem second_close_panics:
  assumes "CloseHost host = (cs, host')" "stopPipeline r = Some r1" "pipeStep\<^sup>*\<^sup>* r1 r2"
  shows "PipelineStop \<in> set cs \<and> PipelineStop \<in> set (fst (CloseHost host')) \<and> stopPipeline r2 = None"
  using assms(1) second_stop_panics [OF assms(2,3)] by (auto simp: CloseHost_def)

end
